theory Spec2Isabelle
  imports Complex_Main "HOL-Library.Multiset"
begin

section \<open>Common value types\<close>

text \<open>
  A thrown JavaScript \<open>Error\<close> or a raised PostgreSQL exception is represented by its
  message. Store identifiers (\<open>UUID\<close> columns, \<open>string\<close> on the TypeScript side) are
  natural numbers, so a string that does not spell a UUID, on which the cast \<open>::UUID\<close>
  fails, has no counterpart here; \<open>INTEGER\<close> columns are \<open>int\<close>; \<open>DECIMAL\<close> columns and the
  corresponding TypeScript \<open>number\<close>s are exact rationals, which the store rounds to the
  scale of the column and checks against its precision when it writes them; a \<open>DATE\<close>
  column holds the text in which the store renders the date. \<open>Date.now()\<close> and \<open>NOW()\<close>
  are read from an explicit clock argument (milliseconds).
\<close>

type_synonym js_error = string
type_synonym uuid = nat
type_synonym decimal = rat

text \<open>Template-literal formatting of an integer, \<open>`${n}`\<close>.\<close>

definition digit_char :: "nat \<Rightarrow> char" where
  "digit_char d = ''0123456789'' ! d"

function show_nat :: "nat \<Rightarrow> string" where
  "show_nat n = (if n < 10 then [digit_char n] else show_nat (n div 10) @ [digit_char (n mod 10)])"
  by pat_completeness auto
termination
  by (relation "measure (\<lambda>n. n)") auto

declare show_nat.simps [simp del]

definition show_int :: "int \<Rightarrow> string" where
  "show_int i = (if i < 0 then CHR ''-'' # show_nat (nat (- i)) else show_nat (nat i))"

text \<open>The JavaScript idiom \<open>x || d\<close> on a number: \<open>d\<close> replaces a falsy (zero) \<open>x\<close>.\<close>

definition or_default :: "'a::zero \<Rightarrow> 'a \<Rightarrow> 'a" where
  "or_default x d = (if x = 0 then d else x)"

section \<open>RetryableQuery (src/services/supabaseService.ts)\<close>

text \<open>
  The wrapped operation \<open>queryFn\<close> is an effectful thunk: it reads and changes a world
  \<open>'w\<close> and either returns a value (\<open>Inr\<close>) or throws (\<open>Inl\<close>). The execution state
  records, besides the world, how often the thunk has been invoked and which backoff
  delays have been waited for.
\<close>

record 'w exec_state =
  world :: 'w
  calls :: nat
  slept :: "nat list"

definition maxRetries :: nat where
  "maxRetries = 2"

definition baseDelay :: nat where
  "baseDelay = 1000"

function execute_loop ::
  "('w \<Rightarrow> (js_error + 'a) \<times> 'w) \<Rightarrow> string \<Rightarrow> nat \<Rightarrow> js_error option \<Rightarrow> 'w exec_state
     \<Rightarrow> (js_error + 'a) \<times> 'w exec_state" where
  "execute_loop queryFn ctx attempt lastError st =
     (if attempt \<le> maxRetries then
        (case queryFn (world st) of
           (Inr v, w') \<Rightarrow> (Inr v, st\<lparr>world := w', calls := calls st + 1\<rparr>)
         | (Inl e, w') \<Rightarrow>
             (let st1 = st\<lparr>world := w', calls := calls st + 1\<rparr>;
                  st2 = (if attempt < maxRetries
                         then st1\<lparr>slept := slept st1 @ [baseDelay * 2 ^ attempt]\<rparr>
                         else st1)
              in execute_loop queryFn ctx (attempt + 1) (Some e) st2))
      else
        (case lastError of
           Some e \<Rightarrow>
             (Inl (ctx @ '' failed after '' @ show_nat maxRetries @ '' retries: '' @ e), st)
         | None \<Rightarrow> (Inl ''TypeError: Cannot read properties of undefined'', st)))"
  by pat_completeness auto
termination
  by (relation "measure (\<lambda>(queryFn, ctx, attempt, lastError, st). maxRetries + 1 - attempt)") auto

declare execute_loop.simps [simp del]

definition execute ::
  "('w \<Rightarrow> (js_error + 'a) \<times> 'w) \<Rightarrow> string \<Rightarrow> 'w \<Rightarrow> (js_error + 'a) \<times> 'w exec_state" where
  "execute queryFn ctx w = execute_loop queryFn ctx 0 None \<lparr>world = w, calls = 0, slept = []\<rparr>"

text \<open>
  The outcome of the \<open>k\<close>-th successive invocation of the thunk (counting from 0) when it
  is started in world \<open>w\<close>.
\<close>

fun attempt_outcome :: "('w \<Rightarrow> (js_error + 'a) \<times> 'w) \<Rightarrow> 'w \<Rightarrow> nat \<Rightarrow> js_error + 'a" where
  "attempt_outcome queryFn w 0 = fst (queryFn w)"
| "attempt_outcome queryFn w (Suc k) = attempt_outcome queryFn (snd (queryFn w)) k"

section \<open>queryWithTimeout (src/services/supabaseService.ts)\<close>

text \<open>
  A promise is described from the moment of its creation: it settles after a number of
  milliseconds, with a value (\<open>Inr\<close>) or with an error (\<open>Inl\<close>), or it stays pending for
  ever.
\<close>

datatype 'a promise = Settles nat "js_error + 'a" | Pending

text \<open>
  \<open>new Promise((_, reject) => setTimeout(() => reject(new Error(msg)), ms))\<close>.
\<close>

definition reject_after :: "nat \<Rightarrow> js_error \<Rightarrow> 'a promise" where
  "reject_after ms msg = Settles ms (Inl msg)"

text \<open>
  \<open>Promise.race\<close> settles as the first of its promises to settle does; of two that settle
  in the same millisecond the one that stands earlier in the array is taken. A race
  without a settling promise stays pending.
\<close>

fun Promise_race :: "'a promise list \<Rightarrow> 'a promise" where
  "Promise_race [] = Pending"
| "Promise_race (p # ps) =
     (case p of
        Pending \<Rightarrow> Promise_race ps
      | Settles t r \<Rightarrow>
          (case Promise_race ps of
             Pending \<Rightarrow> Settles t r
           | Settles u s \<Rightarrow> if t \<le> u then Settles t r else Settles u s))"

text \<open>The argument \<open>queryFn\<close> stands for the promise that the call \<open>queryFn()\<close> returns.\<close>

definition queryWithTimeout :: "'a promise \<Rightarrow> nat \<Rightarrow> 'a promise" where
  "queryWithTimeout queryFn timeoutMs =
     Promise_race [queryFn,
       reject_after timeoutMs ''Query timeout - operation took longer than expected'']"

text \<open>
  \<open>await\<close> continues with the outcome of a promise once it has settled, and never
  continues on a pending one (\<open>None\<close>).
\<close>

definition await :: "'a promise \<Rightarrow> (js_error + 'a) option" where
  "await p = (case p of Settles t r \<Rightarrow> Some r | Pending \<Rightarrow> None)"

text \<open>
  The arrow function \<open>async () => { return await queryWithTimeout(queryFn, timeoutMs) }\<close>
  that the methods of \<open>SupabaseService\<close> hand to \<open>RetryableQuery.execute\<close>, as an effectful
  thunk: \<open>queryFn\<close> starts the operation in the world and yields its promise together with
  the world that the operation leaves, whether or not anybody waits for it. The race
  contains the timer, so the \<open>await\<close> always continues; the branch for \<open>None\<close> is there
  only to make the thunk total.
\<close>

definition with_timeout :: "('w \<Rightarrow> 'a promise \<times> 'w) \<Rightarrow> nat \<Rightarrow> 'w \<Rightarrow> (js_error + 'a) \<times> 'w" where
  "with_timeout queryFn timeoutMs w =
     (case queryFn w of
        (p, w') \<Rightarrow>
          (case await (queryWithTimeout p timeoutMs) of
             Some r \<Rightarrow> (r, w')
           | None \<Rightarrow> (Inl ''await never continues'', w')))"

text \<open>
  The promise of the \<open>k\<close>-th successive start of an operation (counting from 0) when the
  first start happens in world \<open>w\<close>.
\<close>

fun attempt_promise :: "('w \<Rightarrow> 'a promise \<times> 'w) \<Rightarrow> 'w \<Rightarrow> nat \<Rightarrow> 'a promise" where
  "attempt_promise queryFn w 0 = fst (queryFn w)"
| "attempt_promise queryFn w (Suc k) = attempt_promise queryFn (snd (queryFn w)) k"

text \<open>Whether a promise settles within a number of milliseconds.\<close>

definition timely :: "'a promise \<Rightarrow> nat \<Rightarrow> bool" where
  "timely p ms \<longleftrightarrow> (case p of Settles t r \<Rightarrow> t \<le> ms | Pending \<Rightarrow> False)"

section \<open>BillCache (cache manager)\<close>

datatype js_date = DateParse string | DateNow int

datatype payment_type = cash | online

record MonthDataExpense =
  me_id :: "uuid option"
  me_description :: string
  me_amount :: decimal
  me_date :: js_date

record MonthDataPayment =
  mp_id :: "uuid option"
  mp_amount :: decimal
  mp_date :: js_date
  mp_type :: payment_type
  mp_note :: "string option"

record ElectricityData =
  el_initialReading :: int
  el_finalReading :: int
  el_multiplier :: decimal
  el_readingDate :: js_date

record MotorData =
  mo_initialReading :: int
  mo_finalReading :: int
  mo_multiplier :: decimal
  mo_numberOfPeople :: int
  mo_readingDate :: js_date

record MonthData =
  rentAmount :: decimal
  electricityEnabled :: bool
  electricityData :: ElectricityData
  motorEnabled :: bool
  motorData :: MotorData
  waterEnabled :: bool
  waterAmount :: decimal
  maintenanceEnabled :: bool
  maintenanceAmount :: decimal
  additionalExpenses :: "MonthDataExpense list"
  payments :: "MonthDataPayment list"

record CacheEntry =
  data :: MonthData
  timestamp :: int
  isStale :: bool

text \<open>
  The state a \<open>BillCache\<close> method works on: the instance's private map and the two cache
  counters of the \<open>performanceMonitor\<close> singleton that \<open>get\<close> increments.
\<close>

record BillCache =
  cache :: "string \<rightharpoonup> CacheEntry"
  cacheHits :: nat
  cacheMisses :: nat

definition CACHE_TTL :: int where
  "CACHE_TTL = 15 * 60 * 1000"

definition getCacheKey :: "int \<Rightarrow> int \<Rightarrow> int \<Rightarrow> string" where
  "getCacheKey renterId month year = show_int renterId @ ''-'' @ show_int year @ ''-'' @ show_int month"

definition BillCache_get :: "int \<Rightarrow> int \<Rightarrow> int \<Rightarrow> int \<Rightarrow> BillCache \<Rightarrow> MonthData option \<times> BillCache" where
  "BillCache_get renterId month year now c =
     (let key = getCacheKey renterId month year in
      case cache c key of
        None \<Rightarrow> (None, c\<lparr>cacheMisses := cacheMisses c + 1\<rparr>)
      | Some entry \<Rightarrow>
          (let c1 = c\<lparr>cacheHits := cacheHits c + 1\<rparr>;
               c2 = (if now - timestamp entry > CACHE_TTL
                     then c1\<lparr>cache := (cache c1)(key \<mapsto> entry\<lparr>isStale := True\<rparr>)\<rparr>
                     else c1)
           in (Some (data entry), c2)))"

definition BillCache_isStale :: "int \<Rightarrow> int \<Rightarrow> int \<Rightarrow> int \<Rightarrow> BillCache \<Rightarrow> bool" where
  "BillCache_isStale renterId month year now c =
     (case cache c (getCacheKey renterId month year) of
        None \<Rightarrow> False
      | Some entry \<Rightarrow> now - timestamp entry > CACHE_TTL)"

definition BillCache_set :: "int \<Rightarrow> int \<Rightarrow> int \<Rightarrow> MonthData \<Rightarrow> int \<Rightarrow> BillCache \<Rightarrow> BillCache" where
  "BillCache_set renterId month year d now c =
     c\<lparr>cache := (cache c)(getCacheKey renterId month year \<mapsto>
                    \<lparr>data = d, timestamp = now, isStale = False\<rparr>)\<rparr>"

definition BillCache_invalidate :: "int \<Rightarrow> int \<Rightarrow> int \<Rightarrow> BillCache \<Rightarrow> BillCache" where
  "BillCache_invalidate renterId month year c =
     c\<lparr>cache := (cache c)(getCacheKey renterId month year := None)\<rparr>"

definition BillCache_clear :: "BillCache \<Rightarrow> BillCache" where
  "BillCache_clear c = c\<lparr>cache := Map.empty\<rparr>"

definition new_BillCache :: BillCache where
  "new_BillCache = \<lparr>cache = Map.empty, cacheHits = 0, cacheMisses = 0\<rparr>"

text \<open>The fixture of the cache test suite (src/tests/cache-behavior.test.ts).\<close>

definition createTestMonthData :: "int \<Rightarrow> MonthData" where
  "createTestMonthData now =
     \<lparr>rentAmount = 6000,
      electricityEnabled = True,
      electricityData = \<lparr>el_initialReading = 100, el_finalReading = 150, el_multiplier = 9,
                         el_readingDate = DateNow now\<rparr>,
      motorEnabled = True,
      motorData = \<lparr>mo_initialReading = 50, mo_finalReading = 70, mo_multiplier = 9,
                   mo_numberOfPeople = 2, mo_readingDate = DateNow now\<rparr>,
      waterEnabled = True,
      waterAmount = 200,
      maintenanceEnabled = True,
      maintenanceAmount = 300,
      additionalExpenses = [],
      payments = []\<rparr>"

section \<open>The store: tables of database-schema.sql\<close>

text \<open>
  A table is the list of its rows. \<open>BillData\<close> holds the columns of \<open>monthly_bills\<close> that
  \<open>save_bill_complete\<close> reads from its JSON argument (the columns \<open>month\<close> and \<open>year\<close> are
  called \<open>bill_month\<close> and \<open>bill_year\<close>); a row adds the generated \<open>id\<close>, the owner and
  the two timestamps. Of table \<open>renters\<close> only the columns that the modelled queries
  read are kept.
\<close>

record BillData =
  renter_id :: int
  bill_month :: int
  bill_year :: int
  rent_amount :: decimal
  electricity_enabled :: bool
  electricity_initial_reading :: int
  electricity_final_reading :: int
  electricity_multiplier :: decimal
  electricity_reading_date :: "string option"
  electricity_amount :: decimal
  motor_enabled :: bool
  motor_initial_reading :: int
  motor_final_reading :: int
  motor_multiplier :: decimal
  motor_number_of_people :: int
  motor_reading_date :: "string option"
  motor_amount :: decimal
  water_enabled :: bool
  water_amount :: decimal
  maintenance_enabled :: bool
  maintenance_amount :: decimal
  total_amount :: decimal
  total_payments :: decimal
  pending_amount :: decimal

record renters_row =
  r_id :: int
  r_user_id :: "uuid option"

record monthly_bills_row =
  mb_id :: uuid
  mb_user_id :: "uuid option"
  mb_data :: BillData
  mb_created_at :: int
  mb_updated_at :: int

record additional_expenses_row =
  ae_id :: uuid
  ae_monthly_bill_id :: uuid
  ae_description :: string
  ae_amount :: decimal
  ae_date :: string
  ae_created_at :: int

record bill_payments_row =
  bp_id :: uuid
  bp_monthly_bill_id :: uuid
  bp_amount :: decimal
  bp_payment_date :: string
  bp_payment_type :: payment_type
  bp_note :: "string option"
  bp_created_at :: int

text \<open>
  The store as a client reaches it. \<open>uuid_seq\<close> is the source of \<open>gen_random_uuid()\<close>: the
  next identifier the store will hand out. \<open>date_in\<close> is the server's conversion of a text
  to a \<open>DATE\<close> (the cast \<open>::DATE\<close>): it raises an error or yields the date in the text form
  in which the server renders it; which spellings it accepts depends on the server and its
  \<open>DateStyle\<close>, so it is a component of the store and nothing is assumed about it.
  \<open>response_ms\<close> is the time in milliseconds after which the store has answered an
  operation of the client, \<open>None\<close> when no answer ever comes.
\<close>

record database =
  renters :: "renters_row list"
  monthly_bills :: "monthly_bills_row list"
  additional_expenses :: "additional_expenses_row list"
  bill_payments :: "bill_payments_row list"
  uuid_seq :: nat
  date_in :: "string \<Rightarrow> js_error + string"
  response_ms :: "nat option"

definition gen_random_uuid :: "database \<Rightarrow> uuid \<times> database" where
  "gen_random_uuid d = (uuid_seq d, d\<lparr>uuid_seq := uuid_seq d + 1\<rparr>)"

text \<open>
  The promise of an operation of the client on the store: it settles with the operation's
  outcome when the store has answered.
\<close>

definition answered :: "database \<Rightarrow> js_error + 'a \<Rightarrow> 'a promise" where
  "answered d outcome = (case response_ms d of None \<Rightarrow> Pending | Some t \<Rightarrow> Settles t outcome)"

section \<open>Conversion to the column types of database-schema.sql\<close>

text \<open>
  What the store does with a value that \<open>save_bill_complete\<close> writes to a column. An
  \<open>INTEGER\<close> is a 32-bit integer: a value outside its range makes the cast fail (the
  numbers that the client sends for these columns are whole numbers here). A
  \<open>DECIMAL(p,2)\<close> is rounded to two decimal places, half away from zero, and must then be
  smaller in absolute value than \<open>10 ^ (p - 2)\<close>. A text that goes to a \<open>DATE\<close> column
  passes through the server's \<open>date_in\<close>; \<open>NULL\<close> stays \<open>NULL\<close>.
\<close>

definition int4_in :: "int \<Rightarrow> js_error + int" where
  "int4_in i =
     (if - 2147483648 \<le> i \<and> i \<le> 2147483647 then Inr i
      else Inl ''value is out of range for type integer'')"

definition numeric_round :: "decimal \<Rightarrow> decimal" where
  "numeric_round x =
     (if 0 \<le> x then of_int \<lfloor>x * 100 + 1 / 2\<rfloor> / 100
      else - (of_int \<lfloor>- x * 100 + 1 / 2\<rfloor> / 100))"

definition numeric_in :: "nat \<Rightarrow> decimal \<Rightarrow> js_error + decimal" where
  "numeric_in p x =
     (if \<bar>numeric_round x\<bar> < 10 ^ (p - 2) then Inr (numeric_round x)
      else Inl ''numeric field overflow'')"

definition date_opt_in :: "(string \<Rightarrow> js_error + string) \<Rightarrow> string option \<Rightarrow> js_error + string option" where
  "date_opt_in din s =
     (case s of
        None \<Rightarrow> Inr None
      | Some t \<Rightarrow> (case din t of Inl e \<Rightarrow> Inl e | Inr v \<Rightarrow> Inr (Some v)))"

text \<open>Evaluating one expression after another: the first error ends the statement.\<close>

definition and_then :: "js_error + 'a \<Rightarrow> ('a \<Rightarrow> js_error + 'b) \<Rightarrow> js_error + 'b" where
  "and_then r f = (case r of Inl e \<Rightarrow> Inl e | Inr v \<Rightarrow> f v)"

section \<open>The TypeScript interfaces of supabaseService.ts\<close>

record MonthlyBill =
  bill_id_opt :: "uuid option"
  bill_user_id :: "uuid option"
  bill_columns :: BillData
  bill_created_at :: "int option"
  bill_updated_at :: "int option"

record AdditionalExpense =
  exp_id :: "uuid option"
  exp_monthly_bill_id :: uuid
  exp_description :: string
  exp_amount :: decimal
  exp_date :: string
  exp_created_at :: "int option"

record BillPayment =
  pay_id :: "uuid option"
  pay_monthly_bill_id :: uuid
  pay_amount :: decimal
  pay_payment_date :: string
  pay_payment_type :: payment_type
  pay_note :: "string option"
  pay_created_at :: "int option"

record PreviousReadings =
  electricity_final :: int
  motor_final :: int

record BillWithDetails =
  bwd_bill :: "MonthlyBill option"
  bwd_expenses :: "AdditionalExpense list"
  bwd_payments :: "BillPayment list"
  bwd_previous_readings :: PreviousReadings

record SaveBillResult =
  bill_id :: uuid
  expense_ids :: "uuid list"
  payment_ids :: "uuid list"
  success :: bool

text \<open>A row as the JSON object the client receives (\<open>row_to_json\<close>, \<open>select('*')\<close>).\<close>

definition bill_to_json :: "monthly_bills_row \<Rightarrow> MonthlyBill" where
  "bill_to_json b =
     \<lparr>bill_id_opt = Some (mb_id b), bill_user_id = mb_user_id b, bill_columns = mb_data b,
      bill_created_at = Some (mb_created_at b), bill_updated_at = Some (mb_updated_at b)\<rparr>"

definition expense_to_json :: "additional_expenses_row \<Rightarrow> AdditionalExpense" where
  "expense_to_json e =
     \<lparr>exp_id = Some (ae_id e), exp_monthly_bill_id = ae_monthly_bill_id e,
      exp_description = ae_description e, exp_amount = ae_amount e, exp_date = ae_date e,
      exp_created_at = Some (ae_created_at e)\<rparr>"

definition payment_to_json :: "bill_payments_row \<Rightarrow> BillPayment" where
  "payment_to_json p =
     \<lparr>pay_id = Some (bp_id p), pay_monthly_bill_id = bp_monthly_bill_id p,
      pay_amount = bp_amount p, pay_payment_date = bp_payment_date p,
      pay_payment_type = bp_payment_type p, pay_note = bp_note p,
      pay_created_at = Some (bp_created_at p)\<rparr>"

section \<open>RPC function get_bill_with_details (optimized version)\<close>

text \<open>
  Of the versions of this function in the repository, this is the one that computes
  \<open>v_prev_month\<close> and \<open>v_prev_year\<close> first and joins the common table expressions with
  \<open>LEFT JOIN\<close>.
\<close>

text \<open>
  The condition \<open>renter_id = .. AND month = .. AND year = .. AND user_id = ..\<close> that both
  the function and the client queries use to select a bill row.
\<close>

definition bill_matches :: "int \<Rightarrow> int \<Rightarrow> int \<Rightarrow> uuid \<Rightarrow> monthly_bills_row \<Rightarrow> bool" where
  "bill_matches renterId m y user b \<longleftrightarrow>
     renter_id (mb_data b) = renterId \<and> bill_month (mb_data b) = m \<and>
     bill_year (mb_data b) = y \<and> mb_user_id b = Some user"

text \<open>The \<open>IF p_month = 1 THEN .. ELSE .. END IF\<close> that opens the function body.\<close>

definition v_prev_period :: "int \<Rightarrow> int \<Rightarrow> int \<times> int" where
  "v_prev_period p_month p_year =
     (if p_month = 1 then (12, p_year - 1) else (p_month - 1, p_year))"

definition zero_readings :: PreviousReadings where
  "zero_readings = \<lparr>electricity_final = 0, motor_final = 0\<rparr>"

text \<open>
  The common table expressions of the first statement become lists: \<open>bill_data\<close>,
  \<open>previous_readings\<close> (\<open>LIMIT 1\<close>), and the aggregated children of a bill.
  \<open>SELECT .. INTO v_result\<close> keeps the first row of its query and leaves \<open>NULL\<close> (\<open>None\<close>)
  when the query has no row. The meter columns are integers here, so \<open>COALESCE(.., 0)\<close> on
  them is the identity.

  The statement in the first \<open>IF v_result IS NULL\<close> block is a \<open>SELECT\<close> of its own that
  reads \<open>FROM previous_readings pr\<close>. The \<open>WITH\<close> clause that defines \<open>previous_readings\<close>
  belongs to the statement before it, and the schema has no table or view of that name, so
  this \<open>SELECT\<close> raises \<open>undefined_table\<close> (SQLSTATE 42P01) whenever it is executed, that is
  whenever the first statement has found no bill row. The block \<open>Final fallback\<close> after it
  is therefore never entered: \<open>v_result\<close> is not \<open>NULL\<close> when control gets there.
\<close>

definition get_bill_with_details ::
  "int \<Rightarrow> int \<Rightarrow> int \<Rightarrow> uuid \<Rightarrow> database \<Rightarrow> js_error + BillWithDetails" where
  "get_bill_with_details p_renter_id p_month p_year p_user_id d =
     (let (v_prev_month, v_prev_year) = v_prev_period p_month p_year;
          bill_data = filter (bill_matches p_renter_id p_month p_year p_user_id) (monthly_bills d);
          previous_readings =
            take 1 (map (\<lambda>b. \<lparr>electricity_final = electricity_final_reading (mb_data b),
                               motor_final = motor_final_reading (mb_data b)\<rparr>)
                     (filter (bill_matches p_renter_id v_prev_month v_prev_year p_user_id)
                        (monthly_bills d)));
          pr_readings = (case previous_readings of [] \<Rightarrow> zero_readings | pr # _ \<Rightarrow> pr);
          v_result =
            (case bill_data of
               [] \<Rightarrow> None
             | bd # _ \<Rightarrow>
                 Some \<lparr>bwd_bill = Some (bill_to_json bd),
                       bwd_expenses = map expense_to_json
                         (filter (\<lambda>ae. ae_monthly_bill_id ae = mb_id bd) (additional_expenses d)),
                       bwd_payments = map payment_to_json
                         (filter (\<lambda>bp. bp_monthly_bill_id bp = mb_id bd) (bill_payments d)),
                       bwd_previous_readings = pr_readings\<rparr>)
      in case v_result of
           None \<Rightarrow> Inl ''relation previous_readings does not exist''
         | Some r \<Rightarrow> Inr r)"

section \<open>SupabaseService: reading a bill\<close>

text \<open>
  What the \<open>supabase\<close> client talks to: the session's user (\<open>auth.getUser()\<close>), whether
  the RPC functions are deployed, and the store. A method that does not go through
  \<open>queryWithTimeout\<close> is given by what it returns once the store has answered.
\<close>

record supabase =
  auth_user :: "uuid option"
  rpc_available :: bool
  db :: database

text \<open>
  \<open>.single()\<close> yields data only for exactly one row; \<open>.maybeSingle()\<close> yields \<open>null\<close> for
  no row, the row for one, and an error for several.
\<close>

definition single :: "'a list \<Rightarrow> 'a option" where
  "single rows = (case rows of [r] \<Rightarrow> Some r | _ \<Rightarrow> None)"

definition maybeSingle :: "'a list \<Rightarrow> js_error + 'a option" where
  "maybeSingle rows =
     (case rows of
        [] \<Rightarrow> Inr None
      | [r] \<Rightarrow> Inr (Some r)
      | _ \<Rightarrow> Inl ''JSON object requested, multiple (or no) rows returned'')"

text \<open>
  The body of the \<open>try\<close> block of \<open>getMonthlyBill\<close>, and the method itself, whose \<open>catch\<close>
  turns every error into \<open>null\<close>.
\<close>

definition getMonthlyBill_try :: "supabase \<Rightarrow> int \<Rightarrow> int \<Rightarrow> int \<Rightarrow> js_error + MonthlyBill option" where
  "getMonthlyBill_try sb renterId month year =
     (case auth_user sb of
        None \<Rightarrow> Inl ''User not authenticated''
      | Some user \<Rightarrow>
          (case single (filter (\<lambda>r. r_id r = renterId \<and> r_user_id r = Some user) (renters (db sb))) of
             None \<Rightarrow> Inl ''Renter not found or access denied''
           | Some renter \<Rightarrow>
               (case maybeSingle (filter (bill_matches renterId month year user) (monthly_bills (db sb))) of
                  Inl error \<Rightarrow> Inr None
                | Inr row \<Rightarrow> Inr (map_option bill_to_json row))))"

definition getMonthlyBill :: "supabase \<Rightarrow> int \<Rightarrow> int \<Rightarrow> int \<Rightarrow> MonthlyBill option" where
  "getMonthlyBill sb renterId month year =
     (case getMonthlyBill_try sb renterId month year of
        Inl error \<Rightarrow> None
      | Inr bill \<Rightarrow> bill)"

text \<open>The period that \<open>getPreviousMonthBill\<close> computes before it calls \<open>getMonthlyBill\<close>.\<close>

definition prevMonthYear :: "int \<Rightarrow> int \<Rightarrow> int \<times> int" where
  "prevMonthYear month year =
     (let prevMonth = month - 1; prevYear = year
      in if prevMonth = 0 then (12, year - 1) else (prevMonth, prevYear))"

definition getPreviousMonthBill :: "supabase \<Rightarrow> int \<Rightarrow> int \<Rightarrow> int \<Rightarrow> MonthlyBill option" where
  "getPreviousMonthBill sb renterId month year =
     (let (prevMonth, prevYear) = prevMonthYear month year
      in getMonthlyBill sb renterId prevMonth prevYear)"

text \<open>
  Child rows are read through row level security: a row is visible when its bill belongs
  to the session's user. The \<open>order('created_at', descending)\<close> is a stable sort.
\<close>

definition bill_owned_by :: "database \<Rightarrow> uuid \<Rightarrow> uuid \<Rightarrow> bool" where
  "bill_owned_by d user bid \<longleftrightarrow> (\<exists>b \<in> set (monthly_bills d). mb_id b = bid \<and> mb_user_id b = Some user)"

definition getAdditionalExpenses :: "supabase \<Rightarrow> uuid option \<Rightarrow> AdditionalExpense list" where
  "getAdditionalExpenses sb monthlyBillId =
     (case (auth_user sb, monthlyBillId) of
        (Some user, Some bid) \<Rightarrow>
          map expense_to_json
            (rev (sort_key ae_created_at
               (rev (filter (\<lambda>e. ae_monthly_bill_id e = bid \<and> bill_owned_by (db sb) user bid)
                  (additional_expenses (db sb))))))
      | _ \<Rightarrow> [])"

definition getBillPayments :: "supabase \<Rightarrow> uuid option \<Rightarrow> BillPayment list" where
  "getBillPayments sb monthlyBillId =
     (case (auth_user sb, monthlyBillId) of
        (Some user, Some bid) \<Rightarrow>
          map payment_to_json
            (rev (sort_key bp_created_at
               (rev (filter (\<lambda>p. bp_monthly_bill_id p = bid \<and> bill_owned_by (db sb) user bid)
                  (bill_payments (db sb))))))
      | _ \<Rightarrow> [])"

text \<open>
  \<open>supabase.rpc('get_bill_with_details', ..)\<close>, as the pair \<open>{ data, error }\<close> in one sum: an
  error when the function is not deployed or when it raises, its JSON result otherwise.
\<close>

definition rpc_get_bill_with_details ::
  "supabase \<Rightarrow> int \<Rightarrow> int \<Rightarrow> int \<Rightarrow> uuid \<Rightarrow> js_error + BillWithDetails option" where
  "rpc_get_bill_with_details sb p_renter_id p_month p_year p_user_id =
     (if rpc_available sb
      then (case get_bill_with_details p_renter_id p_month p_year p_user_id (db sb) of
              Inl error \<Rightarrow> Inl error
            | Inr json \<Rightarrow> Inr (Some json))
      else Inl ''Could not find the function get_bill_with_details in the schema cache'')"

definition readings_of :: "MonthlyBill option \<Rightarrow> PreviousReadings" where
  "readings_of previousBill =
     \<lparr>electricity_final =
        (case previousBill of None \<Rightarrow> 0
         | Some b \<Rightarrow> or_default (electricity_final_reading (bill_columns b)) 0),
      motor_final =
        (case previousBill of None \<Rightarrow> 0
         | Some b \<Rightarrow> or_default (motor_final_reading (bill_columns b)) 0)\<rparr>"

text \<open>The \<open>catch (rpcError)\<close> branch: the decomposed reads.\<close>

definition getBillWithDetails_fallback :: "supabase \<Rightarrow> int \<Rightarrow> int \<Rightarrow> int \<Rightarrow> BillWithDetails" where
  "getBillWithDetails_fallback sb renterId month year =
     (let bill = getMonthlyBill sb renterId month year;
          previousBill = getPreviousMonthBill sb renterId month year
      in case bill of
           None \<Rightarrow>
             \<lparr>bwd_bill = None, bwd_expenses = [], bwd_payments = [],
              bwd_previous_readings = readings_of previousBill\<rparr>
         | Some b \<Rightarrow>
             \<lparr>bwd_bill = Some b,
              bwd_expenses = getAdditionalExpenses sb (bill_id_opt b),
              bwd_payments = getBillPayments sb (bill_id_opt b),
              bwd_previous_readings = readings_of previousBill\<rparr>)"

text \<open>
  The body of the function handed to \<open>queryWithTimeout\<close>: what it returns or throws once
  the store has answered its requests.
\<close>

definition getBillWithDetails_body :: "supabase \<Rightarrow> int \<Rightarrow> int \<Rightarrow> int \<Rightarrow> js_error + BillWithDetails" where
  "getBillWithDetails_body sb renterId month year =
     (case auth_user sb of
        None \<Rightarrow> Inl ''User not authenticated''
      | Some user \<Rightarrow>
          (case rpc_get_bill_with_details sb renterId month year user of
             Inl rpcError \<Rightarrow> Inr (getBillWithDetails_fallback sb renterId month year)
           | Inr None \<Rightarrow>
               Inr \<lparr>bwd_bill = None, bwd_expenses = [], bwd_payments = [],
                    bwd_previous_readings = zero_readings\<rparr>
           | Inr (Some d) \<Rightarrow> Inr d))"

text \<open>
  The function handed to \<open>queryWithTimeout\<close>, called: it reads only, and its promise
  settles when the store has answered.
\<close>

definition getBillWithDetails_query ::
  "int \<Rightarrow> int \<Rightarrow> int \<Rightarrow> supabase \<Rightarrow> BillWithDetails promise \<times> supabase" where
  "getBillWithDetails_query renterId month year sb =
     (answered (db sb) (getBillWithDetails_body sb renterId month year), sb)"

text \<open>
  \<open>SupabaseService.getBillWithDetails\<close>: the query under \<open>queryWithTimeout(.., 5000)\<close>
  and \<open>RetryableQuery.execute\<close>, and the \<open>catch\<close> that rethrows.
\<close>

definition getBillWithDetails :: "supabase \<Rightarrow> int \<Rightarrow> int \<Rightarrow> int \<Rightarrow> js_error + BillWithDetails" where
  "getBillWithDetails sb renterId month year =
     (case fst (execute (with_timeout (getBillWithDetails_query renterId month year) 5000)
                  ''getBillWithDetails'' sb) of
        Inl error \<Rightarrow> Inl (''Failed to fetch bill details: '' @ error)
      | Inr r \<Rightarrow> Inr r)"

section \<open>Schema constraints and specification vocabulary\<close>

text \<open>
  The key constraints of database-schema.sql: the primary keys of the four tables and
  \<open>UNIQUE(renter_id, month, year)\<close> on \<open>monthly_bills\<close>.
\<close>

definition bill_key :: "monthly_bills_row \<Rightarrow> int \<times> int \<times> int" where
  "bill_key b = (renter_id (mb_data b), bill_month (mb_data b), bill_year (mb_data b))"

definition schema_constraints :: "database \<Rightarrow> bool" where
  "schema_constraints d \<longleftrightarrow>
     distinct (map r_id (renters d)) \<and>
     distinct (map mb_id (monthly_bills d)) \<and>
     distinct (map bill_key (monthly_bills d)) \<and>
     distinct (map ae_id (additional_expenses d)) \<and>
     distinct (map bp_id (bill_payments d))"

text \<open>
  The specification's preceding period of a period (month 1 rolls over to month 12 of
  the year before), the bill row of that period that the requesting user owns, and the
  carry-forward readings it gives (zero without such a row).
\<close>

definition preceding_period :: "int \<Rightarrow> int \<Rightarrow> int \<times> int" where
  "preceding_period month year = (if month = 1 then (12, year - 1) else (month - 1, year))"

definition preceding_bill :: "database \<Rightarrow> uuid \<Rightarrow> int \<Rightarrow> int \<Rightarrow> int \<Rightarrow> monthly_bills_row option" where
  "preceding_bill d user renterId month year =
     find (bill_matches renterId (fst (preceding_period month year))
             (snd (preceding_period month year)) user) (monthly_bills d)"

definition carry_forward :: "monthly_bills_row option \<Rightarrow> PreviousReadings" where
  "carry_forward prev =
     (case prev of
        None \<Rightarrow> zero_readings
      | Some b \<Rightarrow> \<lparr>electricity_final = electricity_final_reading (mb_data b),
                    motor_final = motor_final_reading (mb_data b)\<rparr>)"

definition renter_accessible :: "database \<Rightarrow> uuid \<Rightarrow> int \<Rightarrow> bool" where
  "renter_accessible d user renterId \<longleftrightarrow>
     (\<exists>r \<in> set (renters d). r_id r = renterId \<and> r_user_id r = Some user)"

section \<open>Test fixtures (src/tests/performance-benchmark.test.ts)\<close>

text \<open>
  The server of the fixtures converts a text to a date when it has the form \<open>YYYY-MM-DD\<close>,
  which is what the tests send (\<open>toISOString().split('T')[0]\<close>) and what the server renders,
  and names a day of the calendar.
\<close>

definition is_digit :: "char \<Rightarrow> bool" where
  "is_digit c \<longleftrightarrow> c \<in> set ''0123456789''"

definition digits_value :: "char list \<Rightarrow> nat" where
  "digits_value cs = foldl (\<lambda>a c. 10 * a + (of_char c - 48)) 0 cs"

definition days_in_month :: "nat \<Rightarrow> nat \<Rightarrow> nat" where
  "days_in_month y m =
     (if m = 2 then (if y mod 4 = 0 \<and> (y mod 100 \<noteq> 0 \<or> y mod 400 = 0) then 29 else 28)
      else if m \<in> {4, 6, 9, 11} then 30 else 31)"

definition iso_date_in :: "string \<Rightarrow> js_error + string" where
  "iso_date_in s =
     (case s of
        [y1, y2, y3, y4, s1, m1, m2, s2, d1, d2] \<Rightarrow>
          if s1 = CHR ''-'' \<and> s2 = CHR ''-'' \<and> list_all is_digit [y1, y2, y3, y4, m1, m2, d1, d2]
          then (let y = digits_value [y1, y2, y3, y4];
                    m = digits_value [m1, m2];
                    day = digits_value [d1, d2]
                in if 1 \<le> y \<and> 1 \<le> m \<and> m \<le> 12 \<and> 1 \<le> day \<and> day \<le> days_in_month y m
                   then Inr s
                   else Inl ''date/time field value out of range'')
          else Inl ''invalid input syntax for type date''
      | _ \<Rightarrow> Inl ''invalid input syntax for type date'')"

text \<open>
  The December bill of \<open>testYearBoundary\<close>, and the store of a user (identifier 1) with one
  renter after that bill has been saved; it answers after 120 ms.
\<close>

definition decBillData :: "int \<Rightarrow> int \<Rightarrow> BillData" where
  "decBillData testRenterId currentYear =
     \<lparr>renter_id = testRenterId,
      bill_month = 12,
      bill_year = currentYear - 1,
      rent_amount = 6000,
      electricity_enabled = True,
      electricity_initial_reading = 500,
      electricity_final_reading = 600,
      electricity_multiplier = 9,
      electricity_reading_date = None,
      electricity_amount = 900,
      motor_enabled = True,
      motor_initial_reading = 200,
      motor_final_reading = 250,
      motor_multiplier = 9,
      motor_number_of_people = 2,
      motor_reading_date = None,
      motor_amount = 450,
      water_enabled = False,
      water_amount = 0,
      maintenance_enabled = False,
      maintenance_amount = 0,
      total_amount = 7350,
      total_payments = 0,
      pending_amount = 7350\<rparr>"

definition year_boundary_store :: "int \<Rightarrow> int \<Rightarrow> database" where
  "year_boundary_store testRenterId currentYear =
     \<lparr>renters = [\<lparr>r_id = testRenterId, r_user_id = Some 1\<rparr>],
      monthly_bills =
        [\<lparr>mb_id = 0, mb_user_id = Some 1, mb_data = decBillData testRenterId currentYear,
          mb_created_at = 0, mb_updated_at = 0\<rparr>],
      additional_expenses = [],
      bill_payments = [],
      uuid_seq = 1,
      date_in = iso_date_in,
      response_ms = Some 120\<rparr>"

text \<open>The same store after the user has saved a bill for January as well.\<close>

definition january_store :: "int \<Rightarrow> int \<Rightarrow> database" where
  "january_store testRenterId currentYear =
     (year_boundary_store testRenterId currentYear)
       \<lparr>monthly_bills := monthly_bills (year_boundary_store testRenterId currentYear) @
          [\<lparr>mb_id = 1, mb_user_id = Some 1,
            mb_data = (decBillData testRenterId currentYear)
              \<lparr>bill_month := 1, bill_year := currentYear,
               electricity_initial_reading := 600, electricity_final_reading := 680,
               motor_initial_reading := 250, motor_final_reading := 290\<rparr>,
            mb_created_at = 3, mb_updated_at = 3\<rparr>],
        uuid_seq := 2\<rparr>"

text \<open>
  The example expense and payment of the design document, with a chosen identity, and a
  store in which the December bill has two expense rows (identities 1 and 2).
\<close>

definition plumbing_repair :: "uuid option \<Rightarrow> AdditionalExpense" where
  "plumbing_repair i =
     \<lparr>exp_id = i, exp_monthly_bill_id = 0, exp_description = ''Plumbing repair'',
      exp_amount = 500, exp_date = ''2025-11-10'', exp_created_at = None\<rparr>"

definition partial_payment :: "uuid option \<Rightarrow> BillPayment" where
  "partial_payment i =
     \<lparr>pay_id = i, pay_monthly_bill_id = 0, pay_amount = 5000,
      pay_payment_date = ''2025-11-05'', pay_payment_type = online,
      pay_note = Some ''Partial payment'', pay_created_at = None\<rparr>"

definition two_expenses_store :: database where
  "two_expenses_store =
     (year_boundary_store 7 2026)
       \<lparr>additional_expenses :=
          [\<lparr>ae_id = 1, ae_monthly_bill_id = 0, ae_description = ''Repair'',
            ae_amount = 400, ae_date = ''2025-12-01'', ae_created_at = 0\<rparr>,
           \<lparr>ae_id = 2, ae_monthly_bill_id = 0, ae_description = ''Paint'',
            ae_amount = 100, ae_date = ''2025-12-02'', ae_created_at = 0\<rparr>],
        uuid_seq := 3\<rparr>"

section \<open>BillCache: preloading the adjacent months\<close>

text \<open>
  \<open>BillCache\<close> reaches the store through the static methods of the imported
  \<open>SupabaseService\<close>. They are a parameter here, each with the possibility to throw, so
  that the \<open>try\<close>/\<open>catch\<close> of \<open>loadIfNotCached\<close> is modelled for any behaviour of the
  service; \<open>SupabaseService\<close> below is the real one, whose four methods never throw.
\<close>

record SupabaseService_api =
  api_getMonthlyBill :: "int \<Rightarrow> int \<Rightarrow> int \<Rightarrow> js_error + MonthlyBill option"
  api_getAdditionalExpenses :: "uuid option \<Rightarrow> js_error + AdditionalExpense list"
  api_getBillPayments :: "uuid option \<Rightarrow> js_error + BillPayment list"
  api_getPreviousMonthBill :: "int \<Rightarrow> int \<Rightarrow> int \<Rightarrow> js_error + MonthlyBill option"

definition SupabaseService :: "supabase \<Rightarrow> SupabaseService_api" where
  "SupabaseService sb =
     \<lparr>api_getMonthlyBill = (\<lambda>renterId month year. Inr (getMonthlyBill sb renterId month year)),
      api_getAdditionalExpenses = (\<lambda>monthlyBillId. Inr (getAdditionalExpenses sb monthlyBillId)),
      api_getBillPayments = (\<lambda>monthlyBillId. Inr (getBillPayments sb monthlyBillId)),
      api_getPreviousMonthBill =
        (\<lambda>renterId month year. Inr (getPreviousMonthBill sb renterId month year))\<rparr>"

text \<open>\<open>s ? new Date(s) : new Date()\<close> on an optional string.\<close>

definition reading_date :: "string option \<Rightarrow> int \<Rightarrow> js_date" where
  "reading_date s now =
     (case s of
        None \<Rightarrow> DateNow now
      | Some str \<Rightarrow> if str = [] then DateNow now else DateParse str)"

text \<open>The two object literals assigned to \<open>billData\<close>.\<close>

definition billData_existing ::
  "MonthlyBill \<Rightarrow> AdditionalExpense list \<Rightarrow> BillPayment list \<Rightarrow> int \<Rightarrow> MonthData" where
  "billData_existing existingBill expenses billPayments now =
     (let b = bill_columns existingBill in
      \<lparr>rentAmount = rent_amount b,
       electricityEnabled = electricity_enabled b,
       electricityData =
         \<lparr>el_initialReading = or_default (electricity_initial_reading b) 0,
          el_finalReading = or_default (electricity_final_reading b) 0,
          el_multiplier = or_default (electricity_multiplier b) 9,
          el_readingDate = reading_date (electricity_reading_date b) now\<rparr>,
       motorEnabled = motor_enabled b,
       motorData =
         \<lparr>mo_initialReading = or_default (motor_initial_reading b) 0,
          mo_finalReading = or_default (motor_final_reading b) 0,
          mo_multiplier = or_default (motor_multiplier b) 9,
          mo_numberOfPeople = or_default (motor_number_of_people b) 2,
          mo_readingDate = reading_date (motor_reading_date b) now\<rparr>,
       waterEnabled = water_enabled b,
       waterAmount = water_amount b,
       maintenanceEnabled = maintenance_enabled b,
       maintenanceAmount = maintenance_amount b,
       additionalExpenses =
         map (\<lambda>exp. \<lparr>me_id = exp_id exp, me_description = exp_description exp,
                      me_amount = exp_amount exp, me_date = DateParse (exp_date exp)\<rparr>) expenses,
       payments =
         map (\<lambda>payment. \<lparr>mp_id = pay_id payment, mp_amount = pay_amount payment,
                          mp_date = DateParse (pay_payment_date payment),
                          mp_type = pay_payment_type payment, mp_note = pay_note payment\<rparr>)
           billPayments\<rparr>)"

definition billData_fresh :: "decimal \<Rightarrow> MonthlyBill option \<Rightarrow> int \<Rightarrow> MonthData" where
  "billData_fresh monthlyRent previousBill now =
     (let prevElectricity =
            (case previousBill of None \<Rightarrow> 0
             | Some b \<Rightarrow> or_default (electricity_final_reading (bill_columns b)) 0);
          prevMotor =
            (case previousBill of None \<Rightarrow> 0
             | Some b \<Rightarrow> or_default (motor_final_reading (bill_columns b)) 0)
      in
      \<lparr>rentAmount = monthlyRent,
       electricityEnabled = False,
       electricityData =
         \<lparr>el_initialReading = prevElectricity, el_finalReading = prevElectricity,
          el_multiplier = 9, el_readingDate = DateNow now\<rparr>,
       motorEnabled = False,
       motorData =
         \<lparr>mo_initialReading = prevMotor, mo_finalReading = prevMotor,
          mo_multiplier = 9, mo_numberOfPeople = 2, mo_readingDate = DateNow now\<rparr>,
       waterEnabled = False,
       waterAmount = 0,
       maintenanceEnabled = False,
       maintenanceAmount = 0,
       additionalExpenses = [],
       payments = []\<rparr>)"

text \<open>The \<open>try\<close> block of \<open>loadIfNotCached\<close> up to the value of \<open>billData\<close>.\<close>

definition loadIfNotCached_try ::
  "SupabaseService_api \<Rightarrow> int \<Rightarrow> int \<Rightarrow> int \<Rightarrow> decimal \<Rightarrow> int \<Rightarrow> js_error + MonthData" where
  "loadIfNotCached_try api renterId month year monthlyRent now =
     (case api_getMonthlyBill api renterId month year of
        Inl error \<Rightarrow> Inl error
      | Inr (Some existingBill) \<Rightarrow>
          (case api_getAdditionalExpenses api (bill_id_opt existingBill) of
             Inl error \<Rightarrow> Inl error
           | Inr expenses \<Rightarrow>
               (case api_getBillPayments api (bill_id_opt existingBill) of
                  Inl error \<Rightarrow> Inl error
                | Inr billPayments \<Rightarrow>
                    Inr (billData_existing existingBill expenses billPayments now)))
      | Inr None \<Rightarrow>
          (case api_getPreviousMonthBill api renterId month year of
             Inl error \<Rightarrow> Inl error
           | Inr previousBill \<Rightarrow> Inr (billData_fresh monthlyRent previousBill now)))"

text \<open>
  \<open>loadIfNotCached\<close>: nothing is loaded when \<open>get\<close> finds the month; a failed load is
  logged and leaves the cache as it is. The returned promise never rejects.
\<close>

definition loadIfNotCached ::
  "SupabaseService_api \<Rightarrow> int \<Rightarrow> int \<Rightarrow> int \<Rightarrow> decimal \<Rightarrow> int \<Rightarrow> BillCache \<Rightarrow> BillCache" where
  "loadIfNotCached api renterId month year monthlyRent now c =
     (case BillCache_get renterId month year now c of
        (Some cached, c1) \<Rightarrow> c1
      | (None, c1) \<Rightarrow>
          (case loadIfNotCached_try api renterId month year monthlyRent now of
             Inl error \<Rightarrow> c1
           | Inr billData \<Rightarrow> BillCache_set renterId month year billData now c1))"

text \<open>The two periods that \<open>preload\<close> computes: (previous, next).\<close>

definition preload_targets :: "int \<Rightarrow> int \<Rightarrow> (int \<times> int) \<times> (int \<times> int)" where
  "preload_targets month year =
     (let prevMonth = (if month = 1 then 12 else month - 1);
          prevYear = (if month = 1 then year - 1 else year);
          nextMonth = (if month = 12 then 1 else month + 1);
          nextYear = (if month = 12 then year + 1 else year)
      in ((prevMonth, prevYear), (nextMonth, nextYear)))"

text \<open>
  \<open>preload\<close> starts both loads and does not wait for them; the state below is the cache
  once both have finished, with the load of the previous month taken first. Since neither
  load can reject, the \<open>catch\<close> attached to \<open>Promise.all\<close> has nothing to handle.
\<close>

definition BillCache_preload ::
  "SupabaseService_api \<Rightarrow> int \<Rightarrow> int \<Rightarrow> int \<Rightarrow> decimal \<Rightarrow> int \<Rightarrow> BillCache \<Rightarrow> BillCache" where
  "BillCache_preload api renterId month year monthlyRent now c =
     (case preload_targets month year of
        ((prevMonth, prevYear), (nextMonth, nextYear)) \<Rightarrow>
          loadIfNotCached api renterId nextMonth nextYear monthlyRent now
            (loadIfNotCached api renterId prevMonth prevYear monthlyRent now c))"

section \<open>Vocabulary for the properties of the cache\<close>

text \<open>Reading a decimal numeral back, the inverse of \<open>show_nat\<close>.\<close>

definition digit_val :: "char \<Rightarrow> nat" where
  "digit_val ch = length (takeWhile (\<lambda>x. x \<noteq> ch) ''0123456789'')"

definition read_nat :: "string \<Rightarrow> nat" where
  "read_nat s = foldl (\<lambda>a ch. 10 * a + digit_val ch) 0 s"

text \<open>
  What a call of \<open>loadIfNotCached\<close> leaves at its own key, given what was there before:
  an entry that was there keeps its data and timestamp (\<open>get\<close> may flag it stale), and an
  absent entry is filled by the load unless the load fails.
\<close>

definition loaded_entry ::
  "SupabaseService_api \<Rightarrow> int \<Rightarrow> int \<Rightarrow> int \<Rightarrow> decimal \<Rightarrow> int \<Rightarrow> CacheEntry option \<Rightarrow> CacheEntry option" where
  "loaded_entry api renterId month year monthlyRent now before =
     (case before of
        Some e \<Rightarrow> Some (if now - timestamp e > CACHE_TTL then e\<lparr>isStale := True\<rparr> else e)
      | None \<Rightarrow>
          (case loadIfNotCached_try api renterId month year monthlyRent now of
             Inl error \<Rightarrow> None
           | Inr d \<Rightarrow> Some \<lparr>data = d, timestamp = now, isStale = False\<rparr>))"

section \<open>RPC function save_bill_complete\<close>

text \<open>
  The function runs in one transaction: an exception (\<open>Inl\<close>) leaves the store as it was.
  \<open>now\<close> is the transaction's \<open>NOW()\<close>.

  The row that the \<open>INSERT\<close> proposes: the expressions of its \<open>VALUES\<close> list in the order of
  the columns, each in the type of its column. The three \<open>BOOLEAN\<close>s convert as they are.
\<close>

definition cast_bill_data :: "(string \<Rightarrow> js_error + string) \<Rightarrow> BillData \<Rightarrow> js_error + BillData" where
  "cast_bill_data din p =
     and_then (int4_in (renter_id p)) (\<lambda>v_renter_id.
     and_then (int4_in (bill_month p)) (\<lambda>v_month.
     and_then (int4_in (bill_year p)) (\<lambda>v_year.
     and_then (numeric_in 10 (rent_amount p)) (\<lambda>v_rent_amount.
     and_then (int4_in (electricity_initial_reading p)) (\<lambda>v_electricity_initial_reading.
     and_then (int4_in (electricity_final_reading p)) (\<lambda>v_electricity_final_reading.
     and_then (numeric_in 5 (electricity_multiplier p)) (\<lambda>v_electricity_multiplier.
     and_then (date_opt_in din (electricity_reading_date p)) (\<lambda>v_electricity_reading_date.
     and_then (numeric_in 10 (electricity_amount p)) (\<lambda>v_electricity_amount.
     and_then (int4_in (motor_initial_reading p)) (\<lambda>v_motor_initial_reading.
     and_then (int4_in (motor_final_reading p)) (\<lambda>v_motor_final_reading.
     and_then (numeric_in 5 (motor_multiplier p)) (\<lambda>v_motor_multiplier.
     and_then (int4_in (motor_number_of_people p)) (\<lambda>v_motor_number_of_people.
     and_then (date_opt_in din (motor_reading_date p)) (\<lambda>v_motor_reading_date.
     and_then (numeric_in 10 (motor_amount p)) (\<lambda>v_motor_amount.
     and_then (numeric_in 10 (water_amount p)) (\<lambda>v_water_amount.
     and_then (numeric_in 10 (maintenance_amount p)) (\<lambda>v_maintenance_amount.
     and_then (numeric_in 10 (total_amount p)) (\<lambda>v_total_amount.
     and_then (numeric_in 10 (total_payments p)) (\<lambda>v_total_payments.
     and_then (numeric_in 10 (pending_amount p)) (\<lambda>v_pending_amount.
     Inr \<lparr>renter_id = v_renter_id,
          bill_month = v_month,
          bill_year = v_year,
          rent_amount = v_rent_amount,
          electricity_enabled = electricity_enabled p,
          electricity_initial_reading = v_electricity_initial_reading,
          electricity_final_reading = v_electricity_final_reading,
          electricity_multiplier = v_electricity_multiplier,
          electricity_reading_date = v_electricity_reading_date,
          electricity_amount = v_electricity_amount,
          motor_enabled = motor_enabled p,
          motor_initial_reading = v_motor_initial_reading,
          motor_final_reading = v_motor_final_reading,
          motor_multiplier = v_motor_multiplier,
          motor_number_of_people = v_motor_number_of_people,
          motor_reading_date = v_motor_reading_date,
          motor_amount = v_motor_amount,
          water_enabled = water_enabled p,
          water_amount = v_water_amount,
          maintenance_enabled = maintenance_enabled p,
          maintenance_amount = v_maintenance_amount,
          total_amount = v_total_amount,
          total_payments = v_total_payments,
          pending_amount = v_pending_amount\<rparr>))))))))))))))))))))"

text \<open>
  \<open>INSERT .. ON CONFLICT (renter_id, month, year) DO UPDATE .. RETURNING id\<close>. The update
  assigns from the proposed row (\<open>EXCLUDED\<close>) every column of \<open>BillData\<close> other than the
  three of the conflict target, which are equal anyway, and \<open>updated_at\<close>. The insert draws
  the \<open>id\<close> from \<open>gen_random_uuid()\<close> and is subject to the primary key and to the foreign
  key on \<open>renters\<close>; the foreign key on \<open>auth.users\<close> holds for the user of a session.
\<close>

definition upsert_monthly_bill :: "BillData \<Rightarrow> uuid \<Rightarrow> int \<Rightarrow> database \<Rightarrow> js_error + uuid \<times> database" where
  "upsert_monthly_bill p_bill_data p_user_id now d =
     (case cast_bill_data (date_in d) p_bill_data of
        Inl e \<Rightarrow> Inl e
      | Inr excluded \<Rightarrow>
          (let key = (renter_id excluded, bill_month excluded, bill_year excluded) in
           case find (\<lambda>b. bill_key b = key) (monthly_bills d) of
             Some existing \<Rightarrow>
               Inr (mb_id existing,
                    d\<lparr>monthly_bills :=
                         map (\<lambda>b. if bill_key b = key
                                   then b\<lparr>mb_data := excluded, mb_updated_at := now\<rparr>
                                   else b)
                           (monthly_bills d)\<rparr>)
           | None \<Rightarrow>
               if renter_id excluded \<notin> r_id ` set (renters d)
               then Inl ''insert or update on table monthly_bills violates foreign key constraint''
               else
                 (case gen_random_uuid d of
                    (new_id, d1) \<Rightarrow>
                      if new_id \<in> mb_id ` set (monthly_bills d1)
                      then Inl ''duplicate key value violates unique constraint monthly_bills_pkey''
                      else Inr (new_id,
                                d1\<lparr>monthly_bills := monthly_bills d1 @
                                     [\<lparr>mb_id = new_id, mb_user_id = Some p_user_id,
                                       mb_data = excluded,
                                       mb_created_at = now, mb_updated_at = now\<rparr>]\<rparr>))))"

text \<open>
  \<open>SELECT (value->>'id')::UUID FROM json_array_elements(..) WHERE value->>'id' IS NOT NULL\<close>:
  the identities that the incoming items carry.
\<close>

definition incoming_expense_ids :: "AdditionalExpense list \<Rightarrow> uuid list" where
  "incoming_expense_ids p_expenses = List.map_filter exp_id p_expenses"

definition incoming_payment_ids :: "BillPayment list \<Rightarrow> uuid list" where
  "incoming_payment_ids p_payments = List.map_filter pay_id p_payments"

text \<open>The two \<open>DELETE .. WHERE monthly_bill_id = v_bill_id AND id NOT IN (..)\<close>.\<close>

definition delete_expenses_not_in :: "uuid \<Rightarrow> AdditionalExpense list \<Rightarrow> database \<Rightarrow> database" where
  "delete_expenses_not_in v_bill_id p_expenses d =
     d\<lparr>additional_expenses :=
          filter (\<lambda>ae. \<not> (ae_monthly_bill_id ae = v_bill_id \<and>
                           ae_id ae \<notin> set (incoming_expense_ids p_expenses)))
            (additional_expenses d)\<rparr>"

definition delete_payments_not_in :: "uuid \<Rightarrow> BillPayment list \<Rightarrow> database \<Rightarrow> database" where
  "delete_payments_not_in v_bill_id p_payments d =
     d\<lparr>bill_payments :=
          filter (\<lambda>bp. \<not> (bp_monthly_bill_id bp = v_bill_id \<and>
                           bp_id bp \<notin> set (incoming_payment_ids p_payments)))
            (bill_payments d)\<rparr>"

text \<open>
  The values that an \<open>INSERT\<close> or an \<open>UPDATE\<close> of a loop writes for an incoming item: the
  expressions in the order of the columns, each in the type of its column
  (\<open>amount DECIMAL(10,2)\<close>, \<open>date DATE\<close>, \<open>payment_date DATE\<close>). The \<open>CHECK\<close> on
  \<open>payment_type\<close> holds for every value of the type.
\<close>

definition cast_expense ::
  "(string \<Rightarrow> js_error + string) \<Rightarrow> AdditionalExpense \<Rightarrow> js_error + string \<times> decimal \<times> string" where
  "cast_expense din v_expense =
     and_then (numeric_in 10 (exp_amount v_expense)) (\<lambda>amount.
     and_then (din (exp_date v_expense)) (\<lambda>date.
     Inr (exp_description v_expense, amount, date)))"

definition cast_payment ::
  "(string \<Rightarrow> js_error + string) \<Rightarrow> BillPayment
     \<Rightarrow> js_error + decimal \<times> string \<times> payment_type \<times> string option" where
  "cast_payment din v_payment =
     and_then (numeric_in 10 (pay_amount v_payment)) (\<lambda>amount.
     and_then (din (pay_payment_date v_payment)) (\<lambda>payment_date.
     Inr (amount, payment_date, pay_payment_type v_payment, pay_note v_payment)))"

text \<open>The \<open>UPDATE .. WHERE id = .. AND monthly_bill_id = v_bill_id\<close> of each loop, on one row.\<close>

definition update_expense_row ::
  "uuid \<Rightarrow> uuid \<Rightarrow> string \<times> decimal \<times> string \<Rightarrow> additional_expenses_row \<Rightarrow> additional_expenses_row" where
  "update_expense_row v_bill_id eid content ae =
     (case content of
        (description, amount, date) \<Rightarrow>
          if ae_id ae = eid \<and> ae_monthly_bill_id ae = v_bill_id
          then ae\<lparr>ae_description := description, ae_amount := amount, ae_date := date\<rparr>
          else ae)"

definition update_payment_row ::
  "uuid \<Rightarrow> uuid \<Rightarrow> decimal \<times> string \<times> payment_type \<times> string option \<Rightarrow> bill_payments_row
     \<Rightarrow> bill_payments_row" where
  "update_payment_row v_bill_id pid content bp =
     (case content of
        (amount, payment_date, payment_type, note) \<Rightarrow>
          if bp_id bp = pid \<and> bp_monthly_bill_id bp = v_bill_id
          then bp\<lparr>bp_amount := amount, bp_payment_date := payment_date,
                   bp_payment_type := payment_type, bp_note := note\<rparr>
          else bp)"

text \<open>
  The \<open>UPDATE\<close> statement on its table. The \<open>SET\<close> expressions are evaluated for the rows
  that the \<open>WHERE\<close> clause selects: when it selects none, nothing is converted and nothing
  fails.
\<close>

definition update_expense :: "uuid \<Rightarrow> uuid \<Rightarrow> AdditionalExpense \<Rightarrow> database \<Rightarrow> js_error + database" where
  "update_expense v_bill_id eid v_expense d =
     (if \<exists>ae \<in> set (additional_expenses d). ae_id ae = eid \<and> ae_monthly_bill_id ae = v_bill_id
      then (case cast_expense (date_in d) v_expense of
              Inl e \<Rightarrow> Inl e
            | Inr content \<Rightarrow>
                Inr (d\<lparr>additional_expenses :=
                         map (update_expense_row v_bill_id eid content) (additional_expenses d)\<rparr>))
      else Inr d)"

definition update_payment :: "uuid \<Rightarrow> uuid \<Rightarrow> BillPayment \<Rightarrow> database \<Rightarrow> js_error + database" where
  "update_payment v_bill_id pid v_payment d =
     (if \<exists>bp \<in> set (bill_payments d). bp_id bp = pid \<and> bp_monthly_bill_id bp = v_bill_id
      then (case cast_payment (date_in d) v_payment of
              Inl e \<Rightarrow> Inl e
            | Inr content \<Rightarrow>
                Inr (d\<lparr>bill_payments :=
                         map (update_payment_row v_bill_id pid content) (bill_payments d)\<rparr>))
      else Inr d)"

text \<open>
  The two \<open>FOR .. IN SELECT * FROM json_array_elements(..) LOOP\<close>s. The loop state is the
  array of identities collected so far and the store. An item without identity is
  inserted under a generated identity (primary key checked; the referenced bill row
  exists, it has just been upserted); an item with identity updates the row of that
  identity if it belongs to the bill, and its identity is appended in either case.
\<close>

fun process_expenses ::
  "uuid \<Rightarrow> int \<Rightarrow> AdditionalExpense list \<Rightarrow> uuid list \<times> database \<Rightarrow> js_error + uuid list \<times> database" where
  "process_expenses v_bill_id now [] (v_expense_ids, d) = Inr (v_expense_ids, d)"
| "process_expenses v_bill_id now (v_expense # rest) (v_expense_ids, d) =
     (case exp_id v_expense of
        None \<Rightarrow>
          (case cast_expense (date_in d) v_expense of
             Inl e \<Rightarrow> Inl e
           | Inr (description, amount, date) \<Rightarrow>
               (case gen_random_uuid d of
                  (v_new_expense_id, d1) \<Rightarrow>
                    if v_new_expense_id \<in> ae_id ` set (additional_expenses d1)
                    then Inl ''duplicate key value violates unique constraint additional_expenses_pkey''
                    else process_expenses v_bill_id now rest
                           (v_expense_ids @ [v_new_expense_id],
                            d1\<lparr>additional_expenses := additional_expenses d1 @
                                 [\<lparr>ae_id = v_new_expense_id, ae_monthly_bill_id = v_bill_id,
                                   ae_description = description,
                                   ae_amount = amount,
                                   ae_date = date,
                                   ae_created_at = now\<rparr>]\<rparr>)))
      | Some eid \<Rightarrow>
          (case update_expense v_bill_id eid v_expense d of
             Inl e \<Rightarrow> Inl e
           | Inr d1 \<Rightarrow> process_expenses v_bill_id now rest (v_expense_ids @ [eid], d1)))"

fun process_payments ::
  "uuid \<Rightarrow> int \<Rightarrow> BillPayment list \<Rightarrow> uuid list \<times> database \<Rightarrow> js_error + uuid list \<times> database" where
  "process_payments v_bill_id now [] (v_payment_ids, d) = Inr (v_payment_ids, d)"
| "process_payments v_bill_id now (v_payment # rest) (v_payment_ids, d) =
     (case pay_id v_payment of
        None \<Rightarrow>
          (case cast_payment (date_in d) v_payment of
             Inl e \<Rightarrow> Inl e
           | Inr (amount, payment_date, payment_type, note) \<Rightarrow>
               (case gen_random_uuid d of
                  (v_new_payment_id, d1) \<Rightarrow>
                    if v_new_payment_id \<in> bp_id ` set (bill_payments d1)
                    then Inl ''duplicate key value violates unique constraint bill_payments_pkey''
                    else process_payments v_bill_id now rest
                           (v_payment_ids @ [v_new_payment_id],
                            d1\<lparr>bill_payments := bill_payments d1 @
                                 [\<lparr>bp_id = v_new_payment_id, bp_monthly_bill_id = v_bill_id,
                                   bp_amount = amount,
                                   bp_payment_date = payment_date,
                                   bp_payment_type = payment_type,
                                   bp_note = note,
                                   bp_created_at = now\<rparr>]\<rparr>)))
      | Some pid \<Rightarrow>
          (case update_payment v_bill_id pid v_payment d of
             Inl e \<Rightarrow> Inl e
           | Inr d1 \<Rightarrow> process_payments v_bill_id now rest (v_payment_ids @ [pid], d1)))"

definition save_bill_complete ::
  "BillData \<Rightarrow> AdditionalExpense list \<Rightarrow> BillPayment list \<Rightarrow> uuid \<Rightarrow> int \<Rightarrow> database
     \<Rightarrow> js_error + SaveBillResult \<times> database" where
  "save_bill_complete p_bill_data p_expenses p_payments p_user_id now d =
     (case upsert_monthly_bill p_bill_data p_user_id now d of
        Inl e \<Rightarrow> Inl e
      | Inr (v_bill_id, d1) \<Rightarrow>
          (let d2 = delete_expenses_not_in v_bill_id p_expenses d1;
               d3 = delete_payments_not_in v_bill_id p_payments d2
           in case process_expenses v_bill_id now p_expenses ([], d3) of
                Inl e \<Rightarrow> Inl e
              | Inr (v_expense_ids, d4) \<Rightarrow>
                  (case process_payments v_bill_id now p_payments ([], d4) of
                     Inl e \<Rightarrow> Inl e
                   | Inr (v_payment_ids, d5) \<Rightarrow>
                       Inr (\<lparr>bill_id = v_bill_id, expense_ids = v_expense_ids,
                             payment_ids = v_payment_ids, success = True\<rparr>, d5))))"

text \<open>
  The body of the function that \<open>saveBillComplete\<close> hands to \<open>queryWithTimeout\<close>: its
  outcome once the store has answered, and the client's view of the backend after it. A
  call that fails leaves the store unchanged.
\<close>

definition saveBillComplete_body ::
  "MonthlyBill \<Rightarrow> AdditionalExpense list \<Rightarrow> BillPayment list \<Rightarrow> int \<Rightarrow> supabase
     \<Rightarrow> (js_error + SaveBillResult) \<times> supabase" where
  "saveBillComplete_body billData expenses billPayments now sb =
     (case auth_user sb of
        None \<Rightarrow> (Inl ''User not authenticated'', sb)
      | Some user \<Rightarrow>
          if \<not> rpc_available sb
          then (Inl ''Could not find the function save_bill_complete in the schema cache'', sb)
          else
            (case save_bill_complete (bill_columns billData) expenses billPayments user now (db sb) of
               Inl error \<Rightarrow> (Inl error, sb)
             | Inr (r, d') \<Rightarrow> (Inr r, sb\<lparr>db := d'\<rparr>)))"

text \<open>
  The function handed to \<open>queryWithTimeout\<close>, called. A store that never answers has not
  carried the operation out; a store that answers has carried it out by then, also when
  the caller has stopped waiting.
\<close>

definition saveBillComplete_query ::
  "MonthlyBill \<Rightarrow> AdditionalExpense list \<Rightarrow> BillPayment list \<Rightarrow> int \<Rightarrow> supabase
     \<Rightarrow> SaveBillResult promise \<times> supabase" where
  "saveBillComplete_query billData expenses billPayments now sb =
     (case response_ms (db sb) of
        None \<Rightarrow> (Pending, sb)
      | Some t \<Rightarrow>
          (case saveBillComplete_body billData expenses billPayments now sb of
             (outcome, sb') \<Rightarrow> (Settles t outcome, sb')))"

text \<open>
  \<open>SupabaseService.saveBillComplete\<close>: the query under \<open>queryWithTimeout(.., 5000)\<close> and
  \<open>RetryableQuery.execute\<close>, and the \<open>catch\<close> that rethrows. The world of the retried
  thunk is the client's view of the backend.
\<close>

definition saveBillComplete ::
  "MonthlyBill \<Rightarrow> AdditionalExpense list \<Rightarrow> BillPayment list \<Rightarrow> int \<Rightarrow> supabase
     \<Rightarrow> (js_error + SaveBillResult) \<times> supabase" where
  "saveBillComplete billData expenses billPayments now sb =
     (case execute (with_timeout (saveBillComplete_query billData expenses billPayments now) 5000)
             ''saveBillComplete'' sb of
        (Inl error, st) \<Rightarrow> (Inl (''Failed to save bill: '' @ error), world st)
      | (Inr r, st) \<Rightarrow> (Inr r, world st))"

section \<open>Vocabulary for the properties of the reconciliation\<close>

text \<open>
  The generator invariant: no row of a table with generated identities carries an
  identity that \<open>gen_random_uuid()\<close> is still to hand out.
\<close>

definition uuid_fresh :: "database \<Rightarrow> bool" where
  "uuid_fresh d \<longleftrightarrow>
     (\<forall>b \<in> set (monthly_bills d). mb_id b < uuid_seq d) \<and>
     (\<forall>ae \<in> set (additional_expenses d). ae_id ae < uuid_seq d) \<and>
     (\<forall>bp \<in> set (bill_payments d). bp_id bp < uuid_seq d)"

text \<open>
  The child rows of a bill in the store, each as its identity paired with its content (the
  columns the function writes); and such a pair with the content marked as the result of a
  conversion, to be compared with what \<open>cast_expense\<close> and \<open>cast_payment\<close> give for an
  incoming item.
\<close>

definition expense_row_view :: "additional_expenses_row \<Rightarrow> uuid \<times> string \<times> decimal \<times> string" where
  "expense_row_view ae = (ae_id ae, ae_description ae, ae_amount ae, ae_date ae)"

definition payment_row_view ::
  "bill_payments_row \<Rightarrow> uuid \<times> decimal \<times> string \<times> payment_type \<times> string option" where
  "payment_row_view bp = (bp_id bp, bp_amount bp, bp_payment_date bp, bp_payment_type bp, bp_note bp)"

definition expense_rows :: "database \<Rightarrow> uuid \<Rightarrow> (uuid \<times> string \<times> decimal \<times> string) list" where
  "expense_rows d b =
     map expense_row_view (filter (\<lambda>ae. ae_monthly_bill_id ae = b) (additional_expenses d))"

definition payment_rows ::
  "database \<Rightarrow> uuid \<Rightarrow> (uuid \<times> decimal \<times> string \<times> payment_type \<times> string option) list" where
  "payment_rows d b =
     map payment_row_view (filter (\<lambda>bp. bp_monthly_bill_id bp = b) (bill_payments d))"

definition converted :: "uuid \<times> 'c \<Rightarrow> uuid \<times> (js_error + 'c)" where
  "converted p = (fst p, Inr (snd p))"

text \<open>The row that a loop inserts for an item, from the converted content.\<close>

definition inserted_expense_row ::
  "uuid \<Rightarrow> uuid \<Rightarrow> string \<times> decimal \<times> string \<Rightarrow> int \<Rightarrow> additional_expenses_row" where
  "inserted_expense_row i b content now =
     (case content of
        (description, amount, date) \<Rightarrow>
          \<lparr>ae_id = i, ae_monthly_bill_id = b, ae_description = description,
           ae_amount = amount, ae_date = date, ae_created_at = now\<rparr>)"

definition inserted_payment_row ::
  "uuid \<Rightarrow> uuid \<Rightarrow> decimal \<times> string \<times> payment_type \<times> string option \<Rightarrow> int \<Rightarrow> bill_payments_row" where
  "inserted_payment_row i b content now =
     (case content of
        (amount, payment_date, payment_type, note) \<Rightarrow>
          \<lparr>bp_id = i, bp_monthly_bill_id = b, bp_amount = amount,
           bp_payment_date = payment_date, bp_payment_type = payment_type,
           bp_note = note, bp_created_at = now\<rparr>)"

text \<open>Whether every incoming identity is attached to bill \<open>b\<close> in the store.\<close>

definition expenses_attached :: "database \<Rightarrow> uuid \<Rightarrow> AdditionalExpense list \<Rightarrow> bool" where
  "expenses_attached d b p_expenses \<longleftrightarrow>
     (\<forall>i \<in> set (incoming_expense_ids p_expenses).
        \<exists>ae \<in> set (additional_expenses d). ae_id ae = i \<and> ae_monthly_bill_id ae = b)"

definition payments_attached :: "database \<Rightarrow> uuid \<Rightarrow> BillPayment list \<Rightarrow> bool" where
  "payments_attached d b p_payments \<longleftrightarrow>
     (\<forall>i \<in> set (incoming_payment_ids p_payments).
        \<exists>bp \<in> set (bill_payments d). bp_id bp = i \<and> bp_monthly_bill_id bp = b)"

text \<open>
  The effect on one row of the update that a loop makes for an incoming item (none when
  the item has no identity or its conversion fails), and the combined effect of the
  updates for a list of items, in the order of the list.
\<close>

definition expense_update ::
  "(string \<Rightarrow> js_error + string) \<Rightarrow> uuid \<Rightarrow> AdditionalExpense \<Rightarrow> additional_expenses_row
     \<Rightarrow> additional_expenses_row" where
  "expense_update din b x ae =
     (case (exp_id x, cast_expense din x) of
        (Some i, Inr content) \<Rightarrow> update_expense_row b i content ae
      | _ \<Rightarrow> ae)"

definition payment_update ::
  "(string \<Rightarrow> js_error + string) \<Rightarrow> uuid \<Rightarrow> BillPayment \<Rightarrow> bill_payments_row \<Rightarrow> bill_payments_row" where
  "payment_update din b x bp =
     (case (pay_id x, cast_payment din x) of
        (Some i, Inr content) \<Rightarrow> update_payment_row b i content bp
      | _ \<Rightarrow> bp)"

fun expense_updates ::
  "(string \<Rightarrow> js_error + string) \<Rightarrow> uuid \<Rightarrow> AdditionalExpense list \<Rightarrow> additional_expenses_row
     \<Rightarrow> additional_expenses_row" where
  "expense_updates din b [] ae = ae"
| "expense_updates din b (x # xs) ae = expense_updates din b xs (expense_update din b x ae)"

fun payment_updates ::
  "(string \<Rightarrow> js_error + string) \<Rightarrow> uuid \<Rightarrow> BillPayment list \<Rightarrow> bill_payments_row
     \<Rightarrow> bill_payments_row" where
  "payment_updates din b [] bp = bp"
| "payment_updates din b (x # xs) bp = payment_updates din b xs (payment_update din b x bp)"

section \<open>Properties of the retry wrapper\<close>

lemma show_nat_maxRetries: "show_nat maxRetries = ''2''"
  by (simp add: show_nat.simps maxRetries_def digit_char_def)

lemma execute_loop_calls_bound:
  "calls (snd (execute_loop queryFn ctx attempt lastError st)) \<le> calls st + (maxRetries + 1 - attempt)"
proof (induction queryFn ctx attempt lastError st rule: execute_loop.induct)
  case (1 queryFn ctx attempt lastError st)
  show ?case
  proof (cases "attempt \<le> maxRetries")
    case False
    then show ?thesis
      by (simp add: execute_loop.simps [of queryFn ctx attempt] split: option.splits)
  next
    case True
    obtain r w' where q: "queryFn (world st) = (r, w')" by (cases "queryFn (world st)")
    show ?thesis
    proof (cases r)
      case (Inr v)
      with True q show ?thesis
        by (simp add: execute_loop.simps [of queryFn ctx attempt])
    next
      case (Inl e)
      have "calls (snd (execute_loop queryFn ctx (attempt + 1) (Some e)
               (if attempt < maxRetries
                then st\<lparr>world := w', calls := calls st + 1, slept := slept st @ [baseDelay * 2 ^ attempt]\<rparr>
                else st\<lparr>world := w', calls := calls st + 1\<rparr>)))
            \<le> calls st + 1 + (maxRetries + 1 - (attempt + 1))"
        using "1.IH" [OF True q [symmetric] Inl refl refl] by (simp split: if_splits)
      with True q Inl show ?thesis
        by (simp add: execute_loop.simps [of queryFn ctx attempt] Let_def split: if_splits)
    qed
  qed
qed

lemma execute_loop_success:
  "attempt + k \<le> maxRetries \<Longrightarrow>
   \<forall>j<k. isl (attempt_outcome queryFn (world st) j) \<Longrightarrow>
   attempt_outcome queryFn (world st) k = Inr v \<Longrightarrow>
   fst (execute_loop queryFn ctx attempt lastError st) = Inr v \<and>
   calls (snd (execute_loop queryFn ctx attempt lastError st)) = calls st + k + 1"
proof (induction k arbitrary: attempt lastError st)
  case 0
  then show ?case
    by (cases "queryFn (world st)") (simp add: execute_loop.simps [of queryFn ctx attempt])
next
  case (Suc k)
  obtain r w' where q: "queryFn (world st) = (r, w')" by (cases "queryFn (world st)")
  from Suc.prems(2) have "isl (attempt_outcome queryFn (world st) 0)" by blast
  with q obtain e where r: "r = Inl e" by (cases r) auto
  define st2 where "st2 = (if attempt < maxRetries
                then st\<lparr>world := w', calls := calls st + 1, slept := slept st @ [baseDelay * 2 ^ attempt]\<rparr>
                else st\<lparr>world := w', calls := calls st + 1\<rparr>)"
  have w2: "world st2 = w'" and c2: "calls st2 = calls st + 1" by (simp_all add: st2_def)
  have step: "execute_loop queryFn ctx attempt lastError st = execute_loop queryFn ctx (attempt + 1) (Some e) st2"
    using Suc.prems(1) q r by (simp add: execute_loop.simps [of queryFn ctx attempt] Let_def st2_def)
  have a: "attempt + 1 + k \<le> maxRetries" using Suc.prems(1) by simp
  have b: "\<forall>j<k. isl (attempt_outcome queryFn (world st2) j)"
    using Suc.prems(2) q by (auto simp: w2 dest: spec [of _ "Suc j" for j])
  have c: "attempt_outcome queryFn (world st2) k = Inr v"
    using Suc.prems(3) q by (simp add: w2)
  from Suc.IH [OF a b c, of "Some e"] show ?case
    by (simp add: step c2)
qed

lemma execute_loop_exhausted:
  "attempt + n = maxRetries \<Longrightarrow>
   \<forall>j\<le>n. isl (attempt_outcome queryFn (world st) j) \<Longrightarrow>
   fst (execute_loop queryFn ctx attempt lastError st) =
     Inl (ctx @ '' failed after 2 retries: '' @ projl (attempt_outcome queryFn (world st) n)) \<and>
   calls (snd (execute_loop queryFn ctx attempt lastError st)) = calls st + n + 1"
proof (induction n arbitrary: attempt lastError st)
  case 0
  obtain r w' where q: "queryFn (world st) = (r, w')" by (cases "queryFn (world st)")
  from "0.prems"(2) q obtain e where r: "r = Inl e" by (cases r) auto
  from "0.prems"(1) have a: "attempt = maxRetries" by simp
  from q r show ?case
    unfolding a
    by (simp add: execute_loop.simps [of queryFn ctx maxRetries]
        execute_loop.simps [of queryFn ctx "Suc maxRetries"] Let_def show_nat_maxRetries)
next
  case (Suc n)
  obtain r w' where q: "queryFn (world st) = (r, w')" by (cases "queryFn (world st)")
  from Suc.prems(2) have "isl (attempt_outcome queryFn (world st) 0)" by blast
  with q obtain e where r: "r = Inl e" by (cases r) auto
  define st2 where "st2 = (if attempt < maxRetries
                then st\<lparr>world := w', calls := calls st + 1, slept := slept st @ [baseDelay * 2 ^ attempt]\<rparr>
                else st\<lparr>world := w', calls := calls st + 1\<rparr>)"
  have w2: "world st2 = w'" and c2: "calls st2 = calls st + 1" by (simp_all add: st2_def)
  have step: "execute_loop queryFn ctx attempt lastError st = execute_loop queryFn ctx (attempt + 1) (Some e) st2"
    using Suc.prems(1) q r by (simp add: execute_loop.simps [of queryFn ctx attempt] Let_def st2_def)
  have a: "attempt + 1 + n = maxRetries" using Suc.prems(1) by simp
  have b: "\<forall>j\<le>n. isl (attempt_outcome queryFn (world st2) j)"
  proof (intro allI impI)
    fix j assume "j \<le> n"
    then have "Suc j \<le> Suc n" by simp
    with Suc.prems(2) have "isl (attempt_outcome queryFn (world st) (Suc j))" by blast
    then show "isl (attempt_outcome queryFn (world st2) j)" using q by (simp add: w2)
  qed
  from Suc.IH [OF a b, of "Some e"] show ?case
    using q by (simp add: step c2 w2)
qed

text \<open>
  Claim C3. \<open>RetryableQuery.execute\<close> invokes the wrapped operation at most
  \<open>maxRetries + 1 = 3\<close> times. If the \<open>k\<close>-th invocation is the first one that does not
  throw, the wrapper returns that invocation's value and has made exactly \<open>k + 1\<close>
  invocations. If all three invocations throw, it has made exactly \<open>maxRetries + 1\<close>
  invocations and throws an error whose message consists of the operation name,
  \<open>failed after 2 retries:\<close> and the message of the last underlying error.
\<close>

theorem execute_retry_policy:
  "calls (snd (execute queryFn ctx w)) \<le> maxRetries + 1 \<and>
   (\<forall>k v. k \<le> maxRetries \<and> (\<forall>j<k. isl (attempt_outcome queryFn w j)) \<and>
          attempt_outcome queryFn w k = Inr v \<longrightarrow>
          fst (execute queryFn ctx w) = Inr v \<and> calls (snd (execute queryFn ctx w)) = k + 1) \<and>
   ((\<forall>j\<le>maxRetries. isl (attempt_outcome queryFn w j)) \<longrightarrow>
      calls (snd (execute queryFn ctx w)) = maxRetries + 1 \<and>
      fst (execute queryFn ctx w) =
        Inl (ctx @ '' failed after 2 retries: '' @ projl (attempt_outcome queryFn w maxRetries)))"
proof (intro conjI allI impI)
  show "calls (snd (execute queryFn ctx w)) \<le> maxRetries + 1"
    using execute_loop_calls_bound [of queryFn ctx 0 None "\<lparr>world = w, calls = 0, slept = []\<rparr>"]
    by (simp add: execute_def)
next
  fix k v
  assume h: "k \<le> maxRetries \<and> (\<forall>j<k. isl (attempt_outcome queryFn w j)) \<and>
          attempt_outcome queryFn w k = Inr v"
  then have "fst (execute queryFn ctx w) = Inr v \<and> calls (snd (execute queryFn ctx w)) = k + 1"
    using execute_loop_success [of 0 k queryFn "\<lparr>world = w, calls = 0, slept = []\<rparr>" v ctx None]
    by (simp add: execute_def)
  then show "fst (execute queryFn ctx w) = Inr v" and "calls (snd (execute queryFn ctx w)) = k + 1"
    by simp_all
next
  assume h: "\<forall>j\<le>maxRetries. isl (attempt_outcome queryFn w j)"
  then have r: "fst (execute queryFn ctx w) =
        Inl (ctx @ '' failed after 2 retries: '' @ projl (attempt_outcome queryFn w maxRetries)) \<and>
      calls (snd (execute queryFn ctx w)) = maxRetries + 1"
    using execute_loop_exhausted [of 0 maxRetries queryFn "\<lparr>world = w, calls = 0, slept = []\<rparr>" ctx None]
    by (simp add: execute_def)
  from r show "calls (snd (execute queryFn ctx w)) = maxRetries + 1" by simp
  from r show "fst (execute queryFn ctx w) =
        Inl (ctx @ '' failed after 2 retries: '' @ projl (attempt_outcome queryFn w maxRetries))" by simp
qed

theorem execute_retry_policy_witness:
  "2 \<le> maxRetries \<and>
   isl (attempt_outcome (\<lambda>n::nat. (if n < 2 then Inl ''network down'' else Inr (7::int), n + 1)) 0 0) \<and>
   isl (attempt_outcome (\<lambda>n::nat. (if n < 2 then Inl ''network down'' else Inr (7::int), n + 1)) 0 1) \<and>
   attempt_outcome (\<lambda>n::nat. (if n < 2 then Inl ''network down'' else Inr (7::int), n + 1)) 0 2 = Inr 7 \<and>
   fst (execute (\<lambda>n::nat. (if n < 2 then Inl ''network down'' else Inr (7::int), n + 1)) ''getBillWithDetails'' 0) = Inr 7 \<and>
   calls (snd (execute (\<lambda>n::nat. (if n < 2 then Inl ''network down'' else Inr (7::int), n + 1)) ''getBillWithDetails'' 0)) = 3 \<and>
   fst (execute (\<lambda>n::nat. (Inl ''network down'' :: js_error + int, n + 1)) ''getBillWithDetails'' 0)
     = Inl ''getBillWithDetails failed after 2 retries: network down'' \<and>
   calls (snd (execute (\<lambda>n::nat. (Inl ''network down'' :: js_error + int, n + 1)) ''getBillWithDetails'' 0)) = 3"
proof -
  let ?q = "\<lambda>n::nat. (if n < 2 then Inl ''network down'' else Inr (7::int), n + 1)"
  let ?f = "\<lambda>n::nat. (Inl ''network down'' :: js_error + int, n + 1)"
  have s1: "2 \<le> maxRetries \<and> (\<forall>j<2. isl (attempt_outcome ?q 0 j)) \<and> attempt_outcome ?q 0 2 = Inr 7"
    by (simp add: maxRetries_def numeral_2_eq_2 All_less_Suc)
  have out_f: "attempt_outcome ?f w j = Inl ''network down''" for w j
    by (induction j arbitrary: w) simp_all
  have s2: "\<forall>j\<le>maxRetries. isl (attempt_outcome ?f 0 j)"
    using out_f by simp
  from execute_retry_policy [of ?q "''getBillWithDetails''" 0] s1
  have r1: "fst (execute ?q ''getBillWithDetails'' 0) = Inr 7 \<and>
            calls (snd (execute ?q ''getBillWithDetails'' 0)) = 2 + 1"
    by blast
  from execute_retry_policy [of ?f "''getBillWithDetails''" 0] s2
  have r2: "calls (snd (execute ?f ''getBillWithDetails'' 0)) = maxRetries + 1 \<and>
            fst (execute ?f ''getBillWithDetails'' 0) =
              Inl (''getBillWithDetails'' @ '' failed after 2 retries: '' @
                   projl (attempt_outcome ?f 0 maxRetries))"
    by blast
  from s1 s2 r1 r2 out_f [of 0 maxRetries] show ?thesis
    by (simp add: maxRetries_def)
qed

section \<open>Properties of the cache manager\<close>

text \<open>
  Claim C8. Staleness never evicts: for a cached key whose entry is older than the TTL
  (\<open>now - timestamp > CACHE_TTL\<close>), \<open>isStale\<close> answers true, \<open>get\<close> still returns the
  cached data, the entry stays in the map with its \<open>isStale\<close> flag set, and no key leaves
  the map.
\<close>

theorem stale_entry_still_returned:
  "cache c (getCacheKey renterId month year) = Some entry \<Longrightarrow>
   now - timestamp entry > CACHE_TTL \<Longrightarrow>
   BillCache_isStale renterId month year now c \<and>
   fst (BillCache_get renterId month year now c) = Some (data entry) \<and>
   cache (snd (BillCache_get renterId month year now c)) (getCacheKey renterId month year)
     = Some (entry\<lparr>isStale := True\<rparr>) \<and>
   dom (cache (snd (BillCache_get renterId month year now c))) = dom (cache c)"
  by (auto simp: BillCache_isStale_def BillCache_get_def Let_def)

theorem stale_entry_still_returned_witness:
  "cache (BillCache_set 4 8 2025 (createTestMonthData 0) 0 new_BillCache) (getCacheKey 4 8 2025)
     = Some \<lparr>data = createTestMonthData 0, timestamp = 0, isStale = False\<rparr> \<and>
   900001 - timestamp \<lparr>data = createTestMonthData 0, timestamp = 0, isStale = False\<rparr> > CACHE_TTL \<and>
   BillCache_isStale 4 8 2025 900001 (BillCache_set 4 8 2025 (createTestMonthData 0) 0 new_BillCache) \<and>
   fst (BillCache_get 4 8 2025 900001 (BillCache_set 4 8 2025 (createTestMonthData 0) 0 new_BillCache))
     = Some (createTestMonthData 0)"
proof -
  let ?c = "BillCache_set 4 8 2025 (createTestMonthData 0) 0 new_BillCache"
  let ?e = "\<lparr>data = createTestMonthData 0, timestamp = 0, isStale = False\<rparr>"
  have h1: "cache ?c (getCacheKey 4 8 2025) = Some ?e"
    by (simp add: BillCache_set_def)
  have h2: "900001 - timestamp ?e > CACHE_TTL"
    by (simp add: CACHE_TTL_def)
  from stale_entry_still_returned [OF h1 h2] h1 h2 show ?thesis
    by simp
qed

text \<open>
  Claim C10. For a key that has no entry in the cache, \<open>isStale\<close> answers false; this
  covers a key that was never set (in particular any key of a new cache) and a key that
  has just been removed by \<open>invalidate\<close>.
\<close>

theorem absent_key_not_stale:
  "(cache c (getCacheKey renterId month year) = None \<longrightarrow>
      \<not> BillCache_isStale renterId month year now c) \<and>
   \<not> BillCache_isStale renterId month year now (BillCache_invalidate renterId month year c) \<and>
   \<not> BillCache_isStale renterId month year now new_BillCache"
  by (simp add: BillCache_isStale_def BillCache_invalidate_def new_BillCache_def)

theorem absent_key_not_stale_witness:
  "cache new_BillCache (getCacheKey 4 8 2025) = None \<and>
   \<not> BillCache_isStale 4 8 2025 900001 new_BillCache"
proof -
  have h: "cache new_BillCache (getCacheKey 4 8 2025) = None"
    by (simp add: new_BillCache_def)
  from absent_key_not_stale [of new_BillCache 4 8 2025 900001] h show ?thesis
    by blast
qed

section \<open>Properties of the aggregate fetcher\<close>

lemma take1_map_filter:
  "take (Suc 0) (map f (filter P xs)) = (case find P xs of None \<Rightarrow> [] | Some x \<Rightarrow> [f x])"
  by (induction xs) simp_all

lemma filter_head_find:
  "(case filter P xs of [] \<Rightarrow> a | x # rest \<Rightarrow> g x) = (case find P xs of None \<Rightarrow> a | Some x \<Rightarrow> g x)"
  by (induction xs) simp_all

lemma filter_unique_key:
  assumes "distinct (map k xs)" and same: "\<And>x y. P x \<Longrightarrow> P y \<Longrightarrow> k x = k y"
  shows "filter P xs = (case find P xs of None \<Rightarrow> [] | Some x \<Rightarrow> [x])"
  using assms(1)
proof (induction xs)
  case Nil
  then show ?case by simp
next
  case (Cons x xs)
  show ?case
  proof (cases "P x")
    case True
    have "\<not> P y" if "y \<in> set xs" for y
    proof
      assume "P y"
      with True have "k x = k y" by (rule same)
      moreover from Cons.prems have "k x \<notin> k ` set xs" by simp
      ultimately show False using that by blast
    qed
    then have "filter P xs = []" by (simp add: filter_empty_conv)
    with True show ?thesis by simp
  next
    case False
    from Cons.prems have "distinct (map k xs)" by simp
    with Cons.IH False show ?thesis by simp
  qed
qed

lemma attempt_outcome_read: "attempt_outcome (\<lambda>w. (f w, w)) sb j = f sb"
  by (induction j) simp_all

lemma execute_read:
  "fst (execute (\<lambda>w. (f w, w)) ctx sb) =
     (case f sb of
        Inr v \<Rightarrow> Inr v
      | Inl e \<Rightarrow> Inl (ctx @ '' failed after 2 retries: '' @ e))"
proof (cases "f sb")
  case (Inr v)
  then show ?thesis
    using execute_loop_success [of 0 0 "\<lambda>w. (f w, w)" "\<lparr>world = sb, calls = 0, slept = []\<rparr>" v ctx None]
    by (simp add: execute_def)
next
  case (Inl e)
  then show ?thesis
    using execute_loop_exhausted [of 0 maxRetries "\<lambda>w. (f w, w)" "\<lparr>world = sb, calls = 0, slept = []\<rparr>" ctx None]
    by (simp add: execute_def attempt_outcome_read)
qed

text \<open>The race against the timer, and what an attempt of the fetch yields.\<close>

lemma queryWithTimeout_cases:
  "queryWithTimeout p ms =
     (case p of
        Settles t r \<Rightarrow>
          if t \<le> ms then Settles t r
          else Settles ms (Inl ''Query timeout - operation took longer than expected'')
      | Pending \<Rightarrow> Settles ms (Inl ''Query timeout - operation took longer than expected''))"
  by (simp add: queryWithTimeout_def reject_after_def split: promise.splits)

lemma getBillWithDetails_attempt:
  "with_timeout (getBillWithDetails_query renterId month year) 5000 =
     (\<lambda>sb. (case response_ms (db sb) of
               None \<Rightarrow> Inl ''Query timeout - operation took longer than expected''
             | Some t \<Rightarrow>
                 if t \<le> 5000 then getBillWithDetails_body sb renterId month year
                 else Inl ''Query timeout - operation took longer than expected'', sb))"
  by (rule ext)
     (simp add: with_timeout_def getBillWithDetails_query_def answered_def queryWithTimeout_cases
        await_def split: option.splits)

lemma getBillWithDetails_eq:
  "getBillWithDetails sb renterId month year =
     (case (case response_ms (db sb) of
              None \<Rightarrow> Inl ''Query timeout - operation took longer than expected''
            | Some t \<Rightarrow>
                if t \<le> 5000 then getBillWithDetails_body sb renterId month year
                else Inl ''Query timeout - operation took longer than expected'') of
        Inr r \<Rightarrow> Inr r
      | Inl e \<Rightarrow> Inl (''Failed to fetch bill details: getBillWithDetails failed after 2 retries: '' @ e))"
  unfolding getBillWithDetails_def getBillWithDetails_attempt
  by (simp add: execute_read split: sum.splits)

lemma getBillWithDetails_in_time:
  "response_ms (db sb) = Some t \<Longrightarrow> t \<le> 5000 \<Longrightarrow>
   getBillWithDetails sb renterId month year =
     (case getBillWithDetails_body sb renterId month year of
        Inr r \<Rightarrow> Inr r
      | Inl e \<Rightarrow> Inl (''Failed to fetch bill details: getBillWithDetails failed after 2 retries: '' @ e))"
  by (simp add: getBillWithDetails_eq)

lemma v_prev_period_eq: "v_prev_period month year = preceding_period month year"
  by (simp add: v_prev_period_def preceding_period_def)

lemma prevMonthYear_eq: "prevMonthYear month year = preceding_period month year"
  by (simp add: prevMonthYear_def preceding_period_def Let_def)

lemma bill_matches_key: "bill_matches r m y u b \<Longrightarrow> bill_key b = (r, m, y)"
  by (simp add: bill_matches_def bill_key_def)

lemma or_default_zero [simp]: "or_default x 0 = x"
  by (simp add: or_default_def)

text \<open>
  The combined read. The RPC function returns when the user has a bill row for the key,
  and then with the readings of the preceding period; it raises when there is none.
\<close>

lemma rpc_previous_readings:
  "get_bill_with_details renterId month year user d = Inr r \<Longrightarrow>
   bwd_previous_readings r = carry_forward (preceding_bill d user renterId month year)"
  by (auto simp: get_bill_with_details_def v_prev_period_eq preceding_bill_def carry_forward_def
      take1_map_filter Let_def split: prod.splits option.splits list.splits)

lemma rpc_no_bill:
  "\<not> (\<exists>b \<in> set (monthly_bills d). bill_matches renterId month year user b) \<Longrightarrow>
   get_bill_with_details renterId month year user d = Inl ''relation previous_readings does not exist''"
proof -
  assume "\<not> (\<exists>b \<in> set (monthly_bills d). bill_matches renterId month year user b)"
  then have "filter (bill_matches renterId month year user) (monthly_bills d) = []"
    by (simp add: filter_empty_conv)
  then show ?thesis
    by (simp add: get_bill_with_details_def Let_def split: prod.splits)
qed

lemma rpc_bill:
  "b \<in> set (monthly_bills d) \<Longrightarrow> bill_matches renterId month year user b \<Longrightarrow>
   \<exists>r. get_bill_with_details renterId month year user d = Inr r \<and> bwd_bill r \<noteq> None"
proof -
  assume "b \<in> set (monthly_bills d)" and "bill_matches renterId month year user b"
  then have "filter (bill_matches renterId month year user) (monthly_bills d) \<noteq> []"
    by (auto simp: filter_empty_conv)
  then show ?thesis
    by (auto simp: get_bill_with_details_def Let_def neq_Nil_conv split: prod.splits)
qed

text \<open>The decomposed reads.\<close>

lemma single_renter:
  assumes "distinct (map r_id (renters d))" and "renter_accessible d user renterId"
  shows "single (filter (\<lambda>r. r_id r = renterId \<and> r_user_id r = Some user) (renters d)) \<noteq> None"
proof -
  let ?P = "\<lambda>r. r_id r = renterId \<and> r_user_id r = Some user"
  have "filter ?P (renters d) = (case find ?P (renters d) of None \<Rightarrow> [] | Some x \<Rightarrow> [x])"
    using assms(1) by (rule filter_unique_key) simp
  moreover from assms(2) have "find ?P (renters d) \<noteq> None"
    by (auto simp: renter_accessible_def find_None_iff)
  ultimately show ?thesis
    by (auto simp: single_def)
qed

lemma getMonthlyBill_accessible:
  assumes "auth_user sb = Some user"
    and "schema_constraints (db sb)"
    and "renter_accessible (db sb) user renterId"
  shows "getMonthlyBill sb renterId month year =
           map_option bill_to_json (find (bill_matches renterId month year user) (monthly_bills (db sb)))"
proof -
  let ?P = "bill_matches renterId month year user"
  from assms(2) have u: "distinct (map bill_key (monthly_bills (db sb)))"
    and r: "distinct (map r_id (renters (db sb)))"
    by (simp_all add: schema_constraints_def)
  from u have "filter ?P (monthly_bills (db sb)) =
      (case find ?P (monthly_bills (db sb)) of None \<Rightarrow> [] | Some x \<Rightarrow> [x])"
    by (rule filter_unique_key) (simp add: bill_matches_key)
  then have "maybeSingle (filter ?P (monthly_bills (db sb))) = Inr (find ?P (monthly_bills (db sb)))"
    by (simp add: maybeSingle_def split: option.splits)
  with single_renter [OF r assms(3)] assms(1) show ?thesis
    by (auto simp: getMonthlyBill_def getMonthlyBill_try_def split: option.splits)
qed

lemma readings_of_json: "readings_of (map_option bill_to_json prev) = carry_forward prev"
  by (cases prev) (simp_all add: readings_of_def carry_forward_def zero_readings_def bill_to_json_def)

lemma fallback_previous_readings:
  assumes "auth_user sb = Some user"
    and "schema_constraints (db sb)"
    and "renter_accessible (db sb) user renterId"
  shows "bwd_previous_readings (getBillWithDetails_fallback sb renterId month year) =
     carry_forward (preceding_bill (db sb) user renterId month year)"
  using getMonthlyBill_accessible [OF assms]
  by (simp add: getBillWithDetails_fallback_def getPreviousMonthBill_def prevMonthYear_eq
      preceding_bill_def readings_of_json Let_def split: prod.splits option.splits)

lemma fallback_no_bill:
  assumes "auth_user sb = Some user"
    and "schema_constraints (db sb)"
    and "renter_accessible (db sb) user renterId"
    and "\<not> (\<exists>b \<in> set (monthly_bills (db sb)). bill_matches renterId month year user b)"
  shows "getBillWithDetails_fallback sb renterId month year =
     \<lparr>bwd_bill = None, bwd_expenses = [], bwd_payments = [],
      bwd_previous_readings = carry_forward (preceding_bill (db sb) user renterId month year)\<rparr>"
proof -
  from assms(4) have "find (bill_matches renterId month year user) (monthly_bills (db sb)) = None"
    by (simp add: find_None_iff)
  with getMonthlyBill_accessible [OF assms(1-3)] show ?thesis
    by (simp add: getBillWithDetails_fallback_def getPreviousMonthBill_def prevMonthYear_eq
      preceding_bill_def readings_of_json Let_def split: prod.splits)
qed

text \<open>
  The client: when the RPC function is not deployed, or raises, the fetch is the
  decomposed one; when the function returns, the fetch returns its result.
\<close>

lemma body_fallback:
  "auth_user sb = Some user \<Longrightarrow>
   rpc_get_bill_with_details sb renterId month year user = Inl e \<Longrightarrow>
   getBillWithDetails_body sb renterId month year =
     Inr (getBillWithDetails_fallback sb renterId month year)"
  by (simp add: getBillWithDetails_body_def)

lemma body_rpc:
  "auth_user sb = Some user \<Longrightarrow> rpc_available sb \<Longrightarrow>
   get_bill_with_details renterId month year user (db sb) = Inr r \<Longrightarrow>
   getBillWithDetails_body sb renterId month year = Inr r"
  by (simp add: getBillWithDetails_body_def rpc_get_bill_with_details_def)

lemma body_previous_readings:
  assumes "auth_user sb = Some user" and "schema_constraints (db sb)"
    and "renter_accessible (db sb) user renterId"
  shows "\<exists>r. getBillWithDetails_body sb renterId month year = Inr r \<and>
           bwd_previous_readings r = carry_forward (preceding_bill (db sb) user renterId month year)"
proof (cases "rpc_get_bill_with_details sb renterId month year user")
  case (Inl e)
  from body_fallback [OF assms(1) Inl] fallback_previous_readings [OF assms, of month year]
  show ?thesis by simp
next
  case (Inr res)
  then obtain r where av: "rpc_available sb"
    and r: "get_bill_with_details renterId month year user (db sb) = Inr r"
    by (auto simp: rpc_get_bill_with_details_def split: if_splits sum.splits)
  from body_rpc [OF assms(1) av r] rpc_previous_readings [OF r]
  show ?thesis by simp
qed

lemma body_no_bill:
  assumes "auth_user sb = Some user" and "schema_constraints (db sb)"
    and "renter_accessible (db sb) user renterId"
    and "\<not> (\<exists>b \<in> set (monthly_bills (db sb)). bill_matches renterId month year user b)"
  shows "getBillWithDetails_body sb renterId month year =
     Inr \<lparr>bwd_bill = None, bwd_expenses = [], bwd_payments = [],
          bwd_previous_readings = carry_forward (preceding_bill (db sb) user renterId month year)\<rparr>"
proof -
  from rpc_no_bill [OF assms(4)]
  have "\<exists>e. rpc_get_bill_with_details sb renterId month year user = Inl e"
    by (simp add: rpc_get_bill_with_details_def)
  then obtain e where "rpc_get_bill_with_details sb renterId month year user = Inl e" ..
  from body_fallback [OF assms(1) this] fallback_no_bill [OF assms]
  show ?thesis by simp
qed

lemma find_unique_row:
  assumes "distinct (map k xs)" and "b \<in> set xs" and "P b"
    and same: "\<And>x y. P x \<Longrightarrow> P y \<Longrightarrow> k x = k y"
  shows "find P xs = Some b"
  using assms(1,2)
proof (induction xs)
  case Nil
  then show ?case by simp
next
  case (Cons x xs)
  show ?case
  proof (cases "x = b")
    case True
    with assms(3) show ?thesis by simp
  next
    case False
    with Cons.prems have b: "b \<in> set xs" by simp
    have "\<not> P x"
    proof
      assume "P x"
      then have "k x = k b" using assms(3) by (rule same)
      moreover from Cons.prems(1) have "k x \<notin> k ` set xs" by simp
      ultimately show False using b by blast
    qed
    moreover from Cons.prems(1) have "distinct (map k xs)" by simp
    ultimately show ?thesis using Cons.IH b by simp
  qed
qed

lemma both_paths_previous_readings:
  assumes "auth_user sb = Some user" and "schema_constraints (db sb)"
    and "renter_accessible (db sb) user renterId"
    and "response_ms (db sb) = Some t" and "t \<le> 5000"
  shows "(\<exists>r. getBillWithDetails (sb\<lparr>rpc_available := True\<rparr>) renterId month year = Inr r \<and>
           bwd_previous_readings r = carry_forward (preceding_bill (db sb) user renterId month year)) \<and>
      (\<exists>r. getBillWithDetails (sb\<lparr>rpc_available := False\<rparr>) renterId month year = Inr r \<and>
           bwd_previous_readings r = carry_forward (preceding_bill (db sb) user renterId month year))"
proof -
  have one: "\<exists>r. getBillWithDetails (sb\<lparr>rpc_available := v\<rparr>) renterId month year = Inr r \<and>
           bwd_previous_readings r = carry_forward (preceding_bill (db sb) user renterId month year)"
    for v
  proof -
    let ?sb = "sb\<lparr>rpc_available := v\<rparr>"
    have "\<exists>r. getBillWithDetails_body ?sb renterId month year = Inr r \<and>
           bwd_previous_readings r = carry_forward (preceding_bill (db ?sb) user renterId month year)"
      by (rule body_previous_readings) (use assms in simp_all)
    then obtain r where b: "getBillWithDetails_body ?sb renterId month year = Inr r"
      and p: "bwd_previous_readings r = carry_forward (preceding_bill (db sb) user renterId month year)"
      by auto
    have "response_ms (db ?sb) = Some t" using assms(4) by simp
    from getBillWithDetails_in_time [OF this assms(5), of renterId month year] b
    have "getBillWithDetails ?sb renterId month year = Inr r" by simp
    with p show ?thesis by blast
  qed
  from one [of True] one [of False] show ?thesis by (rule conjI)
qed

lemma both_paths_no_bill:
  assumes "auth_user sb = Some user" and "schema_constraints (db sb)"
    and "renter_accessible (db sb) user renterId"
    and "\<not> (\<exists>b \<in> set (monthly_bills (db sb)). bill_matches renterId month year user b)"
    and "response_ms (db sb) = Some t" and "t \<le> 5000"
  shows "getBillWithDetails (sb\<lparr>rpc_available := v\<rparr>) renterId month year =
           Inr \<lparr>bwd_bill = None, bwd_expenses = [], bwd_payments = [],
                bwd_previous_readings =
                  carry_forward (preceding_bill (db sb) user renterId month year)\<rparr>"
proof -
  let ?sb = "sb\<lparr>rpc_available := v\<rparr>"
  have "getBillWithDetails_body ?sb renterId month year =
     Inr \<lparr>bwd_bill = None, bwd_expenses = [], bwd_payments = [],
          bwd_previous_readings = carry_forward (preceding_bill (db ?sb) user renterId month year)\<rparr>"
    by (rule body_no_bill) (use assms in simp_all)
  moreover have "response_ms (db ?sb) = Some t" using assms(5) by simp
  ultimately show ?thesis
    using getBillWithDetails_in_time [of ?sb t renterId month year] assms(6) by simp
qed

lemma carry_forward_of_row:
  assumes "schema_constraints (db sb)" and "b \<in> set (monthly_bills (db sb))"
    and "bill_matches renterId (fst (preceding_period month year)) (snd (preceding_period month year)) user b"
  shows "carry_forward (preceding_bill (db sb) user renterId month year) =
        \<lparr>electricity_final = electricity_final_reading (mb_data b),
         motor_final = motor_final_reading (mb_data b)\<rparr>"
proof -
  from assms(1) have "distinct (map bill_key (monthly_bills (db sb)))"
    by (simp add: schema_constraints_def)
  then have "find (bill_matches renterId (fst (preceding_period month year))
               (snd (preceding_period month year)) user) (monthly_bills (db sb)) = Some b"
    using assms(2,3) by (rule find_unique_row) (simp add: bill_matches_key)
  then show ?thesis
    by (simp add: preceding_bill_def carry_forward_def)
qed

lemma year_boundary_store_ok: "schema_constraints (year_boundary_store 7 2026)"
  by (simp add: schema_constraints_def year_boundary_store_def)

lemma year_boundary_renter: "renter_accessible (year_boundary_store 7 2026) 1 7"
  by (simp add: renter_accessible_def year_boundary_store_def)

lemma year_boundary_january:
  "\<not> (\<exists>b \<in> set (monthly_bills (year_boundary_store 7 2026)). bill_matches 7 m 2026 1 b)"
  by (simp add: year_boundary_store_def bill_matches_def decBillData_def)

lemma year_boundary_carry:
  "carry_forward (preceding_bill (year_boundary_store 7 2026) 1 7 1 2026) =
     \<lparr>electricity_final = 600, motor_final = 250\<rparr>"
  by (simp add: carry_forward_def preceding_bill_def preceding_period_def year_boundary_store_def
      bill_matches_def decBillData_def)

lemma year_boundary_no_carry:
  "carry_forward (preceding_bill (year_boundary_store 7 2026) 1 7 3 2026) = zero_readings"
  by (simp add: carry_forward_def preceding_bill_def preceding_period_def year_boundary_store_def
      bill_matches_def decBillData_def)

lemma january_store_returns:
  "get_bill_with_details 7 1 2026 1 (january_store 7 2026) =
     Inr \<lparr>bwd_bill = Some (bill_to_json
            \<lparr>mb_id = 1, mb_user_id = Some 1,
             mb_data = (decBillData 7 2026)
               \<lparr>bill_month := 1, bill_year := 2026,
                electricity_initial_reading := 600, electricity_final_reading := 680,
                motor_initial_reading := 250, motor_final_reading := 290\<rparr>,
             mb_created_at = 3, mb_updated_at = 3\<rparr>),
          bwd_expenses = [], bwd_payments = [],
          bwd_previous_readings = \<lparr>electricity_final = 600, motor_final = 250\<rparr>\<rparr>"
  by (simp add: get_bill_with_details_def v_prev_period_def january_store_def
      year_boundary_store_def bill_matches_def decBillData_def Let_def)

text \<open>
  Claim C5 says that a fetch for a key without a bill row returns the aggregate with
  \<open>bill\<close> absent, no expenses, no payments and the carry-forward readings, on the combined
  (RPC) path as on the decomposed one. On the fixture store, which has the December 2025
  bill of renter 7 (final readings 600 and 250) and no bill for January 2026, the RPC
  function does not return this aggregate for January: its first statement finds no row,
  and the \<open>SELECT\<close> that is there for this very case raises, since the common table
  expression it reads belongs to the statement before it. \<open>supabase.rpc\<close> then reports an
  error, and what \<open>getBillWithDetails\<close> returns is the result of its decomposed reads.
\<close>

theorem get_bill_with_details_no_bill_raises:
  "get_bill_with_details 7 1 2026 1 (year_boundary_store 7 2026) =
     Inl ''relation previous_readings does not exist'' \<and>
   rpc_get_bill_with_details
     \<lparr>auth_user = Some 1, rpc_available = True, db = year_boundary_store 7 2026\<rparr> 7 1 2026 1 =
     Inl ''relation previous_readings does not exist'' \<and>
   getBillWithDetails_fallback
     \<lparr>auth_user = Some 1, rpc_available = True, db = year_boundary_store 7 2026\<rparr> 7 1 2026 =
     \<lparr>bwd_bill = None, bwd_expenses = [], bwd_payments = [],
      bwd_previous_readings = \<lparr>electricity_final = 600, motor_final = 250\<rparr>\<rparr> \<and>
   getBillWithDetails
     \<lparr>auth_user = Some 1, rpc_available = True, db = year_boundary_store 7 2026\<rparr> 7 1 2026 =
     Inr \<lparr>bwd_bill = None, bwd_expenses = [], bwd_payments = [],
          bwd_previous_readings = \<lparr>electricity_final = 600, motor_final = 250\<rparr>\<rparr>"
  by (simp add: getBillWithDetails_eq getBillWithDetails_body_def rpc_get_bill_with_details_def
      get_bill_with_details_def getBillWithDetails_fallback_def getMonthlyBill_def
      getMonthlyBill_try_def getPreviousMonthBill_def prevMonthYear_def v_prev_period_def
      single_def maybeSingle_def readings_of_def zero_readings_def bill_to_json_def
      year_boundary_store_def bill_matches_def decBillData_def Let_def)

text \<open>
  Claim C6. Both the RPC function and \<open>getPreviousMonthBill\<close> take (12, year - 1) as the
  period preceding month 1 and (month - 1, year) as the period preceding a month above 1.
  Whenever the RPC function returns, its \<open>previous_readings\<close> are the final readings of the
  user's bill for that preceding period (zero without such a bill). When the session is
  authenticated, the tenant is one of the user's renters, the store satisfies its key
  constraints and answers within the 5000 ms of the timeout, the fetch returns with these
  readings, whether the RPC function is deployed or not; in particular a fetch for tenant
  7, month 1 of 2026, with a bill for month 12 of 2025 whose final readings are 600 and
  250, returns exactly these. (With the function deployed and no bill for the fetched
  month, the function raises and the readings come from the decomposed reads.)
\<close>

theorem previous_period_carry_forward:
  "v_prev_period 1 year = (12, year - 1) \<and> prevMonthYear 1 year = (12, year - 1) \<and>
   (1 < month \<longrightarrow> v_prev_period month year = (month - 1, year) \<and>
                   prevMonthYear month year = (month - 1, year)) \<and>
   (\<forall>r. get_bill_with_details renterId month year user d = Inr r \<longrightarrow>
        bwd_previous_readings r = carry_forward (preceding_bill d user renterId month year)) \<and>
   (auth_user sb = Some user \<and> schema_constraints (db sb) \<and>
    renter_accessible (db sb) user renterId \<and> response_ms (db sb) = Some t \<and> t \<le> 5000 \<longrightarrow>
      (\<exists>r. getBillWithDetails (sb\<lparr>rpc_available := True\<rparr>) renterId month year = Inr r \<and>
           bwd_previous_readings r = carry_forward (preceding_bill (db sb) user renterId month year)) \<and>
      (\<exists>r. getBillWithDetails (sb\<lparr>rpc_available := False\<rparr>) renterId month year = Inr r \<and>
           bwd_previous_readings r = carry_forward (preceding_bill (db sb) user renterId month year))) \<and>
   (auth_user sb = Some user \<and> schema_constraints (db sb) \<and>
    renter_accessible (db sb) user 7 \<and> response_ms (db sb) = Some t \<and> t \<le> 5000 \<and>
    b \<in> set (monthly_bills (db sb)) \<and> bill_matches 7 12 2025 user b \<and>
    electricity_final_reading (mb_data b) = 600 \<and> motor_final_reading (mb_data b) = 250 \<longrightarrow>
      (\<exists>r. getBillWithDetails (sb\<lparr>rpc_available := True\<rparr>) 7 1 2026 = Inr r \<and>
           bwd_previous_readings r = \<lparr>electricity_final = 600, motor_final = 250\<rparr>) \<and>
      (\<exists>r. getBillWithDetails (sb\<lparr>rpc_available := False\<rparr>) 7 1 2026 = Inr r \<and>
           bwd_previous_readings r = \<lparr>electricity_final = 600, motor_final = 250\<rparr>))"
proof -
  have p1: "v_prev_period 1 year = (12, year - 1)"
    by (simp add: v_prev_period_def)
  have p2: "prevMonthYear 1 year = (12, year - 1)"
    by (simp add: prevMonthYear_def Let_def)
  have p3: "1 < month \<longrightarrow> v_prev_period month year = (month - 1, year) \<and>
                   prevMonthYear month year = (month - 1, year)"
    by (simp add: v_prev_period_def prevMonthYear_def Let_def)
  have f: "\<forall>r. get_bill_with_details renterId month year user d = Inr r \<longrightarrow>
        bwd_previous_readings r = carry_forward (preceding_bill d user renterId month year)"
    by (intro allI impI) (rule rpc_previous_readings)
  have g: "auth_user sb = Some user \<and> schema_constraints (db sb) \<and>
      renter_accessible (db sb) user renterId \<and> response_ms (db sb) = Some t \<and> t \<le> 5000 \<longrightarrow>
      (\<exists>r. getBillWithDetails (sb\<lparr>rpc_available := True\<rparr>) renterId month year = Inr r \<and>
           bwd_previous_readings r = carry_forward (preceding_bill (db sb) user renterId month year)) \<and>
      (\<exists>r. getBillWithDetails (sb\<lparr>rpc_available := False\<rparr>) renterId month year = Inr r \<and>
           bwd_previous_readings r = carry_forward (preceding_bill (db sb) user renterId month year))"
  proof
    assume h: "auth_user sb = Some user \<and> schema_constraints (db sb) \<and>
      renter_accessible (db sb) user renterId \<and> response_ms (db sb) = Some t \<and> t \<le> 5000"
    then have "auth_user sb = Some user" and "schema_constraints (db sb)"
      and "renter_accessible (db sb) user renterId"
      and "response_ms (db sb) = Some t" and "t \<le> 5000" by simp_all
    then show "(\<exists>r. getBillWithDetails (sb\<lparr>rpc_available := True\<rparr>) renterId month year = Inr r \<and>
           bwd_previous_readings r = carry_forward (preceding_bill (db sb) user renterId month year)) \<and>
      (\<exists>r. getBillWithDetails (sb\<lparr>rpc_available := False\<rparr>) renterId month year = Inr r \<and>
           bwd_previous_readings r = carry_forward (preceding_bill (db sb) user renterId month year))"
      by (rule both_paths_previous_readings)
  qed
  have a: "auth_user sb = Some user \<and> schema_constraints (db sb) \<and>
      renter_accessible (db sb) user 7 \<and> response_ms (db sb) = Some t \<and> t \<le> 5000 \<and>
      b \<in> set (monthly_bills (db sb)) \<and> bill_matches 7 12 2025 user b \<and>
      electricity_final_reading (mb_data b) = 600 \<and> motor_final_reading (mb_data b) = 250 \<longrightarrow>
      (\<exists>r. getBillWithDetails (sb\<lparr>rpc_available := True\<rparr>) 7 1 2026 = Inr r \<and>
           bwd_previous_readings r = \<lparr>electricity_final = 600, motor_final = 250\<rparr>) \<and>
      (\<exists>r. getBillWithDetails (sb\<lparr>rpc_available := False\<rparr>) 7 1 2026 = Inr r \<and>
           bwd_previous_readings r = \<lparr>electricity_final = 600, motor_final = 250\<rparr>)"
  proof
    assume h: "auth_user sb = Some user \<and> schema_constraints (db sb) \<and>
      renter_accessible (db sb) user 7 \<and> response_ms (db sb) = Some t \<and> t \<le> 5000 \<and>
      b \<in> set (monthly_bills (db sb)) \<and> bill_matches 7 12 2025 user b \<and>
      electricity_final_reading (mb_data b) = 600 \<and> motor_final_reading (mb_data b) = 250"
    then have h1: "auth_user sb = Some user" and h2: "schema_constraints (db sb)"
      and h3: "renter_accessible (db sb) user 7"
      and ht: "response_ms (db sb) = Some t" and ht': "t \<le> 5000"
      and h4: "b \<in> set (monthly_bills (db sb))"
      and h5: "bill_matches 7 12 2025 user b"
      and h6: "electricity_final_reading (mb_data b) = 600"
      and h7: "motor_final_reading (mb_data b) = 250"
      by simp_all
    from h5 have "bill_matches 7 (fst (preceding_period 1 2026)) (snd (preceding_period 1 2026)) user b"
      by (simp add: preceding_period_def)
    with h2 h4 have "carry_forward (preceding_bill (db sb) user 7 1 2026) =
        \<lparr>electricity_final = electricity_final_reading (mb_data b),
         motor_final = motor_final_reading (mb_data b)\<rparr>"
      by (rule carry_forward_of_row)
    then have e: "carry_forward (preceding_bill (db sb) user 7 1 2026) =
        \<lparr>electricity_final = 600, motor_final = 250\<rparr>"
      by (simp add: h6 h7)
    from both_paths_previous_readings [OF h1 h2 h3 ht ht', of 1 2026]
    show "(\<exists>r. getBillWithDetails (sb\<lparr>rpc_available := True\<rparr>) 7 1 2026 = Inr r \<and>
           bwd_previous_readings r = \<lparr>electricity_final = 600, motor_final = 250\<rparr>) \<and>
      (\<exists>r. getBillWithDetails (sb\<lparr>rpc_available := False\<rparr>) 7 1 2026 = Inr r \<and>
           bwd_previous_readings r = \<lparr>electricity_final = 600, motor_final = 250\<rparr>)"
      unfolding e .
  qed
  show ?thesis
    by (rule conjI [OF p1 conjI [OF p2 conjI [OF p3 conjI [OF f conjI [OF g a]]]]])
qed

theorem previous_period_carry_forward_witness:
  "v_prev_period 1 2026 = (12, 2025) \<and> prevMonthYear 1 2026 = (12, 2025) \<and>
   v_prev_period 5 2026 = (4, 2026) \<and> prevMonthYear 5 2026 = (4, 2026) \<and>
   (\<exists>r. get_bill_with_details 7 1 2026 1 (january_store 7 2026) = Inr r \<and>
        bwd_previous_readings r = \<lparr>electricity_final = 600, motor_final = 250\<rparr>) \<and>
   (\<exists>r. getBillWithDetails \<lparr>auth_user = Some 1, rpc_available = True, db = year_boundary_store 7 2026\<rparr>
          7 1 2026 = Inr r \<and>
        bwd_previous_readings r = \<lparr>electricity_final = 600, motor_final = 250\<rparr>) \<and>
   (\<exists>r. getBillWithDetails \<lparr>auth_user = Some 1, rpc_available = False, db = year_boundary_store 7 2026\<rparr>
          7 1 2026 = Inr r \<and>
        bwd_previous_readings r = \<lparr>electricity_final = 600, motor_final = 250\<rparr>)"
proof -
  let ?sb = "\<lparr>auth_user = Some 1, rpc_available = True, db = year_boundary_store 7 2026\<rparr>"
  let ?b = "\<lparr>mb_id = 0, mb_user_id = Some 1, mb_data = decBillData 7 2026,
          mb_created_at = 0, mb_updated_at = 0\<rparr>"
  let ?J = "\<lparr>bwd_bill = Some (bill_to_json
            \<lparr>mb_id = 1, mb_user_id = Some 1,
             mb_data = (decBillData 7 2026)
               \<lparr>bill_month := 1, bill_year := 2026,
                electricity_initial_reading := 600, electricity_final_reading := 680,
                motor_initial_reading := 250, motor_final_reading := 290\<rparr>,
             mb_created_at = 3, mb_updated_at = 3\<rparr>),
          bwd_expenses = [], bwd_payments = [],
          bwd_previous_readings = \<lparr>electricity_final = 600, motor_final = 250\<rparr>\<rparr>"
  have h: "auth_user ?sb = Some 1 \<and> schema_constraints (db ?sb) \<and>
    renter_accessible (db ?sb) 1 7 \<and> response_ms (db ?sb) = Some 120 \<and> (120::nat) \<le> 5000 \<and>
    ?b \<in> set (monthly_bills (db ?sb)) \<and> bill_matches 7 12 2025 1 ?b \<and>
    electricity_final_reading (mb_data ?b) = 600 \<and> motor_final_reading (mb_data ?b) = 250"
  proof -
    have h2: "schema_constraints (db ?sb)" using year_boundary_store_ok by simp
    have h3: "renter_accessible (db ?sb) 1 7" using year_boundary_renter by simp
    have ht: "response_ms (db ?sb) = Some 120" by (simp add: year_boundary_store_def)
    have h4: "?b \<in> set (monthly_bills (db ?sb))" by (simp add: year_boundary_store_def)
    have h5: "bill_matches 7 12 2025 1 ?b" by (simp add: bill_matches_def decBillData_def)
    have h6: "electricity_final_reading (mb_data ?b) = 600 \<and> motor_final_reading (mb_data ?b) = 250"
      by (simp add: decBillData_def)
    from h2 h3 ht h4 h5 h6 show ?thesis by simp
  qed
  have m: "(1::int) < 5" by simp
  note th = previous_period_carry_forward [where year = 2026 and month = 5 and renterId = 7
      and user = 1 and d = "january_store 7 2026" and sb = ?sb and t = 120 and b = ?b]
  note periods1 = th [THEN conjunct1]
  note periods2 = th [THEN conjunct2, THEN conjunct1]
  note periods3 = th [THEN conjunct2, THEN conjunct2, THEN conjunct1, rule_format, OF m]
  have car: "carry_forward (preceding_bill (january_store 7 2026) 1 7 1 2026) =
      \<lparr>electricity_final = 600, motor_final = 250\<rparr>"
    by (simp add: carry_forward_def preceding_bill_def preceding_period_def january_store_def
        year_boundary_store_def bill_matches_def decBillData_def)
  from previous_period_carry_forward [where month = 1 and year = 2026 and renterId = 7
      and user = 1 and d = "january_store 7 2026",
      THEN conjunct2, THEN conjunct2, THEN conjunct2, THEN conjunct1, rule_format,
      OF january_store_returns]
  have "bwd_previous_readings ?J = \<lparr>electricity_final = 600, motor_final = 250\<rparr>"
    unfolding car .
  with january_store_returns
  have c5: "\<exists>r. get_bill_with_details 7 1 2026 1 (january_store 7 2026) = Inr r \<and>
        bwd_previous_readings r = \<lparr>electricity_final = 600, motor_final = 250\<rparr>"
    by (intro exI [of _ ?J] conjI)
  from th [THEN conjunct2, THEN conjunct2, THEN conjunct2, THEN conjunct2, THEN conjunct2] h
  have ex: "(\<exists>r. getBillWithDetails (?sb\<lparr>rpc_available := True\<rparr>) 7 1 2026 = Inr r \<and>
           bwd_previous_readings r = \<lparr>electricity_final = 600, motor_final = 250\<rparr>) \<and>
      (\<exists>r. getBillWithDetails (?sb\<lparr>rpc_available := False\<rparr>) 7 1 2026 = Inr r \<and>
           bwd_previous_readings r = \<lparr>electricity_final = 600, motor_final = 250\<rparr>)"
    by blast
  from periods1 periods2 periods3 c5 ex show ?thesis
    by simp
qed

text \<open>
  Claim C2 says that a fetch for a tenant that does not exist, or that belongs to another
  user, fails with a not-found or access-denied error. Evaluated on the fixture store, the
  fetch instead succeeds with the empty aggregate, whether the RPC function is deployed or
  not: for renter 999999, which does not exist, and for user 2 asking for renter 7 of
  user 1. The error thrown in \<open>getMonthlyBill\<close> is caught by the method's own \<open>catch\<close>;
  the RPC function has no check of the renter, finds no bill row of the user and raises at
  its second \<open>SELECT\<close>, whereupon the client turns to the decomposed reads.
\<close>

theorem getBillWithDetails_inaccessible_renter:
  "getBillWithDetails \<lparr>auth_user = Some 1, rpc_available = True, db = year_boundary_store 7 2026\<rparr>
     999999 1 2025 =
     Inr \<lparr>bwd_bill = None, bwd_expenses = [], bwd_payments = [],
          bwd_previous_readings = \<lparr>electricity_final = 0, motor_final = 0\<rparr>\<rparr> \<and>
   getBillWithDetails \<lparr>auth_user = Some 1, rpc_available = False, db = year_boundary_store 7 2026\<rparr>
     999999 1 2025 =
     Inr \<lparr>bwd_bill = None, bwd_expenses = [], bwd_payments = [],
          bwd_previous_readings = \<lparr>electricity_final = 0, motor_final = 0\<rparr>\<rparr> \<and>
   getBillWithDetails \<lparr>auth_user = Some 2, rpc_available = True, db = year_boundary_store 7 2026\<rparr>
     7 12 2025 =
     Inr \<lparr>bwd_bill = None, bwd_expenses = [], bwd_payments = [],
          bwd_previous_readings = \<lparr>electricity_final = 0, motor_final = 0\<rparr>\<rparr> \<and>
   getBillWithDetails \<lparr>auth_user = Some 2, rpc_available = False, db = year_boundary_store 7 2026\<rparr>
     7 12 2025 =
     Inr \<lparr>bwd_bill = None, bwd_expenses = [], bwd_payments = [],
          bwd_previous_readings = \<lparr>electricity_final = 0, motor_final = 0\<rparr>\<rparr>"
  by (simp add: getBillWithDetails_eq getBillWithDetails_body_def rpc_get_bill_with_details_def
      get_bill_with_details_def getBillWithDetails_fallback_def getMonthlyBill_def
      getMonthlyBill_try_def getPreviousMonthBill_def prevMonthYear_def v_prev_period_def
      single_def maybeSingle_def readings_of_def zero_readings_def
      year_boundary_store_def bill_matches_def decBillData_def Let_def)

section \<open>Properties of the preloader\<close>

lemma digit_cases: "d < 10 \<Longrightarrow> d = 0 \<or> d = 1 \<or> d = 2 \<or> d = 3 \<or> d = 4 \<or> d = 5 \<or> d = 6 \<or> d = 7 \<or> d = 8 \<or> d = (9::nat)"
  by arith

lemma digit_val_digit_char: "d < 10 \<Longrightarrow> digit_val (digit_char d) = d"
  using digit_cases [of d] by (auto simp: digit_val_def digit_char_def)

lemma digit_char_not_minus: "d < 10 \<Longrightarrow> digit_char d \<noteq> CHR ''-''"
  using digit_cases [of d] by (auto simp: digit_char_def)

lemma read_show_nat: "read_nat (show_nat n) = n"
proof (induction n rule: show_nat.induct)
  case (1 n)
  show ?case
  proof (cases "n < 10")
    case True
    then show ?thesis
      by (simp add: show_nat.simps [of n] read_nat_def digit_val_digit_char)
  next
    case False
    with "1.IH" have "read_nat (show_nat (n div 10)) = n div 10" by simp
    with False show ?thesis
      by (simp add: show_nat.simps [of n] read_nat_def digit_val_digit_char)
  qed
qed

lemma show_nat_inj: "show_nat m = show_nat n \<Longrightarrow> m = n"
  by (metis read_show_nat)

lemma show_nat_no_minus: "CHR ''-'' \<notin> set (show_nat n)"
proof (induction n rule: show_nat.induct)
  case (1 n)
  show ?case
  proof (cases "n < 10")
    case True
    then show ?thesis
      using digit_char_not_minus [of n] by (simp add: show_nat.simps [of n])
  next
    case False
    with "1.IH" have "CHR ''-'' \<notin> set (show_nat (n div 10))" by simp
    moreover have "digit_char (n mod 10) \<noteq> CHR ''-''"
      by (rule digit_char_not_minus) simp
    ultimately show ?thesis using False
      by (simp add: show_nat.simps [of n])
  qed
qed

lemma takeWhile_up_to: "c \<notin> set xs \<Longrightarrow> takeWhile (\<lambda>x. x \<noteq> c) (xs @ c # ys) = xs"
  by (induction xs) auto

lemma last_segment_eq:
  assumes "xs @ CHR ''-'' # d1 = ys @ CHR ''-'' # d2"
    and "CHR ''-'' \<notin> set d1" and "CHR ''-'' \<notin> set d2"
  shows "d1 = d2"
proof -
  from assms(1) have "rev (xs @ CHR ''-'' # d1) = rev (ys @ CHR ''-'' # d2)" by simp
  then have "rev d1 @ CHR ''-'' # rev xs = rev d2 @ CHR ''-'' # rev ys" by simp
  then have "takeWhile (\<lambda>x. x \<noteq> CHR ''-'') (rev d1 @ CHR ''-'' # rev xs) =
             takeWhile (\<lambda>x. x \<noteq> CHR ''-'') (rev d2 @ CHR ''-'' # rev ys)" by simp
  moreover have "takeWhile (\<lambda>x. x \<noteq> CHR ''-'') (rev d1 @ CHR ''-'' # rev xs) = rev d1"
    using assms(2) by (simp add: takeWhile_up_to)
  moreover have "takeWhile (\<lambda>x. x \<noteq> CHR ''-'') (rev d2 @ CHR ''-'' # rev ys) = rev d2"
    using assms(3) by (simp add: takeWhile_up_to)
  ultimately have "rev d1 = rev d2" by simp
  then show ?thesis by simp
qed

lemma getCacheKey_month_inj:
  assumes "getCacheKey r1 m1 y1 = getCacheKey r2 m2 y2" and "0 \<le> m1" and "0 \<le> m2"
  shows "m1 = m2"
proof -
  from assms have "(show_int r1 @ ''-'' @ show_int y1) @ CHR ''-'' # show_nat (nat m1) =
                   (show_int r2 @ ''-'' @ show_int y2) @ CHR ''-'' # show_nat (nat m2)"
    by (simp add: getCacheKey_def show_int_def)
  then have "show_nat (nat m1) = show_nat (nat m2)"
    by (rule last_segment_eq) (rule show_nat_no_minus)+
  then have "nat m1 = nat m2" by (rule show_nat_inj)
  with assms(2,3) show ?thesis by simp
qed

lemma loadIfNotCached_cache:
  "cache (loadIfNotCached api renterId month year monthlyRent now c) =
     (case cache c (getCacheKey renterId month year) of
        Some e \<Rightarrow>
          (if now - timestamp e > CACHE_TTL
           then (cache c)(getCacheKey renterId month year \<mapsto> e\<lparr>isStale := True\<rparr>)
           else cache c)
      | None \<Rightarrow>
          (case loadIfNotCached_try api renterId month year monthlyRent now of
             Inl error \<Rightarrow> cache c
           | Inr d \<Rightarrow> (cache c)(getCacheKey renterId month year \<mapsto>
                         \<lparr>data = d, timestamp = now, isStale = False\<rparr>)))"
  by (simp add: loadIfNotCached_def BillCache_get_def BillCache_set_def Let_def
      split: option.splits sum.splits)

lemma loadIfNotCached_at_key:
  "cache (loadIfNotCached api renterId month year monthlyRent now c) (getCacheKey renterId month year) =
     loaded_entry api renterId month year monthlyRent now (cache c (getCacheKey renterId month year))"
  by (simp add: loadIfNotCached_cache loaded_entry_def split: option.splits sum.splits)

lemma loadIfNotCached_other_key:
  "k \<noteq> getCacheKey renterId month year \<Longrightarrow>
   cache (loadIfNotCached api renterId month year monthlyRent now c) k = cache c k"
  by (simp add: loadIfNotCached_cache split: option.splits sum.splits)

lemma fixture_december:
  "getMonthlyBill \<lparr>auth_user = Some 1, rpc_available = True, db = year_boundary_store 7 2025\<rparr> 7 12 2024 =
     Some (bill_to_json \<lparr>mb_id = 0, mb_user_id = Some 1, mb_data = decBillData 7 2025,
                         mb_created_at = 0, mb_updated_at = 0\<rparr>)"
  by (simp add: getMonthlyBill_def getMonthlyBill_try_def single_def maybeSingle_def
      year_boundary_store_def bill_matches_def decBillData_def)

lemma fixture_other_months:
  "m \<noteq> 12 \<Longrightarrow>
   getMonthlyBill \<lparr>auth_user = Some 1, rpc_available = True, db = year_boundary_store 7 2025\<rparr> 7 m y = None"
  by (simp add: getMonthlyBill_def getMonthlyBill_try_def single_def maybeSingle_def
      year_boundary_store_def bill_matches_def decBillData_def)

lemma fixture_no_children:
  "getAdditionalExpenses \<lparr>auth_user = Some 1, rpc_available = True, db = year_boundary_store 7 2025\<rparr> b = [] \<and>
   getBillPayments \<lparr>auth_user = Some 1, rpc_available = True, db = year_boundary_store 7 2025\<rparr> b = []"
  by (simp add: getAdditionalExpenses_def getBillPayments_def year_boundary_store_def
      split: option.splits)

lemma fixture_keys: "getCacheKey 7 12 2024 = ''7-2024-12''" "getCacheKey 7 2 2025 = ''7-2025-2''"
    "getCacheKey 7 0 2025 = ''7-2025-0''" "getCacheKey 7 13 2025 = ''7-2025-13''"
    by (simp_all add: getCacheKey_def show_int_def show_nat.simps digit_char_def)

lemma fixture_load_december: "loadIfNotCached_try (SupabaseService \<lparr>auth_user = Some 1, rpc_available = True, db = year_boundary_store 7 2025\<rparr>) 7 12 2024 6000 1000 =
      Inr (billData_existing
                    (bill_to_json \<lparr>mb_id = 0, mb_user_id = Some 1, mb_data = decBillData 7 2025,
                                   mb_created_at = 0, mb_updated_at = 0\<rparr>) [] [] 1000)"
    using fixture_december fixture_no_children
    by (simp add: loadIfNotCached_try_def SupabaseService_def)

lemma fixture_load_february: "loadIfNotCached_try (SupabaseService \<lparr>auth_user = Some 1, rpc_available = True, db = year_boundary_store 7 2025\<rparr>) 7 2 2025 6000 1000 =
      Inr (billData_fresh 6000 None 1000)"
    using fixture_other_months [of 2 2025] fixture_other_months [of 1 2025]
    by (simp add: loadIfNotCached_try_def SupabaseService_def getPreviousMonthBill_def
        prevMonthYear_def Let_def)

lemma failing_service_load: "loadIfNotCached_try \<lparr>api_getMonthlyBill = (\<lambda>r m y. Inl ''Failed to fetch''),
             api_getAdditionalExpenses = (\<lambda>b. Inl ''Failed to fetch''),
             api_getBillPayments = (\<lambda>b. Inl ''Failed to fetch''),
             api_getPreviousMonthBill = (\<lambda>r m y. Inl ''Failed to fetch'')\<rparr> 7 12 2024 6000 1000 = Inl ''Failed to fetch''"
    by (simp add: loadIfNotCached_try_def)

text \<open>
  Claim C7. For a month between 1 and 12, \<open>preload\<close> targets the previous key, (12,
  year - 1) for month 1 and (month - 1, year) otherwise, and the next key, (1, year + 1)
  for month 12 and (month + 1, year) otherwise; both target months lie between 1 and 12.
  At each target key an entry already in the cache is kept (never fetched again), an
  absent one is fetched and stored, and a failed fetch is swallowed: the key stays absent
  and \<open>preload\<close> still completes. No other key of the cache changes.
\<close>

theorem preload_adjacent_months:
  assumes "1 \<le> month" and "month \<le> 12"
    and t: "preload_targets month year = ((prevMonth, prevYear), (nextMonth, nextYear))"
  shows "prevMonth = (if month = 1 then 12 else month - 1) \<and>
         prevYear = (if month = 1 then year - 1 else year) \<and>
         nextMonth = (if month = 12 then 1 else month + 1) \<and>
         nextYear = (if month = 12 then year + 1 else year) \<and>
         1 \<le> prevMonth \<and> prevMonth \<le> 12 \<and> 1 \<le> nextMonth \<and> nextMonth \<le> 12 \<and>
         cache (BillCache_preload api renterId month year monthlyRent now c)
             (getCacheKey renterId prevMonth prevYear) =
           loaded_entry api renterId prevMonth prevYear monthlyRent now
             (cache c (getCacheKey renterId prevMonth prevYear)) \<and>
         cache (BillCache_preload api renterId month year monthlyRent now c)
             (getCacheKey renterId nextMonth nextYear) =
           loaded_entry api renterId nextMonth nextYear monthlyRent now
             (cache c (getCacheKey renterId nextMonth nextYear)) \<and>
         (\<forall>k. k \<noteq> getCacheKey renterId prevMonth prevYear \<and>
              k \<noteq> getCacheKey renterId nextMonth nextYear \<longrightarrow>
              cache (BillCache_preload api renterId month year monthlyRent now c) k = cache c k)"
proof -
  from t have pm: "prevMonth = (if month = 1 then 12 else month - 1)"
    and py: "prevYear = (if month = 1 then year - 1 else year)"
    and nm: "nextMonth = (if month = 12 then 1 else month + 1)"
    and ny: "nextYear = (if month = 12 then year + 1 else year)"
    by (simp_all add: preload_targets_def Let_def)
  from pm nm assms(1,2) have range: "1 \<le> prevMonth \<and> prevMonth \<le> 12 \<and> 1 \<le> nextMonth \<and> nextMonth \<le> 12"
    by auto
  from pm nm assms(1,2) have "prevMonth \<noteq> nextMonth" by auto
  with range have keys: "getCacheKey renterId prevMonth prevYear \<noteq> getCacheKey renterId nextMonth nextYear"
    using getCacheKey_month_inj [of renterId prevMonth prevYear renterId nextMonth nextYear] by auto
  let ?c1 = "loadIfNotCached api renterId prevMonth prevYear monthlyRent now c"
  have pre: "BillCache_preload api renterId month year monthlyRent now c =
      loadIfNotCached api renterId nextMonth nextYear monthlyRent now ?c1"
    by (simp add: BillCache_preload_def t)
  have at_prev: "cache (BillCache_preload api renterId month year monthlyRent now c)
             (getCacheKey renterId prevMonth prevYear) =
           loaded_entry api renterId prevMonth prevYear monthlyRent now
             (cache c (getCacheKey renterId prevMonth prevYear))"
    using keys by (simp add: pre loadIfNotCached_other_key loadIfNotCached_at_key)
  have at_next: "cache (BillCache_preload api renterId month year monthlyRent now c)
             (getCacheKey renterId nextMonth nextYear) =
           loaded_entry api renterId nextMonth nextYear monthlyRent now
             (cache c (getCacheKey renterId nextMonth nextYear))"
    using keys [symmetric] by (simp add: pre loadIfNotCached_at_key loadIfNotCached_other_key)
  have others: "\<forall>k. k \<noteq> getCacheKey renterId prevMonth prevYear \<and>
              k \<noteq> getCacheKey renterId nextMonth nextYear \<longrightarrow>
              cache (BillCache_preload api renterId month year monthlyRent now c) k = cache c k"
    by (simp add: pre loadIfNotCached_other_key)
  from pm py nm ny range at_prev at_next others show ?thesis
    by (intro conjI) simp_all
qed

theorem preload_adjacent_months_witness:
  "preload_targets 1 2025 = ((12, 2024), (2, 2025)) \<and>
   cache (BillCache_preload
            (SupabaseService \<lparr>auth_user = Some 1, rpc_available = True, db = year_boundary_store 7 2025\<rparr>)
            7 1 2025 6000 1000 new_BillCache) (getCacheKey 7 12 2024) =
     Some \<lparr>data = billData_existing
                    (bill_to_json \<lparr>mb_id = 0, mb_user_id = Some 1, mb_data = decBillData 7 2025,
                                   mb_created_at = 0, mb_updated_at = 0\<rparr>) [] [] 1000,
           timestamp = 1000, isStale = False\<rparr> \<and>
   cache (BillCache_preload
            (SupabaseService \<lparr>auth_user = Some 1, rpc_available = True, db = year_boundary_store 7 2025\<rparr>)
            7 1 2025 6000 1000 new_BillCache) (getCacheKey 7 2 2025) =
     Some \<lparr>data = billData_fresh 6000 None 1000, timestamp = 1000, isStale = False\<rparr> \<and>
   cache (BillCache_preload
            (SupabaseService \<lparr>auth_user = Some 1, rpc_available = True, db = year_boundary_store 7 2025\<rparr>)
            7 1 2025 6000 1000 new_BillCache) (getCacheKey 7 0 2025) = None \<and>
   cache (BillCache_preload
            (SupabaseService \<lparr>auth_user = Some 1, rpc_available = True, db = year_boundary_store 7 2025\<rparr>)
            7 1 2025 6000 1000 new_BillCache) (getCacheKey 7 13 2025) = None \<and>
   cache (BillCache_preload
            \<lparr>api_getMonthlyBill = (\<lambda>r m y. Inl ''Failed to fetch''),
             api_getAdditionalExpenses = (\<lambda>b. Inl ''Failed to fetch''),
             api_getBillPayments = (\<lambda>b. Inl ''Failed to fetch''),
             api_getPreviousMonthBill = (\<lambda>r m y. Inl ''Failed to fetch'')\<rparr>
            7 1 2025 6000 1000 new_BillCache) (getCacheKey 7 12 2024) = None"
proof -
  let ?sb = "\<lparr>auth_user = Some 1, rpc_available = True, db = year_boundary_store 7 2025\<rparr>"
  let ?down = "\<lparr>api_getMonthlyBill = (\<lambda>r m y. Inl ''Failed to fetch''),
             api_getAdditionalExpenses = (\<lambda>b. Inl ''Failed to fetch''),
             api_getBillPayments = (\<lambda>b. Inl ''Failed to fetch''),
             api_getPreviousMonthBill = (\<lambda>r m y. Inl ''Failed to fetch'')\<rparr>"
  have m1: "(1::int) \<le> 1" and m2: "(1::int) \<le> 12" by simp_all
  have t: "preload_targets 1 2025 = ((12, 2024), (2, 2025))"
    by (simp add: preload_targets_def)
  have new: "cache new_BillCache x = None" for x
    by (simp add: new_BillCache_def)
  note up = preload_adjacent_months [OF m1 m2 t, of "SupabaseService ?sb" 7 6000 1000 new_BillCache]
  note dn = preload_adjacent_months [OF m1 m2 t, of ?down 7 6000 1000 new_BillCache]
  note up8 = up [THEN conjunct2, THEN conjunct2, THEN conjunct2, THEN conjunct2,
                 THEN conjunct2, THEN conjunct2, THEN conjunct2, THEN conjunct2]
  note dn8 = dn [THEN conjunct2, THEN conjunct2, THEN conjunct2, THEN conjunct2,
                 THEN conjunct2, THEN conjunct2, THEN conjunct2, THEN conjunct2]
  have a: "cache (BillCache_preload (SupabaseService ?sb) 7 1 2025 6000 1000 new_BillCache)
             (getCacheKey 7 12 2024) =
           Some \<lparr>data = billData_existing
                    (bill_to_json \<lparr>mb_id = 0, mb_user_id = Some 1, mb_data = decBillData 7 2025,
                                   mb_created_at = 0, mb_updated_at = 0\<rparr>) [] [] 1000,
                 timestamp = 1000, isStale = False\<rparr>"
    unfolding up8 [THEN conjunct1] new loaded_entry_def fixture_load_december by simp
  have b: "cache (BillCache_preload (SupabaseService ?sb) 7 1 2025 6000 1000 new_BillCache)
             (getCacheKey 7 2 2025) =
           Some \<lparr>data = billData_fresh 6000 None 1000, timestamp = 1000, isStale = False\<rparr>"
    unfolding up8 [THEN conjunct2, THEN conjunct1] new loaded_entry_def fixture_load_february by simp
  note others = up8 [THEN conjunct2, THEN conjunct2, rule_format]
  have c0: "cache (BillCache_preload (SupabaseService ?sb) 7 1 2025 6000 1000 new_BillCache)
             (getCacheKey 7 0 2025) = None"
    using others [of "getCacheKey 7 0 2025"] by (simp add: fixture_keys new)
  have c13: "cache (BillCache_preload (SupabaseService ?sb) 7 1 2025 6000 1000 new_BillCache)
             (getCacheKey 7 13 2025) = None"
    using others [of "getCacheKey 7 13 2025"] by (simp add: fixture_keys new)
  have d: "cache (BillCache_preload ?down 7 1 2025 6000 1000 new_BillCache)
             (getCacheKey 7 12 2024) = None"
    unfolding dn8 [THEN conjunct1] new loaded_entry_def failing_service_load by simp
  show ?thesis
    by (rule conjI [OF t conjI [OF a conjI [OF b conjI [OF c0 conjI [OF c13 d]]]]])
qed

section \<open>Properties of the reconciliation writer\<close>

subsection \<open>Conversions and single statements\<close>

lemma and_then_Inr: "and_then r f = Inr v \<longleftrightarrow> (\<exists>u. r = Inr u \<and> f u = Inr v)"
  by (cases r) (simp_all add: and_then_def)

lemma int4_in_Inr: "int4_in i = Inr v \<Longrightarrow> v = i"
  by (simp add: int4_in_def split: if_splits)

lemma cast_bill_data_key:
  assumes "cast_bill_data din p = Inr c"
  shows "renter_id c = renter_id p \<and> bill_month c = bill_month p \<and> bill_year c = bill_year p"
  using assms unfolding cast_bill_data_def and_then_Inr
  by (elim exE conjE) (auto dest: int4_in_Inr)

lemma zip_converted: "map converted (zip ids cs) = zip ids (map Inr cs)"
  by (simp add: zip_map2 converted_def case_prod_beta)

lemma update_expense_row_id [simp]: "ae_id (update_expense_row b i c ae) = ae_id ae"
  by (simp add: update_expense_row_def split: prod.splits)

lemma update_expense_row_bill [simp]:
  "ae_monthly_bill_id (update_expense_row b i c ae) = ae_monthly_bill_id ae"
  by (simp add: update_expense_row_def split: prod.splits)

lemma update_expense_row_view:
  "expense_row_view (update_expense_row b i c ae) =
     (if ae_id ae = i \<and> ae_monthly_bill_id ae = b then (i, c) else expense_row_view ae)"
  by (simp add: update_expense_row_def expense_row_view_def split: prod.splits)

lemma update_expense_row_twice:
  "ae_id ae = i \<Longrightarrow> ae_monthly_bill_id ae = b \<Longrightarrow>
   update_expense_row b i c (update_expense_row b j c' ae) = update_expense_row b i c ae"
  by (simp add: update_expense_row_def split: prod.splits)

lemma update_expense_row_untouched:
  "\<not> (ae_id ae = i \<and> ae_monthly_bill_id ae = b) \<Longrightarrow> update_expense_row b i c ae = ae"
  by (auto simp: update_expense_row_def split: prod.splits)

lemma inserted_expense_row_simps [simp]:
  "ae_id (inserted_expense_row i b c now) = i"
  "ae_monthly_bill_id (inserted_expense_row i b c now) = b"
  "expense_row_view (inserted_expense_row i b c now) = (i, c)"
  by (simp_all add: inserted_expense_row_def expense_row_view_def split: prod.splits)

lemma process_expenses_insert:
  "exp_id x = None \<Longrightarrow>
   process_expenses b now (x # xs) (acc, d) =
     (case cast_expense (date_in d) x of
        Inl e \<Rightarrow> Inl e
      | Inr c \<Rightarrow>
          if uuid_seq d \<in> ae_id ` set (additional_expenses d)
          then Inl ''duplicate key value violates unique constraint additional_expenses_pkey''
          else process_expenses b now xs
                 (acc @ [uuid_seq d],
                  d\<lparr>uuid_seq := uuid_seq d + 1,
                    additional_expenses := additional_expenses d @
                      [inserted_expense_row (uuid_seq d) b c now]\<rparr>))"
  by (simp add: gen_random_uuid_def inserted_expense_row_def split: sum.splits prod.splits)

lemma process_expenses_update:
  "exp_id x = Some i \<Longrightarrow>
   process_expenses b now (x # xs) (acc, d) =
     (case update_expense b i x d of
        Inl e \<Rightarrow> Inl e
      | Inr d1 \<Rightarrow> process_expenses b now xs (acc @ [i], d1))"
  by simp

declare process_expenses.simps(2) [simp del]

lemma update_payment_row_id [simp]: "bp_id (update_payment_row b i c bp) = bp_id bp"
  by (simp add: update_payment_row_def split: prod.splits)

lemma update_payment_row_bill [simp]:
  "bp_monthly_bill_id (update_payment_row b i c bp) = bp_monthly_bill_id bp"
  by (simp add: update_payment_row_def split: prod.splits)

lemma update_payment_row_view:
  "payment_row_view (update_payment_row b i c bp) =
     (if bp_id bp = i \<and> bp_monthly_bill_id bp = b then (i, c) else payment_row_view bp)"
  by (simp add: update_payment_row_def payment_row_view_def split: prod.splits)

lemma update_payment_row_twice:
  "bp_id bp = i \<Longrightarrow> bp_monthly_bill_id bp = b \<Longrightarrow>
   update_payment_row b i c (update_payment_row b j c' bp) = update_payment_row b i c bp"
  by (simp add: update_payment_row_def split: prod.splits)

lemma update_payment_row_untouched:
  "\<not> (bp_id bp = i \<and> bp_monthly_bill_id bp = b) \<Longrightarrow> update_payment_row b i c bp = bp"
  by (auto simp: update_payment_row_def split: prod.splits)

lemma inserted_payment_row_simps [simp]:
  "bp_id (inserted_payment_row i b c now) = i"
  "bp_monthly_bill_id (inserted_payment_row i b c now) = b"
  "payment_row_view (inserted_payment_row i b c now) = (i, c)"
  by (simp_all add: inserted_payment_row_def payment_row_view_def split: prod.splits)

lemma process_payments_insert:
  "pay_id x = None \<Longrightarrow>
   process_payments b now (x # xs) (acc, d) =
     (case cast_payment (date_in d) x of
        Inl e \<Rightarrow> Inl e
      | Inr c \<Rightarrow>
          if uuid_seq d \<in> bp_id ` set (bill_payments d)
          then Inl ''duplicate key value violates unique constraint bill_payments_pkey''
          else process_payments b now xs
                 (acc @ [uuid_seq d],
                  d\<lparr>uuid_seq := uuid_seq d + 1,
                    bill_payments := bill_payments d @
                      [inserted_payment_row (uuid_seq d) b c now]\<rparr>))"
  by (simp add: gen_random_uuid_def inserted_payment_row_def split: sum.splits prod.splits)

lemma process_payments_update:
  "pay_id x = Some i \<Longrightarrow>
   process_payments b now (x # xs) (acc, d) =
     (case update_payment b i x d of
        Inl e \<Rightarrow> Inl e
      | Inr d1 \<Rightarrow> process_payments b now xs (acc @ [i], d1))"
  by simp

declare process_payments.simps(2) [simp del]

subsection \<open>The expense loop\<close>

lemma update_expense_cases:
  assumes "update_expense b i x d = Inr d1"
  obtains
    (none) "\<not> (\<exists>ae \<in> set (additional_expenses d). ae_id ae = i \<and> ae_monthly_bill_id ae = b)"
      "d1 = d"
  | (some) c where "\<exists>ae \<in> set (additional_expenses d). ae_id ae = i \<and> ae_monthly_bill_id ae = b"
      "cast_expense (date_in d) x = Inr c"
      "d1 = d\<lparr>additional_expenses := map (update_expense_row b i c) (additional_expenses d)\<rparr>"
proof (cases "\<exists>ae \<in> set (additional_expenses d). ae_id ae = i \<and> ae_monthly_bill_id ae = b")
  case False
  from assms have "d1 = d"
    unfolding update_expense_def if_not_P [OF False] by simp
  with False show thesis by (rule none)
next
  case True
  from assms obtain c where "cast_expense (date_in d) x = Inr c"
    and "d1 = d\<lparr>additional_expenses := map (update_expense_row b i c) (additional_expenses d)\<rparr>"
    unfolding update_expense_def if_P [OF True]
    by (cases "cast_expense (date_in d) x") simp_all
  with True show thesis by (rule some)
qed

lemma update_expense_effect:
  assumes "update_expense b i x d = Inr d1" and "exp_id x = Some i"
  shows "d1 = d\<lparr>additional_expenses := map (expense_update (date_in d) b x) (additional_expenses d)\<rparr>"
  using assms(1)
proof (cases rule: update_expense_cases)
  case none
  then have "map (expense_update (date_in d) b x) (additional_expenses d) = additional_expenses d"
    using assms(2)
    by (intro map_idI) (auto simp: expense_update_def update_expense_row_untouched split: sum.splits)
  with none show ?thesis by simp
next
  case (some c)
  with assms(2) show ?thesis by (simp add: expense_update_def)
qed

lemma incoming_expense_ids_Cons:
  "incoming_expense_ids (x # xs) =
     (case exp_id x of None \<Rightarrow> incoming_expense_ids xs | Some i \<Rightarrow> i # incoming_expense_ids xs)"
  by (simp add: incoming_expense_ids_def List.map_filter_simps split: option.splits)

lemma expense_rows_insert:
  "expense_rows (d\<lparr>additional_expenses := additional_expenses d @ [ae]\<rparr>) b =
     expense_rows d b @ (if ae_monthly_bill_id ae = b then [expense_row_view ae] else [])"
  by (simp add: expense_rows_def)

lemma expense_rows_uuid_seq [simp]: "expense_rows (d\<lparr>uuid_seq := n\<rparr>) b = expense_rows d b"
  by (simp add: expense_rows_def)

lemma fst_expense_row_view [simp]: "fst (expense_row_view ae) = ae_id ae"
  by (simp add: expense_row_view_def)

lemma set_expense_rows_update:
  assumes "\<exists>ae \<in> set (additional_expenses d). ae_id ae = i \<and> ae_monthly_bill_id ae = b"
  shows "set (expense_rows (d\<lparr>additional_expenses :=
              map (update_expense_row b i c) (additional_expenses d)\<rparr>) b) =
         {p \<in> set (expense_rows d b). fst p \<noteq> i} \<union> {(i, c)}"
proof -
  let ?T = "additional_expenses d"
  let ?Tb = "filter (\<lambda>ae. ae_monthly_bill_id ae = b) ?T"
  have l: "expense_rows (d\<lparr>additional_expenses := map (update_expense_row b i c) ?T\<rparr>) b =
        map (\<lambda>ae. if ae_id ae = i then (i, c) else expense_row_view ae) ?Tb"
    by (simp add: expense_rows_def filter_map o_def update_expense_row_view cong: map_cong)
  from assms obtain ae0 where ae0: "ae0 \<in> set ?Tb" "ae_id ae0 = i" by auto
  show ?thesis
  proof (intro set_eqI iffI)
    fix p
    assume "p \<in> set (expense_rows (d\<lparr>additional_expenses := map (update_expense_row b i c) ?T\<rparr>) b)"
    then obtain ae where ae: "ae \<in> set ?Tb"
      and p: "p = (if ae_id ae = i then (i, c) else expense_row_view ae)"
      unfolding l by auto
    show "p \<in> {p \<in> set (expense_rows d b). fst p \<noteq> i} \<union> {(i, c)}"
    proof (cases "ae_id ae = i")
      case True
      with p show ?thesis by simp
    next
      case False
      with p ae show ?thesis by (auto simp: expense_rows_def)
    qed
  next
    fix p
    assume "p \<in> {p \<in> set (expense_rows d b). fst p \<noteq> i} \<union> {(i, c)}"
    then consider "p = (i, c)" | "p \<in> set (expense_rows d b)" "fst p \<noteq> i"
      by blast
    then show "p \<in> set (expense_rows (d\<lparr>additional_expenses := map (update_expense_row b i c) ?T\<rparr>) b)"
    proof cases
      case 1
      with ae0 show ?thesis unfolding l by force
    next
      case 2
      then obtain ae where "ae \<in> set ?Tb" "p = expense_row_view ae"
        by (auto simp: expense_rows_def)
      with 2(2) show ?thesis unfolding l by force
    qed
  qed
qed

lemma expense_assigned_or_new:
  "list_all2 (\<lambda>x n. case exp_id x of Some i \<Rightarrow> n = i | None \<Rightarrow> k \<le> n) xs new \<Longrightarrow>
   m \<in> set new \<Longrightarrow> m \<in> set (incoming_expense_ids xs) \<or> k \<le> m"
  by (induction rule: list_all2_induct)
     (auto simp: incoming_expense_ids_Cons incoming_expense_ids_def split: option.splits)

lemma process_expenses_reconciles:
  assumes "process_expenses b now xs (acc, d) = Inr (ids, d')"
    and "distinct (map ae_id (additional_expenses d))"
    and "\<forall>ae \<in> set (additional_expenses d). ae_id ae < uuid_seq d"
    and "distinct (incoming_expense_ids xs)"
    and "expenses_attached d b xs"
  shows "\<exists>new cs. ids = acc @ new \<and>
           list_all2 (\<lambda>x n. case exp_id x of Some i \<Rightarrow> n = i | None \<Rightarrow> uuid_seq d \<le> n) xs new \<and>
           map (cast_expense (date_in d)) xs = map Inr cs \<and>
           set (expense_rows d' b) =
             {p \<in> set (expense_rows d b). fst p \<notin> set (incoming_expense_ids xs)} \<union>
             set (zip new cs) \<and>
           distinct new \<and>
           distinct (map ae_id (additional_expenses d')) \<and>
           (\<forall>ae \<in> set (additional_expenses d'). ae_id ae < uuid_seq d') \<and>
           uuid_seq d \<le> uuid_seq d'"
  using assms
proof (induction xs arbitrary: acc d)
  case Nil
  then show ?case by (simp add: incoming_expense_ids_def)
next
  case (Cons x xs)
  let ?T = "additional_expenses d"
  let ?A = "set (incoming_expense_ids xs)"
  show ?case
  proof (cases "exp_id x")
    case None
    let ?n = "uuid_seq d"
    from Cons.prems(3) have fresh: "?n \<notin> ae_id ` set ?T" by auto
    from Cons.prems(1) None fresh obtain c where c: "cast_expense (date_in d) x = Inr c"
      and run: "process_expenses b now xs
          (acc @ [?n], d\<lparr>uuid_seq := ?n + 1,
             additional_expenses := ?T @ [inserted_expense_row ?n b c now]\<rparr>) = Inr (ids, d')"
      by (auto simp: process_expenses_insert split: sum.splits)
    let ?d2 = "d\<lparr>uuid_seq := ?n + 1, additional_expenses := ?T @ [inserted_expense_row ?n b c now]\<rparr>"
    have p2: "distinct (map ae_id (additional_expenses ?d2))"
      using Cons.prems(2) fresh by simp
    have p3: "\<forall>ae \<in> set (additional_expenses ?d2). ae_id ae < uuid_seq ?d2"
      using Cons.prems(3) by auto
    have inc: "incoming_expense_ids (x # xs) = incoming_expense_ids xs"
      using None by (simp add: incoming_expense_ids_Cons)
    have p4: "distinct (incoming_expense_ids xs)"
      using Cons.prems(4) inc by simp
    have p5: "expenses_attached ?d2 b xs"
      using Cons.prems(5) inc by (auto simp: expenses_attached_def)
    from Cons.IH [OF run p2 p3 p4 p5] obtain new cs where
      i1: "ids = (acc @ [?n]) @ new"
      and i2: "list_all2 (\<lambda>x n. case exp_id x of Some i \<Rightarrow> n = i | None \<Rightarrow> uuid_seq ?d2 \<le> n) xs new"
      and ic: "map (cast_expense (date_in ?d2)) xs = map Inr cs"
      and i3: "set (expense_rows d' b) =
             {p \<in> set (expense_rows ?d2 b). fst p \<notin> ?A} \<union> set (zip new cs)"
      and id: "distinct new"
      and i4: "distinct (map ae_id (additional_expenses d'))"
      and i5: "\<forall>ae \<in> set (additional_expenses d'). ae_id ae < uuid_seq d'"
      and i6: "uuid_seq ?d2 \<le> uuid_seq d'"
      by blast
    have not_in: "?n \<notin> ?A"
    proof
      assume "?n \<in> ?A"
      with Cons.prems(5) inc obtain ae where "ae \<in> set ?T" "ae_id ae = ?n"
        by (auto simp: expenses_attached_def)
      with Cons.prems(3) show False by auto
    qed
    have rows2: "set (expense_rows ?d2 b) = set (expense_rows d b) \<union> {(?n, c)}"
      by (simp add: expense_rows_def)
    have a2: "list_all2 (\<lambda>x n. case exp_id x of Some i \<Rightarrow> n = i | None \<Rightarrow> uuid_seq d \<le> n)
               (x # xs) (?n # new)"
      using i2 None by (auto elim!: list_all2_mono split: option.splits)
    have ac: "map (cast_expense (date_in d)) (x # xs) = map Inr (c # cs)"
      using ic c by simp
    have a3: "set (expense_rows d' b) =
             {p \<in> set (expense_rows d b). fst p \<notin> set (incoming_expense_ids (x # xs))} \<union>
             set (zip (?n # new) (c # cs))"
      unfolding i3 rows2 inc using not_in by auto
    have "?n \<notin> set new"
    proof
      assume "?n \<in> set new"
      from expense_assigned_or_new [OF i2 this] not_in show False by simp
    qed
    with id have ad: "distinct (?n # new)" by simp
    from i6 have a6: "uuid_seq d \<le> uuid_seq d'" by simp
    have a1: "ids = acc @ (?n # new)" using i1 by simp
    show ?thesis
      by (intro exI [of _ "?n # new"] exI [of _ "c # cs"] conjI a1 a2 ac a3 ad i4 i5 a6)
  next
    case (Some i)
    from Cons.prems(5) Some
    have match: "\<exists>ae \<in> set ?T. ae_id ae = i \<and> ae_monthly_bill_id ae = b"
      by (simp add: expenses_attached_def incoming_expense_ids_Cons)
    from Cons.prems(1) Some obtain d1 where up: "update_expense b i x d = Inr d1"
      and run1: "process_expenses b now xs (acc @ [i], d1) = Inr (ids, d')"
      by (auto simp: process_expenses_update split: sum.splits)
    from up match obtain c where c: "cast_expense (date_in d) x = Inr c"
      and d1: "d1 = d\<lparr>additional_expenses := map (update_expense_row b i c) ?T\<rparr>"
      by (cases rule: update_expense_cases) auto
    let ?d2 = "d\<lparr>additional_expenses := map (update_expense_row b i c) ?T\<rparr>"
    from run1 d1 have run: "process_expenses b now xs (acc @ [i], ?d2) = Inr (ids, d')"
      by simp
    have inc: "incoming_expense_ids (x # xs) = i # incoming_expense_ids xs"
      using Some by (simp add: incoming_expense_ids_Cons)
    have p2: "distinct (map ae_id (additional_expenses ?d2))"
      using Cons.prems(2) by (simp add: o_def)
    have p3: "\<forall>ae \<in> set (additional_expenses ?d2). ae_id ae < uuid_seq ?d2"
      using Cons.prems(3) by auto
    have p4: "distinct (incoming_expense_ids xs)" and i_new: "i \<notin> ?A"
      using Cons.prems(4) inc by simp_all
    have p5: "expenses_attached ?d2 b xs"
      unfolding expenses_attached_def
    proof
      fix j assume "j \<in> ?A"
      with Cons.prems(5) inc obtain ae where "ae \<in> set ?T" "ae_id ae = j" "ae_monthly_bill_id ae = b"
        by (auto simp: expenses_attached_def)
      then have "update_expense_row b i c ae \<in> set (additional_expenses ?d2)"
        and "ae_id (update_expense_row b i c ae) = j"
        and "ae_monthly_bill_id (update_expense_row b i c ae) = b"
        by simp_all
      then show "\<exists>ae \<in> set (additional_expenses ?d2). ae_id ae = j \<and> ae_monthly_bill_id ae = b"
        by blast
    qed
    from Cons.IH [OF run p2 p3 p4 p5] obtain new cs where
      i1: "ids = (acc @ [i]) @ new"
      and i2: "list_all2 (\<lambda>x n. case exp_id x of Some i \<Rightarrow> n = i | None \<Rightarrow> uuid_seq ?d2 \<le> n) xs new"
      and ic: "map (cast_expense (date_in ?d2)) xs = map Inr cs"
      and i3: "set (expense_rows d' b) =
             {p \<in> set (expense_rows ?d2 b). fst p \<notin> ?A} \<union> set (zip new cs)"
      and id: "distinct new"
      and i4: "distinct (map ae_id (additional_expenses d'))"
      and i5: "\<forall>ae \<in> set (additional_expenses d'). ae_id ae < uuid_seq d'"
      and i6: "uuid_seq ?d2 \<le> uuid_seq d'"
      by blast
    from match have rows2: "set (expense_rows ?d2 b) =
        {p \<in> set (expense_rows d b). fst p \<noteq> i} \<union> {(i, c)}"
      by (rule set_expense_rows_update)
    have a2: "list_all2 (\<lambda>x n. case exp_id x of Some i \<Rightarrow> n = i | None \<Rightarrow> uuid_seq d \<le> n)
               (x # xs) (i # new)"
      using i2 Some by (auto elim!: list_all2_mono split: option.splits)
    have ac: "map (cast_expense (date_in d)) (x # xs) = map Inr (c # cs)"
      using ic c by simp
    have a3: "set (expense_rows d' b) =
             {p \<in> set (expense_rows d b). fst p \<notin> set (incoming_expense_ids (x # xs))} \<union>
             set (zip (i # new) (c # cs))"
      unfolding i3 rows2 inc using i_new by auto
    from match Cons.prems(3) have i_old: "i < uuid_seq d" by auto
    have "i \<notin> set new"
    proof
      assume "i \<in> set new"
      from expense_assigned_or_new [OF i2 this] i_new i_old show False by simp
    qed
    with id have ad: "distinct (i # new)" by simp
    from i6 have a6: "uuid_seq d \<le> uuid_seq d'" by simp
    have a1: "ids = acc @ (i # new)" using i1 by simp
    show ?thesis
      by (intro exI [of _ "i # new"] exI [of _ "c # cs"] conjI a1 a2 ac a3 ad i4 i5 a6)
  qed
qed

lemma update_expense_frame:
  "update_expense b i x d = Inr d1 \<Longrightarrow>
   renters d1 = renters d \<and> monthly_bills d1 = monthly_bills d \<and> bill_payments d1 = bill_payments d \<and>
   uuid_seq d1 = uuid_seq d \<and> date_in d1 = date_in d \<and> response_ms d1 = response_ms d"
proof -
  assume "update_expense b i x d = Inr d1"
  then show ?thesis by (cases rule: update_expense_cases) simp_all
qed

lemma process_expenses_frame:
  "process_expenses b now xs (acc, d) = Inr (ids, d') \<Longrightarrow>
   renters d' = renters d \<and> monthly_bills d' = monthly_bills d \<and> bill_payments d' = bill_payments d \<and>
   uuid_seq d \<le> uuid_seq d' \<and> date_in d' = date_in d \<and> response_ms d' = response_ms d"
proof (induction xs arbitrary: acc d)
  case Nil
  then show ?case by simp
next
  case (Cons x xs)
  show ?case
  proof (cases "exp_id x")
    case None
    with Cons.prems obtain c where "process_expenses b now xs
        (acc @ [uuid_seq d],
         d\<lparr>uuid_seq := uuid_seq d + 1,
           additional_expenses := additional_expenses d @
             [inserted_expense_row (uuid_seq d) b c now]\<rparr>) = Inr (ids, d')"
      by (auto simp: process_expenses_insert split: sum.splits if_splits)
    from Cons.IH [OF this] show ?thesis by simp
  next
    case (Some i)
    with Cons.prems obtain d1 where up: "update_expense b i x d = Inr d1"
      and run: "process_expenses b now xs (acc @ [i], d1) = Inr (ids, d')"
      by (auto simp: process_expenses_update split: sum.splits)
    from Cons.IH [OF run] update_expense_frame [OF up] show ?thesis by simp
  qed
qed

lemma expense_update_id [simp]: "ae_id (expense_update din b x ae) = ae_id ae"
  by (simp add: expense_update_def split: option.splits sum.splits)

lemma expense_update_bill [simp]:
  "ae_monthly_bill_id (expense_update din b x ae) = ae_monthly_bill_id ae"
  by (simp add: expense_update_def split: option.splits sum.splits)

lemma expense_updates_id [simp]: "ae_id (expense_updates din b xs ae) = ae_id ae"
  by (induction xs arbitrary: ae) simp_all

lemma expense_updates_bill [simp]:
  "ae_monthly_bill_id (expense_updates din b xs ae) = ae_monthly_bill_id ae"
  by (induction xs arbitrary: ae) simp_all

lemma process_expenses_assigned:
  "\<forall>x \<in> set xs. exp_id x \<noteq> None \<Longrightarrow>
   process_expenses b now xs (acc, d) = Inr (ids, d') \<Longrightarrow>
   ids = acc @ incoming_expense_ids xs \<and>
   d' = d\<lparr>additional_expenses := map (expense_updates (date_in d) b xs) (additional_expenses d)\<rparr>"
proof (induction xs arbitrary: acc d)
  case Nil
  then show ?case by (simp add: incoming_expense_ids_def)
next
  case (Cons x xs)
  from Cons.prems(1) obtain i where i: "exp_id x = Some i" by auto
  from Cons.prems(1) have rest: "\<forall>x \<in> set xs. exp_id x \<noteq> None" by simp
  from Cons.prems(2) i obtain d1 where up: "update_expense b i x d = Inr d1"
    and run: "process_expenses b now xs (acc @ [i], d1) = Inr (ids, d')"
    by (auto simp: process_expenses_update split: sum.splits)
  note d1 = update_expense_effect [OF up i]
  have din: "date_in d1 = date_in d" using update_expense_frame [OF up] by simp
  from Cons.IH [OF rest run] have "ids = (acc @ [i]) @ incoming_expense_ids xs"
    and "d' = d1\<lparr>additional_expenses :=
                  map (expense_updates (date_in d) b xs) (additional_expenses d1)\<rparr>"
    unfolding din by simp_all
  then show ?case
    using i by (simp add: d1 incoming_expense_ids_Cons o_def)
qed

text \<open>
  A loop over items that all carry an identity succeeds on a store when it has succeeded on
  a store with the same date conversion that has a row for every pair of identity and bill
  that this one has.
\<close>

lemma process_expenses_again:
  "\<forall>x \<in> set xs. exp_id x \<noteq> None \<Longrightarrow>
   process_expenses b now xs (acc, d) = Inr (ids, d') \<Longrightarrow>
   date_in e = date_in d \<Longrightarrow>
   (\<lambda>ae. (ae_id ae, ae_monthly_bill_id ae)) ` set (additional_expenses e) \<subseteq>
     (\<lambda>ae. (ae_id ae, ae_monthly_bill_id ae)) ` set (additional_expenses d) \<Longrightarrow>
   \<exists>ids2 e'. process_expenses b now2 xs (acc2, e) = Inr (ids2, e')"
proof (induction xs arbitrary: acc d acc2 e)
  case Nil
  then show ?case by simp
next
  case (Cons x xs)
  let ?k = "\<lambda>ae. (ae_id ae, ae_monthly_bill_id ae)"
  from Cons.prems(1) obtain i where i: "exp_id x = Some i" by auto
  from Cons.prems(1) have rest: "\<forall>x \<in> set xs. exp_id x \<noteq> None" by simp
  from Cons.prems(2) i obtain d1 where up: "update_expense b i x d = Inr d1"
    and run: "process_expenses b now xs (acc @ [i], d1) = Inr (ids, d')"
    by (auto simp: process_expenses_update split: sum.splits)
  have k1: "?k ` set (additional_expenses d1) = ?k ` set (additional_expenses d)"
    unfolding update_expense_effect [OF up i] by (simp add: image_image)
  have din1: "date_in d1 = date_in d" using update_expense_frame [OF up] by simp
  have "\<exists>e1. update_expense b i x e = Inr e1"
  proof (cases "\<exists>ae \<in> set (additional_expenses e). ae_id ae = i \<and> ae_monthly_bill_id ae = b")
    case False
    show ?thesis unfolding update_expense_def if_not_P [OF False] by simp
  next
    case True
    then have "(i, b) \<in> ?k ` set (additional_expenses e)" by force
    with Cons.prems(4) have "(i, b) \<in> ?k ` set (additional_expenses d)" by blast
    then have "\<exists>ae \<in> set (additional_expenses d). ae_id ae = i \<and> ae_monthly_bill_id ae = b"
      by auto
    with up obtain c where "cast_expense (date_in d) x = Inr c"
      by (cases rule: update_expense_cases) auto
    with Cons.prems(3) show ?thesis
      unfolding update_expense_def if_P [OF True] by simp
  qed
  then obtain e1 where upe: "update_expense b i x e = Inr e1" ..
  have ke: "?k ` set (additional_expenses e1) = ?k ` set (additional_expenses e)"
    unfolding update_expense_effect [OF upe i] by (simp add: image_image)
  have dine: "date_in e1 = date_in d1"
    using update_expense_frame [OF upe] din1 Cons.prems(3) by simp
  have sub: "?k ` set (additional_expenses e1) \<subseteq> ?k ` set (additional_expenses d1)"
    unfolding ke k1 by (rule Cons.prems(4))
  from Cons.IH [OF rest run dine sub, of "acc2 @ [i]"] upe i show ?case
    by (simp add: process_expenses_update)
qed

lemma expense_update_twice:
  assumes "exp_id y = Some (ae_id ae)" and "ae_monthly_bill_id ae = b"
    and "\<not> isl (cast_expense din y)"
  shows "expense_update din b y (expense_update din b x ae) = expense_update din b y ae"
proof -
  from assms(3) obtain c where c: "cast_expense din y = Inr c"
    by (cases "cast_expense din y") auto
  have "update_expense_row b (ae_id ae) c (expense_update din b x ae) =
      update_expense_row b (ae_id ae) c ae"
    using assms(2)
    by (auto simp: expense_update_def update_expense_row_twice split: option.splits sum.splits)
  with assms(1) c show ?thesis by (simp add: expense_update_def)
qed

lemma expense_update_untouched:
  "\<not> (exp_id x = Some (ae_id ae) \<and> ae_monthly_bill_id ae = b \<and> \<not> isl (cast_expense din x)) \<Longrightarrow>
   expense_update din b x ae = ae"
  by (auto simp: expense_update_def update_expense_row_untouched split: option.splits sum.splits)

lemma find_snoc:
  "find P (xs @ [x]) = (case find P xs of Some y \<Rightarrow> Some y | None \<Rightarrow> if P x then Some x else None)"
  by (induction xs) simp_all

lemma expense_updates_last:
  "expense_updates din b xs ae =
     (case find (\<lambda>x. exp_id x = Some (ae_id ae) \<and> ae_monthly_bill_id ae = b \<and>
                     \<not> isl (cast_expense din x)) (rev xs) of
        None \<Rightarrow> ae
      | Some x \<Rightarrow> expense_update din b x ae)"
proof (induction xs arbitrary: ae)
  case Nil
  show ?case by simp
next
  case (Cons x xs)
  let ?P = "\<lambda>x. exp_id x = Some (ae_id ae) \<and> ae_monthly_bill_id ae = b \<and>
                 \<not> isl (cast_expense din x)"
  let ?ae' = "expense_update din b x ae"
  have same: "ae_id ?ae' = ae_id ae" "ae_monthly_bill_id ?ae' = ae_monthly_bill_id ae"
    by simp_all
  have step: "expense_updates din b (x # xs) ae =
      (case find ?P (rev xs) of None \<Rightarrow> ?ae' | Some y \<Rightarrow> expense_update din b y ?ae')"
    using Cons.IH [of ?ae'] unfolding same by simp
  show ?case
  proof (cases "find ?P (rev xs)")
    case None
    show ?thesis
    proof (cases "?P x")
      case True
      with None step show ?thesis by (simp add: find_snoc)
    next
      case False
      then have "?ae' = ae" by (rule expense_update_untouched)
      with None step False show ?thesis by (simp add: find_snoc)
    qed
  next
    case (Some y)
    then have "?P y" by (auto simp: find_Some_iff)
    then have "expense_update din b y ?ae' = expense_update din b y ae"
      by (simp add: expense_update_twice)
    with Some step show ?thesis
      by (simp add: find_snoc)
  qed
qed

lemma expense_updates_idem:
  "expense_updates din b xs (expense_updates din b xs ae) = expense_updates din b xs ae"
proof -
  let ?P = "\<lambda>x. exp_id x = Some (ae_id ae) \<and> ae_monthly_bill_id ae = b \<and>
                 \<not> isl (cast_expense din x)"
  show ?thesis
  proof (cases "find ?P (rev xs)")
    case None
    then show ?thesis
      using expense_updates_last [of din b xs ae] by simp
  next
    case (Some y)
    then have y: "?P y" by (auto simp: find_Some_iff)
    from Some have e: "expense_updates din b xs ae = expense_update din b y ae"
      using expense_updates_last [of din b xs ae] by simp
    have "expense_updates din b xs (expense_update din b y ae) =
        expense_update din b y (expense_update din b y ae)"
      using expense_updates_last [of din b xs "expense_update din b y ae"] Some
      by simp
    also have "\<dots> = expense_update din b y ae"
      using y by (simp add: expense_update_twice)
    finally show ?thesis by (simp add: e)
  qed
qed

lemma delete_expenses_after_updates:
  "filter (\<lambda>ae. \<not> (ae_monthly_bill_id ae = b \<and> ae_id ae \<notin> A))
     (map (expense_updates din b xs) (filter (\<lambda>ae. \<not> (ae_monthly_bill_id ae = b \<and> ae_id ae \<notin> A)) T)) =
   map (expense_updates din b xs) (filter (\<lambda>ae. \<not> (ae_monthly_bill_id ae = b \<and> ae_id ae \<notin> A)) T)"
  by (simp add: filter_map o_def)

lemma map_expense_updates_idem:
  "map (expense_updates din b xs) (map (expense_updates din b xs) T) =
   map (expense_updates din b xs) T"
  by (simp add: expense_updates_idem)

subsection \<open>The payment loop\<close>

lemma update_payment_cases:
  assumes "update_payment b i x d = Inr d1"
  obtains
    (none) "\<not> (\<exists>bp \<in> set (bill_payments d). bp_id bp = i \<and> bp_monthly_bill_id bp = b)"
      "d1 = d"
  | (some) c where "\<exists>bp \<in> set (bill_payments d). bp_id bp = i \<and> bp_monthly_bill_id bp = b"
      "cast_payment (date_in d) x = Inr c"
      "d1 = d\<lparr>bill_payments := map (update_payment_row b i c) (bill_payments d)\<rparr>"
proof (cases "\<exists>bp \<in> set (bill_payments d). bp_id bp = i \<and> bp_monthly_bill_id bp = b")
  case False
  from assms have "d1 = d"
    unfolding update_payment_def if_not_P [OF False] by simp
  with False show thesis by (rule none)
next
  case True
  from assms obtain c where "cast_payment (date_in d) x = Inr c"
    and "d1 = d\<lparr>bill_payments := map (update_payment_row b i c) (bill_payments d)\<rparr>"
    unfolding update_payment_def if_P [OF True]
    by (cases "cast_payment (date_in d) x") simp_all
  with True show thesis by (rule some)
qed

lemma update_payment_effect:
  assumes "update_payment b i x d = Inr d1" and "pay_id x = Some i"
  shows "d1 = d\<lparr>bill_payments := map (payment_update (date_in d) b x) (bill_payments d)\<rparr>"
  using assms(1)
proof (cases rule: update_payment_cases)
  case none
  then have "map (payment_update (date_in d) b x) (bill_payments d) = bill_payments d"
    using assms(2)
    by (intro map_idI) (auto simp: payment_update_def update_payment_row_untouched split: sum.splits)
  with none show ?thesis by simp
next
  case (some c)
  with assms(2) show ?thesis by (simp add: payment_update_def)
qed

lemma incoming_payment_ids_Cons:
  "incoming_payment_ids (x # xs) =
     (case pay_id x of None \<Rightarrow> incoming_payment_ids xs | Some i \<Rightarrow> i # incoming_payment_ids xs)"
  by (simp add: incoming_payment_ids_def List.map_filter_simps split: option.splits)

lemma payment_rows_insert:
  "payment_rows (d\<lparr>bill_payments := bill_payments d @ [bp]\<rparr>) b =
     payment_rows d b @ (if bp_monthly_bill_id bp = b then [payment_row_view bp] else [])"
  by (simp add: payment_rows_def)

lemma payment_rows_uuid_seq [simp]: "payment_rows (d\<lparr>uuid_seq := n\<rparr>) b = payment_rows d b"
  by (simp add: payment_rows_def)

lemma fst_payment_row_view [simp]: "fst (payment_row_view bp) = bp_id bp"
  by (simp add: payment_row_view_def)

lemma set_payment_rows_update:
  assumes "\<exists>bp \<in> set (bill_payments d). bp_id bp = i \<and> bp_monthly_bill_id bp = b"
  shows "set (payment_rows (d\<lparr>bill_payments :=
              map (update_payment_row b i c) (bill_payments d)\<rparr>) b) =
         {p \<in> set (payment_rows d b). fst p \<noteq> i} \<union> {(i, c)}"
proof -
  let ?T = "bill_payments d"
  let ?Tb = "filter (\<lambda>bp. bp_monthly_bill_id bp = b) ?T"
  have l: "payment_rows (d\<lparr>bill_payments := map (update_payment_row b i c) ?T\<rparr>) b =
        map (\<lambda>bp. if bp_id bp = i then (i, c) else payment_row_view bp) ?Tb"
    by (simp add: payment_rows_def filter_map o_def update_payment_row_view cong: map_cong)
  from assms obtain bp0 where bp0: "bp0 \<in> set ?Tb" "bp_id bp0 = i" by auto
  show ?thesis
  proof (intro set_eqI iffI)
    fix p
    assume "p \<in> set (payment_rows (d\<lparr>bill_payments := map (update_payment_row b i c) ?T\<rparr>) b)"
    then obtain bp where bp: "bp \<in> set ?Tb"
      and p: "p = (if bp_id bp = i then (i, c) else payment_row_view bp)"
      unfolding l by auto
    show "p \<in> {p \<in> set (payment_rows d b). fst p \<noteq> i} \<union> {(i, c)}"
    proof (cases "bp_id bp = i")
      case True
      with p show ?thesis by simp
    next
      case False
      with p bp show ?thesis by (auto simp: payment_rows_def)
    qed
  next
    fix p
    assume "p \<in> {p \<in> set (payment_rows d b). fst p \<noteq> i} \<union> {(i, c)}"
    then consider "p = (i, c)" | "p \<in> set (payment_rows d b)" "fst p \<noteq> i"
      by blast
    then show "p \<in> set (payment_rows (d\<lparr>bill_payments := map (update_payment_row b i c) ?T\<rparr>) b)"
    proof cases
      case 1
      with bp0 show ?thesis unfolding l by force
    next
      case 2
      then obtain bp where "bp \<in> set ?Tb" "p = payment_row_view bp"
        by (auto simp: payment_rows_def)
      with 2(2) show ?thesis unfolding l by force
    qed
  qed
qed

lemma payment_assigned_or_new:
  "list_all2 (\<lambda>x n. case pay_id x of Some i \<Rightarrow> n = i | None \<Rightarrow> k \<le> n) xs new \<Longrightarrow>
   m \<in> set new \<Longrightarrow> m \<in> set (incoming_payment_ids xs) \<or> k \<le> m"
  by (induction rule: list_all2_induct)
     (auto simp: incoming_payment_ids_Cons incoming_payment_ids_def split: option.splits)

lemma process_payments_reconciles:
  assumes "process_payments b now xs (acc, d) = Inr (ids, d')"
    and "distinct (map bp_id (bill_payments d))"
    and "\<forall>bp \<in> set (bill_payments d). bp_id bp < uuid_seq d"
    and "distinct (incoming_payment_ids xs)"
    and "payments_attached d b xs"
  shows "\<exists>new cs. ids = acc @ new \<and>
           list_all2 (\<lambda>x n. case pay_id x of Some i \<Rightarrow> n = i | None \<Rightarrow> uuid_seq d \<le> n) xs new \<and>
           map (cast_payment (date_in d)) xs = map Inr cs \<and>
           set (payment_rows d' b) =
             {p \<in> set (payment_rows d b). fst p \<notin> set (incoming_payment_ids xs)} \<union>
             set (zip new cs) \<and>
           distinct new \<and>
           distinct (map bp_id (bill_payments d')) \<and>
           (\<forall>bp \<in> set (bill_payments d'). bp_id bp < uuid_seq d') \<and>
           uuid_seq d \<le> uuid_seq d'"
  using assms
proof (induction xs arbitrary: acc d)
  case Nil
  then show ?case by (simp add: incoming_payment_ids_def)
next
  case (Cons x xs)
  let ?T = "bill_payments d"
  let ?A = "set (incoming_payment_ids xs)"
  show ?case
  proof (cases "pay_id x")
    case None
    let ?n = "uuid_seq d"
    from Cons.prems(3) have fresh: "?n \<notin> bp_id ` set ?T" by auto
    from Cons.prems(1) None fresh obtain c where c: "cast_payment (date_in d) x = Inr c"
      and run: "process_payments b now xs
          (acc @ [?n], d\<lparr>uuid_seq := ?n + 1,
             bill_payments := ?T @ [inserted_payment_row ?n b c now]\<rparr>) = Inr (ids, d')"
      by (auto simp: process_payments_insert split: sum.splits)
    let ?d2 = "d\<lparr>uuid_seq := ?n + 1, bill_payments := ?T @ [inserted_payment_row ?n b c now]\<rparr>"
    have p2: "distinct (map bp_id (bill_payments ?d2))"
      using Cons.prems(2) fresh by simp
    have p3: "\<forall>bp \<in> set (bill_payments ?d2). bp_id bp < uuid_seq ?d2"
      using Cons.prems(3) by auto
    have inc: "incoming_payment_ids (x # xs) = incoming_payment_ids xs"
      using None by (simp add: incoming_payment_ids_Cons)
    have p4: "distinct (incoming_payment_ids xs)"
      using Cons.prems(4) inc by simp
    have p5: "payments_attached ?d2 b xs"
      using Cons.prems(5) inc by (auto simp: payments_attached_def)
    from Cons.IH [OF run p2 p3 p4 p5] obtain new cs where
      i1: "ids = (acc @ [?n]) @ new"
      and i2: "list_all2 (\<lambda>x n. case pay_id x of Some i \<Rightarrow> n = i | None \<Rightarrow> uuid_seq ?d2 \<le> n) xs new"
      and ic: "map (cast_payment (date_in ?d2)) xs = map Inr cs"
      and i3: "set (payment_rows d' b) =
             {p \<in> set (payment_rows ?d2 b). fst p \<notin> ?A} \<union> set (zip new cs)"
      and id: "distinct new"
      and i4: "distinct (map bp_id (bill_payments d'))"
      and i5: "\<forall>bp \<in> set (bill_payments d'). bp_id bp < uuid_seq d'"
      and i6: "uuid_seq ?d2 \<le> uuid_seq d'"
      by blast
    have not_in: "?n \<notin> ?A"
    proof
      assume "?n \<in> ?A"
      with Cons.prems(5) inc obtain bp where "bp \<in> set ?T" "bp_id bp = ?n"
        by (auto simp: payments_attached_def)
      with Cons.prems(3) show False by auto
    qed
    have rows2: "set (payment_rows ?d2 b) = set (payment_rows d b) \<union> {(?n, c)}"
      by (simp add: payment_rows_def)
    have a2: "list_all2 (\<lambda>x n. case pay_id x of Some i \<Rightarrow> n = i | None \<Rightarrow> uuid_seq d \<le> n)
               (x # xs) (?n # new)"
      using i2 None by (auto elim!: list_all2_mono split: option.splits)
    have ac: "map (cast_payment (date_in d)) (x # xs) = map Inr (c # cs)"
      using ic c by simp
    have a3: "set (payment_rows d' b) =
             {p \<in> set (payment_rows d b). fst p \<notin> set (incoming_payment_ids (x # xs))} \<union>
             set (zip (?n # new) (c # cs))"
      unfolding i3 rows2 inc using not_in by auto
    have "?n \<notin> set new"
    proof
      assume "?n \<in> set new"
      from payment_assigned_or_new [OF i2 this] not_in show False by simp
    qed
    with id have ad: "distinct (?n # new)" by simp
    from i6 have a6: "uuid_seq d \<le> uuid_seq d'" by simp
    have a1: "ids = acc @ (?n # new)" using i1 by simp
    show ?thesis
      by (intro exI [of _ "?n # new"] exI [of _ "c # cs"] conjI a1 a2 ac a3 ad i4 i5 a6)
  next
    case (Some i)
    from Cons.prems(5) Some
    have match: "\<exists>bp \<in> set ?T. bp_id bp = i \<and> bp_monthly_bill_id bp = b"
      by (simp add: payments_attached_def incoming_payment_ids_Cons)
    from Cons.prems(1) Some obtain d1 where up: "update_payment b i x d = Inr d1"
      and run1: "process_payments b now xs (acc @ [i], d1) = Inr (ids, d')"
      by (auto simp: process_payments_update split: sum.splits)
    from up match obtain c where c: "cast_payment (date_in d) x = Inr c"
      and d1: "d1 = d\<lparr>bill_payments := map (update_payment_row b i c) ?T\<rparr>"
      by (cases rule: update_payment_cases) auto
    let ?d2 = "d\<lparr>bill_payments := map (update_payment_row b i c) ?T\<rparr>"
    from run1 d1 have run: "process_payments b now xs (acc @ [i], ?d2) = Inr (ids, d')"
      by simp
    have inc: "incoming_payment_ids (x # xs) = i # incoming_payment_ids xs"
      using Some by (simp add: incoming_payment_ids_Cons)
    have p2: "distinct (map bp_id (bill_payments ?d2))"
      using Cons.prems(2) by (simp add: o_def)
    have p3: "\<forall>bp \<in> set (bill_payments ?d2). bp_id bp < uuid_seq ?d2"
      using Cons.prems(3) by auto
    have p4: "distinct (incoming_payment_ids xs)" and i_new: "i \<notin> ?A"
      using Cons.prems(4) inc by simp_all
    have p5: "payments_attached ?d2 b xs"
      unfolding payments_attached_def
    proof
      fix j assume "j \<in> ?A"
      with Cons.prems(5) inc obtain bp where "bp \<in> set ?T" "bp_id bp = j" "bp_monthly_bill_id bp = b"
        by (auto simp: payments_attached_def)
      then have "update_payment_row b i c bp \<in> set (bill_payments ?d2)"
        and "bp_id (update_payment_row b i c bp) = j"
        and "bp_monthly_bill_id (update_payment_row b i c bp) = b"
        by simp_all
      then show "\<exists>bp \<in> set (bill_payments ?d2). bp_id bp = j \<and> bp_monthly_bill_id bp = b"
        by blast
    qed
    from Cons.IH [OF run p2 p3 p4 p5] obtain new cs where
      i1: "ids = (acc @ [i]) @ new"
      and i2: "list_all2 (\<lambda>x n. case pay_id x of Some i \<Rightarrow> n = i | None \<Rightarrow> uuid_seq ?d2 \<le> n) xs new"
      and ic: "map (cast_payment (date_in ?d2)) xs = map Inr cs"
      and i3: "set (payment_rows d' b) =
             {p \<in> set (payment_rows ?d2 b). fst p \<notin> ?A} \<union> set (zip new cs)"
      and id: "distinct new"
      and i4: "distinct (map bp_id (bill_payments d'))"
      and i5: "\<forall>bp \<in> set (bill_payments d'). bp_id bp < uuid_seq d'"
      and i6: "uuid_seq ?d2 \<le> uuid_seq d'"
      by blast
    from match have rows2: "set (payment_rows ?d2 b) =
        {p \<in> set (payment_rows d b). fst p \<noteq> i} \<union> {(i, c)}"
      by (rule set_payment_rows_update)
    have a2: "list_all2 (\<lambda>x n. case pay_id x of Some i \<Rightarrow> n = i | None \<Rightarrow> uuid_seq d \<le> n)
               (x # xs) (i # new)"
      using i2 Some by (auto elim!: list_all2_mono split: option.splits)
    have ac: "map (cast_payment (date_in d)) (x # xs) = map Inr (c # cs)"
      using ic c by simp
    have a3: "set (payment_rows d' b) =
             {p \<in> set (payment_rows d b). fst p \<notin> set (incoming_payment_ids (x # xs))} \<union>
             set (zip (i # new) (c # cs))"
      unfolding i3 rows2 inc using i_new by auto
    from match Cons.prems(3) have i_old: "i < uuid_seq d" by auto
    have "i \<notin> set new"
    proof
      assume "i \<in> set new"
      from payment_assigned_or_new [OF i2 this] i_new i_old show False by simp
    qed
    with id have ad: "distinct (i # new)" by simp
    from i6 have a6: "uuid_seq d \<le> uuid_seq d'" by simp
    have a1: "ids = acc @ (i # new)" using i1 by simp
    show ?thesis
      by (intro exI [of _ "i # new"] exI [of _ "c # cs"] conjI a1 a2 ac a3 ad i4 i5 a6)
  qed
qed

lemma update_payment_frame:
  "update_payment b i x d = Inr d1 \<Longrightarrow>
   renters d1 = renters d \<and> monthly_bills d1 = monthly_bills d \<and> additional_expenses d1 = additional_expenses d \<and>
   uuid_seq d1 = uuid_seq d \<and> date_in d1 = date_in d \<and> response_ms d1 = response_ms d"
proof -
  assume "update_payment b i x d = Inr d1"
  then show ?thesis by (cases rule: update_payment_cases) simp_all
qed

lemma process_payments_frame:
  "process_payments b now xs (acc, d) = Inr (ids, d') \<Longrightarrow>
   renters d' = renters d \<and> monthly_bills d' = monthly_bills d \<and> additional_expenses d' = additional_expenses d \<and>
   uuid_seq d \<le> uuid_seq d' \<and> date_in d' = date_in d \<and> response_ms d' = response_ms d"
proof (induction xs arbitrary: acc d)
  case Nil
  then show ?case by simp
next
  case (Cons x xs)
  show ?case
  proof (cases "pay_id x")
    case None
    with Cons.prems obtain c where "process_payments b now xs
        (acc @ [uuid_seq d],
         d\<lparr>uuid_seq := uuid_seq d + 1,
           bill_payments := bill_payments d @
             [inserted_payment_row (uuid_seq d) b c now]\<rparr>) = Inr (ids, d')"
      by (auto simp: process_payments_insert split: sum.splits if_splits)
    from Cons.IH [OF this] show ?thesis by simp
  next
    case (Some i)
    with Cons.prems obtain d1 where up: "update_payment b i x d = Inr d1"
      and run: "process_payments b now xs (acc @ [i], d1) = Inr (ids, d')"
      by (auto simp: process_payments_update split: sum.splits)
    from Cons.IH [OF run] update_payment_frame [OF up] show ?thesis by simp
  qed
qed

lemma payment_update_id [simp]: "bp_id (payment_update din b x bp) = bp_id bp"
  by (simp add: payment_update_def split: option.splits sum.splits)

lemma payment_update_bill [simp]:
  "bp_monthly_bill_id (payment_update din b x bp) = bp_monthly_bill_id bp"
  by (simp add: payment_update_def split: option.splits sum.splits)

lemma payment_updates_id [simp]: "bp_id (payment_updates din b xs bp) = bp_id bp"
  by (induction xs arbitrary: bp) simp_all

lemma payment_updates_bill [simp]:
  "bp_monthly_bill_id (payment_updates din b xs bp) = bp_monthly_bill_id bp"
  by (induction xs arbitrary: bp) simp_all

lemma process_payments_assigned:
  "\<forall>x \<in> set xs. pay_id x \<noteq> None \<Longrightarrow>
   process_payments b now xs (acc, d) = Inr (ids, d') \<Longrightarrow>
   ids = acc @ incoming_payment_ids xs \<and>
   d' = d\<lparr>bill_payments := map (payment_updates (date_in d) b xs) (bill_payments d)\<rparr>"
proof (induction xs arbitrary: acc d)
  case Nil
  then show ?case by (simp add: incoming_payment_ids_def)
next
  case (Cons x xs)
  from Cons.prems(1) obtain i where i: "pay_id x = Some i" by auto
  from Cons.prems(1) have rest: "\<forall>x \<in> set xs. pay_id x \<noteq> None" by simp
  from Cons.prems(2) i obtain d1 where up: "update_payment b i x d = Inr d1"
    and run: "process_payments b now xs (acc @ [i], d1) = Inr (ids, d')"
    by (auto simp: process_payments_update split: sum.splits)
  note d1 = update_payment_effect [OF up i]
  have din: "date_in d1 = date_in d" using update_payment_frame [OF up] by simp
  from Cons.IH [OF rest run] have "ids = (acc @ [i]) @ incoming_payment_ids xs"
    and "d' = d1\<lparr>bill_payments :=
                  map (payment_updates (date_in d) b xs) (bill_payments d1)\<rparr>"
    unfolding din by simp_all
  then show ?case
    using i by (simp add: d1 incoming_payment_ids_Cons o_def)
qed

text \<open>
  A loop over items that all carry an identity succeeds on a store when it has succeeded on
  a store with the same date conversion that has a row for every pair of identity and bill
  that this one has.
\<close>

lemma process_payments_again:
  "\<forall>x \<in> set xs. pay_id x \<noteq> None \<Longrightarrow>
   process_payments b now xs (acc, d) = Inr (ids, d') \<Longrightarrow>
   date_in e = date_in d \<Longrightarrow>
   (\<lambda>bp. (bp_id bp, bp_monthly_bill_id bp)) ` set (bill_payments e) \<subseteq>
     (\<lambda>bp. (bp_id bp, bp_monthly_bill_id bp)) ` set (bill_payments d) \<Longrightarrow>
   \<exists>ids2 e'. process_payments b now2 xs (acc2, e) = Inr (ids2, e')"
proof (induction xs arbitrary: acc d acc2 e)
  case Nil
  then show ?case by simp
next
  case (Cons x xs)
  let ?k = "\<lambda>bp. (bp_id bp, bp_monthly_bill_id bp)"
  from Cons.prems(1) obtain i where i: "pay_id x = Some i" by auto
  from Cons.prems(1) have rest: "\<forall>x \<in> set xs. pay_id x \<noteq> None" by simp
  from Cons.prems(2) i obtain d1 where up: "update_payment b i x d = Inr d1"
    and run: "process_payments b now xs (acc @ [i], d1) = Inr (ids, d')"
    by (auto simp: process_payments_update split: sum.splits)
  have k1: "?k ` set (bill_payments d1) = ?k ` set (bill_payments d)"
    unfolding update_payment_effect [OF up i] by (simp add: image_image)
  have din1: "date_in d1 = date_in d" using update_payment_frame [OF up] by simp
  have "\<exists>e1. update_payment b i x e = Inr e1"
  proof (cases "\<exists>bp \<in> set (bill_payments e). bp_id bp = i \<and> bp_monthly_bill_id bp = b")
    case False
    show ?thesis unfolding update_payment_def if_not_P [OF False] by simp
  next
    case True
    then have "(i, b) \<in> ?k ` set (bill_payments e)" by force
    with Cons.prems(4) have "(i, b) \<in> ?k ` set (bill_payments d)" by blast
    then have "\<exists>bp \<in> set (bill_payments d). bp_id bp = i \<and> bp_monthly_bill_id bp = b"
      by auto
    with up obtain c where "cast_payment (date_in d) x = Inr c"
      by (cases rule: update_payment_cases) auto
    with Cons.prems(3) show ?thesis
      unfolding update_payment_def if_P [OF True] by simp
  qed
  then obtain e1 where upe: "update_payment b i x e = Inr e1" ..
  have ke: "?k ` set (bill_payments e1) = ?k ` set (bill_payments e)"
    unfolding update_payment_effect [OF upe i] by (simp add: image_image)
  have dine: "date_in e1 = date_in d1"
    using update_payment_frame [OF upe] din1 Cons.prems(3) by simp
  have sub: "?k ` set (bill_payments e1) \<subseteq> ?k ` set (bill_payments d1)"
    unfolding ke k1 by (rule Cons.prems(4))
  from Cons.IH [OF rest run dine sub, of "acc2 @ [i]"] upe i show ?case
    by (simp add: process_payments_update)
qed

lemma payment_update_twice:
  assumes "pay_id y = Some (bp_id bp)" and "bp_monthly_bill_id bp = b"
    and "\<not> isl (cast_payment din y)"
  shows "payment_update din b y (payment_update din b x bp) = payment_update din b y bp"
proof -
  from assms(3) obtain c where c: "cast_payment din y = Inr c"
    by (cases "cast_payment din y") auto
  have "update_payment_row b (bp_id bp) c (payment_update din b x bp) =
      update_payment_row b (bp_id bp) c bp"
    using assms(2)
    by (auto simp: payment_update_def update_payment_row_twice split: option.splits sum.splits)
  with assms(1) c show ?thesis by (simp add: payment_update_def)
qed

lemma payment_update_untouched:
  "\<not> (pay_id x = Some (bp_id bp) \<and> bp_monthly_bill_id bp = b \<and> \<not> isl (cast_payment din x)) \<Longrightarrow>
   payment_update din b x bp = bp"
  by (auto simp: payment_update_def update_payment_row_untouched split: option.splits sum.splits)

lemma payment_updates_last:
  "payment_updates din b xs bp =
     (case find (\<lambda>x. pay_id x = Some (bp_id bp) \<and> bp_monthly_bill_id bp = b \<and>
                     \<not> isl (cast_payment din x)) (rev xs) of
        None \<Rightarrow> bp
      | Some x \<Rightarrow> payment_update din b x bp)"
proof (induction xs arbitrary: bp)
  case Nil
  show ?case by simp
next
  case (Cons x xs)
  let ?P = "\<lambda>x. pay_id x = Some (bp_id bp) \<and> bp_monthly_bill_id bp = b \<and>
                 \<not> isl (cast_payment din x)"
  let ?bp' = "payment_update din b x bp"
  have same: "bp_id ?bp' = bp_id bp" "bp_monthly_bill_id ?bp' = bp_monthly_bill_id bp"
    by simp_all
  have step: "payment_updates din b (x # xs) bp =
      (case find ?P (rev xs) of None \<Rightarrow> ?bp' | Some y \<Rightarrow> payment_update din b y ?bp')"
    using Cons.IH [of ?bp'] unfolding same by simp
  show ?case
  proof (cases "find ?P (rev xs)")
    case None
    show ?thesis
    proof (cases "?P x")
      case True
      with None step show ?thesis by (simp add: find_snoc)
    next
      case False
      then have "?bp' = bp" by (rule payment_update_untouched)
      with None step False show ?thesis by (simp add: find_snoc)
    qed
  next
    case (Some y)
    then have "?P y" by (auto simp: find_Some_iff)
    then have "payment_update din b y ?bp' = payment_update din b y bp"
      by (simp add: payment_update_twice)
    with Some step show ?thesis
      by (simp add: find_snoc)
  qed
qed

lemma payment_updates_idem:
  "payment_updates din b xs (payment_updates din b xs bp) = payment_updates din b xs bp"
proof -
  let ?P = "\<lambda>x. pay_id x = Some (bp_id bp) \<and> bp_monthly_bill_id bp = b \<and>
                 \<not> isl (cast_payment din x)"
  show ?thesis
  proof (cases "find ?P (rev xs)")
    case None
    then show ?thesis
      using payment_updates_last [of din b xs bp] by simp
  next
    case (Some y)
    then have y: "?P y" by (auto simp: find_Some_iff)
    from Some have e: "payment_updates din b xs bp = payment_update din b y bp"
      using payment_updates_last [of din b xs bp] by simp
    have "payment_updates din b xs (payment_update din b y bp) =
        payment_update din b y (payment_update din b y bp)"
      using payment_updates_last [of din b xs "payment_update din b y bp"] Some
      by simp
    also have "\<dots> = payment_update din b y bp"
      using y by (simp add: payment_update_twice)
    finally show ?thesis by (simp add: e)
  qed
qed

lemma delete_payments_after_updates:
  "filter (\<lambda>bp. \<not> (bp_monthly_bill_id bp = b \<and> bp_id bp \<notin> A))
     (map (payment_updates din b xs) (filter (\<lambda>bp. \<not> (bp_monthly_bill_id bp = b \<and> bp_id bp \<notin> A)) T)) =
   map (payment_updates din b xs) (filter (\<lambda>bp. \<not> (bp_monthly_bill_id bp = b \<and> bp_id bp \<notin> A)) T)"
  by (simp add: filter_map o_def)

lemma map_payment_updates_idem:
  "map (payment_updates din b xs) (map (payment_updates din b xs) T) =
   map (payment_updates din b xs) T"
  by (simp add: payment_updates_idem)

subsection \<open>Deleting, then looping\<close>

lemma expenses_delete_then_process:
  assumes run: "process_expenses b now xs ([], d3) = Inr (ids, d4)"
    and T3: "additional_expenses d3 =
        filter (\<lambda>ae. \<not> (ae_monthly_bill_id ae = b \<and> ae_id ae \<notin> set (incoming_expense_ids xs)))
          (additional_expenses d)"
    and dist: "distinct (map ae_id (additional_expenses d))"
    and bound: "\<forall>ae \<in> set (additional_expenses d). ae_id ae < uuid_seq d"
    and seq: "uuid_seq d \<le> uuid_seq d3"
    and inc: "distinct (incoming_expense_ids xs)"
    and att: "expenses_attached d b xs"
  shows "length ids = length xs \<and>
     (\<forall>i<length xs. case exp_id (xs ! i) of
          Some x \<Rightarrow> ids ! i = x
        | None \<Rightarrow> ids ! i \<notin> ae_id ` set (additional_expenses d)) \<and>
     mset (map converted (expense_rows d4 b)) =
       mset (zip ids (map (cast_expense (date_in d3)) xs)) \<and>
     distinct ids \<and>
     (\<forall>ae \<in> set (additional_expenses d).
        ae_monthly_bill_id ae = b \<and> ae_id ae \<notin> set (incoming_expense_ids xs) \<longrightarrow>
        ae_id ae \<notin> fst ` set (expense_rows d4 b)) \<and>
     uuid_seq d3 \<le> uuid_seq d4"
proof -
  let ?A = "set (incoming_expense_ids xs)"
  have p2: "distinct (map ae_id (additional_expenses d3))"
    unfolding T3 using dist by (rule distinct_map_filter)
  have p3: "\<forall>ae \<in> set (additional_expenses d3). ae_id ae < uuid_seq d3"
    unfolding T3 using bound seq by auto
  have p5: "expenses_attached d3 b xs"
    unfolding expenses_attached_def T3 using att by (auto simp: expenses_attached_def)
  from process_expenses_reconciles [OF run p2 p3 inc p5] obtain new cs where
    i1: "ids = new"
    and i2: "list_all2 (\<lambda>x n. case exp_id x of Some i \<Rightarrow> n = i | None \<Rightarrow> uuid_seq d3 \<le> n) xs new"
    and ic: "map (cast_expense (date_in d3)) xs = map Inr cs"
    and i3: "set (expense_rows d4 b) =
             {p \<in> set (expense_rows d3 b). fst p \<notin> ?A} \<union> set (zip new cs)"
    and id: "distinct new"
    and i4: "distinct (map ae_id (additional_expenses d4))"
    and i6: "uuid_seq d3 \<le> uuid_seq d4"
    by auto
  from i2 have len: "length ids = length xs"
    unfolding i1 by (simp add: list_all2_lengthD)
  have nth: "case exp_id (xs ! i) of Some x \<Rightarrow> ids ! i = x | None \<Rightarrow> uuid_seq d3 \<le> ids ! i"
    if "i < length xs" for i
    using i2 that unfolding i1 by (simp add: list_all2_conv_all_nth)
  have c2: "\<forall>i<length xs. case exp_id (xs ! i) of
          Some x \<Rightarrow> ids ! i = x
        | None \<Rightarrow> ids ! i \<notin> ae_id ` set (additional_expenses d)"
  proof (intro allI impI)
    fix i assume i: "i < length xs"
    show "case exp_id (xs ! i) of Some x \<Rightarrow> ids ! i = x
        | None \<Rightarrow> ids ! i \<notin> ae_id ` set (additional_expenses d)"
    proof (cases "exp_id (xs ! i)")
      case None
      with nth [OF i] have "uuid_seq d3 \<le> ids ! i" by simp
      with seq bound have "ids ! i \<notin> ae_id ` set (additional_expenses d)" by fastforce
      with None show ?thesis by simp
    next
      case (Some x)
      with nth [OF i] show ?thesis by simp
    qed
  qed
  have "{p \<in> set (expense_rows d3 b). fst p \<notin> ?A} = {}"
    by (auto simp: expense_rows_def T3 expense_row_view_def)
  with i3 have s3: "set (expense_rows d4 b) = set (zip ids cs)"
    unfolding i1 by simp
  have "map fst (expense_rows d4 b) =
      map ae_id (filter (\<lambda>ae. ae_monthly_bill_id ae = b) (additional_expenses d4))"
    by (simp add: expense_rows_def o_def)
  with i4 have "distinct (map fst (expense_rows d4 b))"
    by (simp add: distinct_map_filter)
  then have dr: "distinct (expense_rows d4 b)"
    by (rule distinct_map [THEN iffD1, THEN conjunct1])
  from id have dz: "distinct (zip ids cs)"
    unfolding i1 by (rule distinct_zipI1)
  from dr dz s3 have "mset (expense_rows d4 b) = mset (zip ids cs)"
    by (simp add: set_eq_iff_mset_eq_distinct)
  then have "mset (map converted (expense_rows d4 b)) = mset (map converted (zip ids cs))"
    by simp
  then have c3: "mset (map converted (expense_rows d4 b)) =
       mset (zip ids (map (cast_expense (date_in d3)) xs))"
    by (simp only: zip_converted ic)
  from id have c4: "distinct ids" unfolding i1 .
  have c5: "\<forall>ae \<in> set (additional_expenses d).
        ae_monthly_bill_id ae = b \<and> ae_id ae \<notin> ?A \<longrightarrow>
        ae_id ae \<notin> fst ` set (expense_rows d4 b)"
  proof (intro ballI impI notI)
    fix ae
    assume ae: "ae \<in> set (additional_expenses d)"
      and h: "ae_monthly_bill_id ae = b \<and> ae_id ae \<notin> ?A"
      and "ae_id ae \<in> fst ` set (expense_rows d4 b)"
    then have "ae_id ae \<in> set ids"
      unfolding s3 by (auto dest: set_zip_leftD)
    then obtain i where i: "i < length xs" "ids ! i = ae_id ae"
      using len by (auto simp: in_set_conv_nth)
    show False
    proof (cases "exp_id (xs ! i)")
      case None
      with c2 i have "ae_id ae \<notin> ae_id ` set (additional_expenses d)" by force
      with ae show False by simp
    next
      case (Some x)
      with nth [OF i(1)] i(2) have "x = ae_id ae" by simp
      moreover from Some i(1) have "x \<in> ?A"
        by (force simp: incoming_expense_ids_def map_filter_def)
      ultimately show False using h by simp
    qed
  qed
  show ?thesis
    by (intro conjI len c2 c3 c4 c5 i6)
qed

lemma payments_delete_then_process:
  assumes run: "process_payments b now xs ([], d3) = Inr (ids, d4)"
    and T3: "bill_payments d3 =
        filter (\<lambda>bp. \<not> (bp_monthly_bill_id bp = b \<and> bp_id bp \<notin> set (incoming_payment_ids xs)))
          (bill_payments d)"
    and dist: "distinct (map bp_id (bill_payments d))"
    and bound: "\<forall>bp \<in> set (bill_payments d). bp_id bp < uuid_seq d"
    and seq: "uuid_seq d \<le> uuid_seq d3"
    and inc: "distinct (incoming_payment_ids xs)"
    and att: "payments_attached d b xs"
  shows "length ids = length xs \<and>
     (\<forall>i<length xs. case pay_id (xs ! i) of
          Some x \<Rightarrow> ids ! i = x
        | None \<Rightarrow> ids ! i \<notin> bp_id ` set (bill_payments d)) \<and>
     mset (map converted (payment_rows d4 b)) =
       mset (zip ids (map (cast_payment (date_in d3)) xs)) \<and>
     distinct ids \<and>
     (\<forall>bp \<in> set (bill_payments d).
        bp_monthly_bill_id bp = b \<and> bp_id bp \<notin> set (incoming_payment_ids xs) \<longrightarrow>
        bp_id bp \<notin> fst ` set (payment_rows d4 b)) \<and>
     uuid_seq d3 \<le> uuid_seq d4"
proof -
  let ?A = "set (incoming_payment_ids xs)"
  have p2: "distinct (map bp_id (bill_payments d3))"
    unfolding T3 using dist by (rule distinct_map_filter)
  have p3: "\<forall>bp \<in> set (bill_payments d3). bp_id bp < uuid_seq d3"
    unfolding T3 using bound seq by auto
  have p5: "payments_attached d3 b xs"
    unfolding payments_attached_def T3 using att by (auto simp: payments_attached_def)
  from process_payments_reconciles [OF run p2 p3 inc p5] obtain new cs where
    i1: "ids = new"
    and i2: "list_all2 (\<lambda>x n. case pay_id x of Some i \<Rightarrow> n = i | None \<Rightarrow> uuid_seq d3 \<le> n) xs new"
    and ic: "map (cast_payment (date_in d3)) xs = map Inr cs"
    and i3: "set (payment_rows d4 b) =
             {p \<in> set (payment_rows d3 b). fst p \<notin> ?A} \<union> set (zip new cs)"
    and id: "distinct new"
    and i4: "distinct (map bp_id (bill_payments d4))"
    and i6: "uuid_seq d3 \<le> uuid_seq d4"
    by auto
  from i2 have len: "length ids = length xs"
    unfolding i1 by (simp add: list_all2_lengthD)
  have nth: "case pay_id (xs ! i) of Some x \<Rightarrow> ids ! i = x | None \<Rightarrow> uuid_seq d3 \<le> ids ! i"
    if "i < length xs" for i
    using i2 that unfolding i1 by (simp add: list_all2_conv_all_nth)
  have c2: "\<forall>i<length xs. case pay_id (xs ! i) of
          Some x \<Rightarrow> ids ! i = x
        | None \<Rightarrow> ids ! i \<notin> bp_id ` set (bill_payments d)"
  proof (intro allI impI)
    fix i assume i: "i < length xs"
    show "case pay_id (xs ! i) of Some x \<Rightarrow> ids ! i = x
        | None \<Rightarrow> ids ! i \<notin> bp_id ` set (bill_payments d)"
    proof (cases "pay_id (xs ! i)")
      case None
      with nth [OF i] have "uuid_seq d3 \<le> ids ! i" by simp
      with seq bound have "ids ! i \<notin> bp_id ` set (bill_payments d)" by fastforce
      with None show ?thesis by simp
    next
      case (Some x)
      with nth [OF i] show ?thesis by simp
    qed
  qed
  have "{p \<in> set (payment_rows d3 b). fst p \<notin> ?A} = {}"
    by (auto simp: payment_rows_def T3 payment_row_view_def)
  with i3 have s3: "set (payment_rows d4 b) = set (zip ids cs)"
    unfolding i1 by simp
  have "map fst (payment_rows d4 b) =
      map bp_id (filter (\<lambda>bp. bp_monthly_bill_id bp = b) (bill_payments d4))"
    by (simp add: payment_rows_def o_def)
  with i4 have "distinct (map fst (payment_rows d4 b))"
    by (simp add: distinct_map_filter)
  then have dr: "distinct (payment_rows d4 b)"
    by (rule distinct_map [THEN iffD1, THEN conjunct1])
  from id have dz: "distinct (zip ids cs)"
    unfolding i1 by (rule distinct_zipI1)
  from dr dz s3 have "mset (payment_rows d4 b) = mset (zip ids cs)"
    by (simp add: set_eq_iff_mset_eq_distinct)
  then have "mset (map converted (payment_rows d4 b)) = mset (map converted (zip ids cs))"
    by simp
  then have c3: "mset (map converted (payment_rows d4 b)) =
       mset (zip ids (map (cast_payment (date_in d3)) xs))"
    by (simp only: zip_converted ic)
  from id have c4: "distinct ids" unfolding i1 .
  have c5: "\<forall>bp \<in> set (bill_payments d).
        bp_monthly_bill_id bp = b \<and> bp_id bp \<notin> ?A \<longrightarrow>
        bp_id bp \<notin> fst ` set (payment_rows d4 b)"
  proof (intro ballI impI notI)
    fix bp
    assume bp: "bp \<in> set (bill_payments d)"
      and h: "bp_monthly_bill_id bp = b \<and> bp_id bp \<notin> ?A"
      and "bp_id bp \<in> fst ` set (payment_rows d4 b)"
    then have "bp_id bp \<in> set ids"
      unfolding s3 by (auto dest: set_zip_leftD)
    then obtain i where i: "i < length xs" "ids ! i = bp_id bp"
      using len by (auto simp: in_set_conv_nth)
    show False
    proof (cases "pay_id (xs ! i)")
      case None
      with c2 i have "bp_id bp \<notin> bp_id ` set (bill_payments d)" by force
      with bp show False by simp
    next
      case (Some x)
      with nth [OF i(1)] i(2) have "x = bp_id bp" by simp
      moreover from Some i(1) have "x \<in> ?A"
        by (force simp: incoming_payment_ids_def map_filter_def)
      ultimately show False using h by simp
    qed
  qed
  show ?thesis
    by (intro conjI len c2 c3 c4 c5 i6)
qed

subsection \<open>The upsert of the bill row\<close>

lemma upsert_monthly_bill_frame:
  "upsert_monthly_bill p_bill_data p_user_id now d = Inr (b, d1) \<Longrightarrow>
   renters d1 = renters d \<and> additional_expenses d1 = additional_expenses d \<and>
   bill_payments d1 = bill_payments d \<and> uuid_seq d \<le> uuid_seq d1 \<and>
   date_in d1 = date_in d \<and> response_ms d1 = response_ms d"
  by (auto simp: upsert_monthly_bill_def gen_random_uuid_def Let_def
      split: sum.splits option.splits if_splits)

lemma upsert_monthly_bill_converts:
  "upsert_monthly_bill p_bill_data p_user_id now d = Inr (b, d1) \<Longrightarrow>
   \<exists>c. cast_bill_data (date_in d) p_bill_data = Inr c"
  by (auto simp: upsert_monthly_bill_def split: sum.splits)

lemma find_map_same:
  "(\<And>x. P (f x) = P x) \<Longrightarrow> find P (map f xs) = map_option f (find P xs)"
  by (induction xs) simp_all

lemma upsert_monthly_bill_found:
  assumes "upsert_monthly_bill p_bill_data p_user_id now d = Inr (b, d1)"
  shows "\<exists>ex. find (\<lambda>r. bill_key r =
                  (renter_id p_bill_data, bill_month p_bill_data, bill_year p_bill_data))
               (monthly_bills d1) = Some ex \<and> mb_id ex = b"
proof -
  let ?key = "(renter_id p_bill_data, bill_month p_bill_data, bill_year p_bill_data)"
  let ?P = "\<lambda>r. bill_key r = ?key"
  from upsert_monthly_bill_converts [OF assms] obtain c where
    c: "cast_bill_data (date_in d) p_bill_data = Inr c" ..
  from cast_bill_data_key [OF c]
  have key: "(renter_id c, bill_month c, bill_year c) = ?key" by simp
  let ?f = "\<lambda>r. if bill_key r = ?key then r\<lparr>mb_data := c, mb_updated_at := now\<rparr> else r"
  show ?thesis
  proof (cases "find ?P (monthly_bills d)")
    case None
    let ?row = "\<lparr>mb_id = uuid_seq d, mb_user_id = Some p_user_id, mb_data = c,
                  mb_created_at = now, mb_updated_at = now\<rparr>"
    from assms None have b: "b = uuid_seq d"
      and d1: "monthly_bills d1 = monthly_bills d @ [?row]"
      by (auto simp: upsert_monthly_bill_def c key gen_random_uuid_def Let_def split: if_splits)
    have "?P ?row" using key by (simp add: bill_key_def)
    with None have "find ?P (monthly_bills d1) = Some ?row"
      unfolding d1 by (simp add: find_snoc)
    with b show ?thesis by simp
  next
    case (Some ex)
    with assms have b: "b = mb_id ex" and d1: "monthly_bills d1 = map ?f (monthly_bills d)"
      by (auto simp: upsert_monthly_bill_def c key Let_def)
    have "?P (?f x) = ?P x" for x using key by (simp add: bill_key_def)
    then have "find ?P (map ?f (monthly_bills d)) = map_option ?f (find ?P (monthly_bills d))"
      by (rule find_map_same)
    with Some b d1 show ?thesis by simp
  qed
qed

lemma upsert_monthly_bill_existing:
  assumes "cast_bill_data (date_in d) p_bill_data = Inr c"
    and "find (\<lambda>r. bill_key r = (renter_id p_bill_data, bill_month p_bill_data, bill_year p_bill_data))
     (monthly_bills d) = Some ex"
  shows "\<exists>d1. upsert_monthly_bill p_bill_data p_user_id now d = Inr (mb_id ex, d1) \<and>
        additional_expenses d1 = additional_expenses d \<and> bill_payments d1 = bill_payments d \<and>
        date_in d1 = date_in d"
proof -
  from cast_bill_data_key [OF assms(1)]
  have "(renter_id c, bill_month c, bill_year c) =
      (renter_id p_bill_data, bill_month p_bill_data, bill_year p_bill_data)" by simp
  with assms show ?thesis
    by (simp add: upsert_monthly_bill_def Let_def)
qed

subsection \<open>The whole function\<close>

lemma save_bill_complete_steps:
  assumes "save_bill_complete p_bill_data p_expenses p_payments p_user_id now d = Inr (r, d')"
  obtains d1 d4 where
    "upsert_monthly_bill p_bill_data p_user_id now d = Inr (bill_id r, d1)"
    "process_expenses (bill_id r) now p_expenses
       ([], delete_payments_not_in (bill_id r) p_payments
              (delete_expenses_not_in (bill_id r) p_expenses d1)) = Inr (expense_ids r, d4)"
    "process_payments (bill_id r) now p_payments ([], d4) = Inr (payment_ids r, d')"
    "success r"
  using assms
  by (auto simp: save_bill_complete_def Let_def split: sum.splits prod.splits)

lemma save_bill_complete_frame:
  assumes "save_bill_complete p_bill_data p_expenses p_payments p_user_id now d = Inr (r, d')"
  shows "renters d' = renters d \<and> date_in d' = date_in d \<and> response_ms d' = response_ms d"
proof -
  from assms obtain d1 d4 where
    up: "upsert_monthly_bill p_bill_data p_user_id now d = Inr (bill_id r, d1)"
    and pe: "process_expenses (bill_id r) now p_expenses
       ([], delete_payments_not_in (bill_id r) p_payments
              (delete_expenses_not_in (bill_id r) p_expenses d1)) = Inr (expense_ids r, d4)"
    and pp: "process_payments (bill_id r) now p_payments ([], d4) = Inr (payment_ids r, d')"
    by (rule save_bill_complete_steps)
  from upsert_monthly_bill_frame [OF up] process_expenses_frame [OF pe]
    process_payments_frame [OF pp]
  show ?thesis
    by (simp add: delete_payments_not_in_def delete_expenses_not_in_def)
qed

text \<open>
  Claim C1, as amended. Take a store that satisfies its key constraints and whose
  identity generator is fresh, and incoming lists whose assigned identities are pairwise
  distinct and each attached to the resulting bill in the store before the save. When
  \<open>save_bill_complete\<close> returns, it reports success, and for expenses and payments alike:
  the returned identity list has one identity per incoming item in the order of the input,
  the item's own identity where it had one and otherwise an identity that no row of the
  table carried before; the returned identities are pairwise distinct; the child rows of
  the bill, each as identity with content and counted with multiplicity, are exactly the
  returned identities paired with the incoming contents as converted to the types of the
  columns (the amount rounded to two decimal places, the date as the server reads it), all
  of which conversions have succeeded; and every identity that was attached to the bill
  and is not among the incoming ones is gone from the bill's child rows.
\<close>

theorem save_bill_complete_reconciles:
  assumes save: "save_bill_complete p_bill_data p_expenses p_payments p_user_id now d = Inr (r, d')"
    and schema: "schema_constraints d"
    and fresh: "uuid_fresh d"
    and e_distinct: "distinct (incoming_expense_ids p_expenses)"
    and e_attached: "expenses_attached d (bill_id r) p_expenses"
    and p_distinct: "distinct (incoming_payment_ids p_payments)"
    and p_attached: "payments_attached d (bill_id r) p_payments"
  shows "success r \<and>
     (length (expense_ids r) = length p_expenses \<and>
      (\<forall>i<length p_expenses. case exp_id (p_expenses ! i) of
           Some x \<Rightarrow> expense_ids r ! i = x
         | None \<Rightarrow> expense_ids r ! i \<notin> ae_id ` set (additional_expenses d)) \<and>
      mset (map converted (expense_rows d' (bill_id r))) =
        mset (zip (expense_ids r) (map (cast_expense (date_in d)) p_expenses)) \<and>
      distinct (expense_ids r) \<and>
      (\<forall>ae \<in> set (additional_expenses d).
         ae_monthly_bill_id ae = bill_id r \<and> ae_id ae \<notin> set (incoming_expense_ids p_expenses) \<longrightarrow>
         ae_id ae \<notin> fst ` set (expense_rows d' (bill_id r)))) \<and>
     (length (payment_ids r) = length p_payments \<and>
      (\<forall>i<length p_payments. case pay_id (p_payments ! i) of
           Some x \<Rightarrow> payment_ids r ! i = x
         | None \<Rightarrow> payment_ids r ! i \<notin> bp_id ` set (bill_payments d)) \<and>
      mset (map converted (payment_rows d' (bill_id r))) =
        mset (zip (payment_ids r) (map (cast_payment (date_in d)) p_payments)) \<and>
      distinct (payment_ids r) \<and>
      (\<forall>bp \<in> set (bill_payments d).
         bp_monthly_bill_id bp = bill_id r \<and> bp_id bp \<notin> set (incoming_payment_ids p_payments) \<longrightarrow>
         bp_id bp \<notin> fst ` set (payment_rows d' (bill_id r))))"
proof -
  let ?b = "bill_id r"
  from save obtain d1 d4 where
    up: "upsert_monthly_bill p_bill_data p_user_id now d = Inr (?b, d1)"
    and pe: "process_expenses ?b now p_expenses
       ([], delete_payments_not_in ?b p_payments (delete_expenses_not_in ?b p_expenses d1))
       = Inr (expense_ids r, d4)"
    and pp: "process_payments ?b now p_payments ([], d4) = Inr (payment_ids r, d')"
    and ok: "success r"
    by (rule save_bill_complete_steps)
  let ?d3 = "delete_payments_not_in ?b p_payments (delete_expenses_not_in ?b p_expenses d1)"
  note f1 = upsert_monthly_bill_frame [OF up]
  have T3: "additional_expenses ?d3 =
        filter (\<lambda>ae. \<not> (ae_monthly_bill_id ae = ?b \<and> ae_id ae \<notin> set (incoming_expense_ids p_expenses)))
          (additional_expenses d)"
    using f1 by (simp add: delete_payments_not_in_def delete_expenses_not_in_def)
  have P3: "bill_payments ?d3 =
        filter (\<lambda>bp. \<not> (bp_monthly_bill_id bp = ?b \<and> bp_id bp \<notin> set (incoming_payment_ids p_payments)))
          (bill_payments d)"
    using f1 by (simp add: delete_payments_not_in_def delete_expenses_not_in_def)
  have seq3: "uuid_seq d \<le> uuid_seq ?d3"
    using f1 by (simp add: delete_payments_not_in_def delete_expenses_not_in_def)
  have din3: "date_in ?d3 = date_in d"
    using f1 by (simp add: delete_payments_not_in_def delete_expenses_not_in_def)
  from schema have e_dist: "distinct (map ae_id (additional_expenses d))"
    and p_dist: "distinct (map bp_id (bill_payments d))"
    by (simp_all add: schema_constraints_def)
  from fresh have e_bound: "\<forall>ae \<in> set (additional_expenses d). ae_id ae < uuid_seq d"
    and p_bound: "\<forall>bp \<in> set (bill_payments d). bp_id bp < uuid_seq d"
    by (simp_all add: uuid_fresh_def)
  note e = expenses_delete_then_process [OF pe T3 e_dist e_bound seq3 e_distinct e_attached]
  note f4 = process_expenses_frame [OF pe]
  from f4 P3 have P4: "bill_payments d4 =
        filter (\<lambda>bp. \<not> (bp_monthly_bill_id bp = ?b \<and> bp_id bp \<notin> set (incoming_payment_ids p_payments)))
          (bill_payments d)"
    by simp
  from f4 seq3 have seq4: "uuid_seq d \<le> uuid_seq d4" by simp
  from f4 din3 have din4: "date_in d4 = date_in d" by simp
  note p = payments_delete_then_process [OF pp P4 p_dist p_bound seq4 p_distinct p_attached]
  from process_payments_frame [OF pp] have "additional_expenses d' = additional_expenses d4"
    by simp
  then have rows: "expense_rows d' ?b = expense_rows d4 ?b"
    by (simp add: expense_rows_def)
  have e': "length (expense_ids r) = length p_expenses \<and>
      (\<forall>i<length p_expenses. case exp_id (p_expenses ! i) of
           Some x \<Rightarrow> expense_ids r ! i = x
         | None \<Rightarrow> expense_ids r ! i \<notin> ae_id ` set (additional_expenses d)) \<and>
      mset (map converted (expense_rows d' ?b)) =
        mset (zip (expense_ids r) (map (cast_expense (date_in d)) p_expenses)) \<and>
      distinct (expense_ids r) \<and>
      (\<forall>ae \<in> set (additional_expenses d).
         ae_monthly_bill_id ae = ?b \<and> ae_id ae \<notin> set (incoming_expense_ids p_expenses) \<longrightarrow>
         ae_id ae \<notin> fst ` set (expense_rows d' ?b))"
    unfolding rows
    by (intro conjI e [THEN conjunct1] e [THEN conjunct2, THEN conjunct1]
        e [THEN conjunct2, THEN conjunct2, THEN conjunct1, unfolded din3]
        e [THEN conjunct2, THEN conjunct2, THEN conjunct2, THEN conjunct1]
        e [THEN conjunct2, THEN conjunct2, THEN conjunct2, THEN conjunct2, THEN conjunct1])
  have p': "length (payment_ids r) = length p_payments \<and>
      (\<forall>i<length p_payments. case pay_id (p_payments ! i) of
           Some x \<Rightarrow> payment_ids r ! i = x
         | None \<Rightarrow> payment_ids r ! i \<notin> bp_id ` set (bill_payments d)) \<and>
      mset (map converted (payment_rows d' ?b)) =
        mset (zip (payment_ids r) (map (cast_payment (date_in d)) p_payments)) \<and>
      distinct (payment_ids r) \<and>
      (\<forall>bp \<in> set (bill_payments d).
         bp_monthly_bill_id bp = ?b \<and> bp_id bp \<notin> set (incoming_payment_ids p_payments) \<longrightarrow>
         bp_id bp \<notin> fst ` set (payment_rows d' ?b))"
    by (intro conjI p [THEN conjunct1] p [THEN conjunct2, THEN conjunct1]
        p [THEN conjunct2, THEN conjunct2, THEN conjunct1, unfolded din4]
        p [THEN conjunct2, THEN conjunct2, THEN conjunct2, THEN conjunct1]
        p [THEN conjunct2, THEN conjunct2, THEN conjunct2, THEN conjunct2, THEN conjunct1])
  show ?thesis
    by (rule conjI [OF ok conjI [OF e' p']])
qed

lemma same_keys_after_updates:
  "(\<lambda>ae. (ae_id ae, ae_monthly_bill_id ae)) ` set (map (expense_updates din b xs) T) =
   (\<lambda>ae. (ae_id ae, ae_monthly_bill_id ae)) ` set T"
  "(\<lambda>bp. (bp_id bp, bp_monthly_bill_id bp)) ` set (map (payment_updates din b ps) P) =
   (\<lambda>bp. (bp_id bp, bp_monthly_bill_id bp)) ` set P"
  by (simp_all add: image_image)

text \<open>
  Claim C4. Reconciliation is idempotent: when all incoming expenses and payments carry
  an identity and a save returns a result, a second save of the same input (at any later
  time) returns the same result, that is the same \<open>bill_id\<close> and the same identity lists,
  and leaves the tables of expense rows and payment rows exactly as the first save left
  them.
\<close>

theorem save_bill_complete_idempotent:
  assumes e_assigned: "\<forall>x \<in> set p_expenses. exp_id x \<noteq> None"
    and p_assigned: "\<forall>x \<in> set p_payments. pay_id x \<noteq> None"
    and first: "save_bill_complete p_bill_data p_expenses p_payments p_user_id now1 d = Inr (r1, d1)"
  shows "\<exists>d2. save_bill_complete p_bill_data p_expenses p_payments p_user_id now2 d1 = Inr (r1, d2) \<and>
              additional_expenses d2 = additional_expenses d1 \<and>
              bill_payments d2 = bill_payments d1"
proof -
  let ?b = "bill_id r1"
  let ?Ke = "\<lambda>ae. \<not> (ae_monthly_bill_id ae = ?b \<and> ae_id ae \<notin> set (incoming_expense_ids p_expenses))"
  let ?Kp = "\<lambda>bp. \<not> (bp_monthly_bill_id bp = ?b \<and> bp_id bp \<notin> set (incoming_payment_ids p_payments))"
  let ?Ue = "expense_updates (date_in d) ?b p_expenses"
  let ?Up = "payment_updates (date_in d) ?b p_payments"
  from first obtain u1 u4 where
    up: "upsert_monthly_bill p_bill_data p_user_id now1 d = Inr (?b, u1)"
    and pe: "process_expenses ?b now1 p_expenses
       ([], delete_payments_not_in ?b p_payments (delete_expenses_not_in ?b p_expenses u1))
       = Inr (expense_ids r1, u4)"
    and pp: "process_payments ?b now1 p_payments ([], u4) = Inr (payment_ids r1, d1)"
    and ok: "success r1"
    by (rule save_bill_complete_steps)
  let ?u3 = "delete_payments_not_in ?b p_payments (delete_expenses_not_in ?b p_expenses u1)"
  have din_u3: "date_in ?u3 = date_in d"
    using upsert_monthly_bill_frame [OF up]
    by (simp add: delete_payments_not_in_def delete_expenses_not_in_def)
  have din_u4: "date_in u4 = date_in d"
    using process_expenses_frame [OF pe] din_u3 by simp
  have din_d1: "date_in d1 = date_in d"
    using process_payments_frame [OF pp] din_u4 by simp
  from process_expenses_assigned [OF e_assigned pe]
  have ids_e: "expense_ids r1 = incoming_expense_ids p_expenses"
    and u4: "u4 = ?u3\<lparr>additional_expenses := map ?Ue (additional_expenses ?u3)\<rparr>"
    unfolding din_u3 by simp_all
  from process_payments_assigned [OF p_assigned pp]
  have ids_p: "payment_ids r1 = incoming_payment_ids p_payments"
    and d1: "d1 = u4\<lparr>bill_payments := map ?Up (bill_payments u4)\<rparr>"
    unfolding din_u4 by simp_all
  have r1: "r1 = \<lparr>bill_id = ?b, expense_ids = incoming_expense_ids p_expenses,
                  payment_ids = incoming_payment_ids p_payments, success = True\<rparr>"
    using ids_e ids_p ok by simp
  have E3: "additional_expenses ?u3 = filter ?Ke (additional_expenses u1)"
    and P3: "bill_payments ?u3 = filter ?Kp (bill_payments u1)"
    by (simp_all add: delete_payments_not_in_def delete_expenses_not_in_def)
  have P4: "bill_payments u4 = filter ?Kp (bill_payments u1)"
    by (simp add: u4 P3)
  have E1: "additional_expenses d1 = map ?Ue (filter ?Ke (additional_expenses u1))"
    and P1: "bill_payments d1 = map ?Up (filter ?Kp (bill_payments u1))"
    and B1: "monthly_bills d1 = monthly_bills u1"
    by (simp_all add: d1 u4 delete_payments_not_in_def delete_expenses_not_in_def)
  from upsert_monthly_bill_converts [OF up] obtain c where
    "cast_bill_data (date_in d) p_bill_data = Inr c" ..
  then have c: "cast_bill_data (date_in d1) p_bill_data = Inr c"
    by (simp only: din_d1)
  from upsert_monthly_bill_found [OF up] B1 obtain ex where
    ex: "find (\<lambda>r. bill_key r = (renter_id p_bill_data, bill_month p_bill_data, bill_year p_bill_data))
       (monthly_bills d1) = Some ex" and ex_id: "mb_id ex = ?b"
    by auto
  from upsert_monthly_bill_existing [OF c ex, of p_user_id now2] ex_id obtain v1 where
    up2: "upsert_monthly_bill p_bill_data p_user_id now2 d1 = Inr (?b, v1)"
    and Ev: "additional_expenses v1 = additional_expenses d1"
    and Pv: "bill_payments v1 = bill_payments d1"
    and din_v1: "date_in v1 = date_in d1"
    by auto
  let ?v3 = "delete_payments_not_in ?b p_payments (delete_expenses_not_in ?b p_expenses v1)"
  have din_v3: "date_in ?v3 = date_in d"
    using din_v1 din_d1 by (simp add: delete_payments_not_in_def delete_expenses_not_in_def)
  have "additional_expenses ?v3 = filter ?Ke (additional_expenses v1)"
    by (simp add: delete_payments_not_in_def delete_expenses_not_in_def)
  also have "\<dots> = filter ?Ke (map ?Ue (filter ?Ke (additional_expenses u1)))"
    by (simp only: Ev E1)
  also have "\<dots> = map ?Ue (filter ?Ke (additional_expenses u1))"
    by (rule delete_expenses_after_updates)
  finally have Ev3: "additional_expenses ?v3 = map ?Ue (additional_expenses ?u3)"
    by (simp only: E3)
  have "bill_payments ?v3 = filter ?Kp (bill_payments v1)"
    by (simp add: delete_payments_not_in_def delete_expenses_not_in_def)
  also have "\<dots> = filter ?Kp (map ?Up (filter ?Kp (bill_payments u1)))"
    by (simp only: Pv P1)
  also have "\<dots> = map ?Up (filter ?Kp (bill_payments u1))"
    by (rule delete_payments_after_updates)
  finally have Pv3: "bill_payments ?v3 = map ?Up (bill_payments u4)"
    by (simp only: P4)
  have "(\<lambda>ae. (ae_id ae, ae_monthly_bill_id ae)) ` set (additional_expenses ?v3) \<subseteq>
      (\<lambda>ae. (ae_id ae, ae_monthly_bill_id ae)) ` set (additional_expenses ?u3)"
    unfolding Ev3 same_keys_after_updates by (rule subset_refl)
  with process_expenses_again [OF e_assigned pe, of ?v3 now2 "[]"] din_v3 din_u3
  obtain ids2 v4 where pe2: "process_expenses ?b now2 p_expenses ([], ?v3) = Inr (ids2, v4)"
    by auto
  from process_expenses_assigned [OF e_assigned pe2]
  have ids2: "ids2 = incoming_expense_ids p_expenses"
    and v4: "v4 = ?v3\<lparr>additional_expenses := map ?Ue (additional_expenses ?v3)\<rparr>"
    unfolding din_v3 by simp_all
  have din_v4: "date_in v4 = date_in d" by (simp add: v4 din_v3)
  have Pv4: "bill_payments v4 = map ?Up (bill_payments u4)"
    by (simp add: v4 Pv3)
  have "(\<lambda>bp. (bp_id bp, bp_monthly_bill_id bp)) ` set (bill_payments v4) \<subseteq>
      (\<lambda>bp. (bp_id bp, bp_monthly_bill_id bp)) ` set (bill_payments u4)"
    unfolding Pv4 same_keys_after_updates by (rule subset_refl)
  with process_payments_again [OF p_assigned pp, of v4 now2 "[]"] din_v4 din_u4
  obtain ids3 d2 where pp2: "process_payments ?b now2 p_payments ([], v4) = Inr (ids3, d2)"
    by auto
  from process_payments_assigned [OF p_assigned pp2]
  have ids3: "ids3 = incoming_payment_ids p_payments"
    and d2: "d2 = v4\<lparr>bill_payments := map ?Up (bill_payments v4)\<rparr>"
    unfolding din_v4 by simp_all
  have "additional_expenses d2 = map ?Ue (additional_expenses ?v3)"
    by (simp add: d2 v4)
  also have "\<dots> = map ?Ue (map ?Ue (filter ?Ke (additional_expenses u1)))"
    by (simp only: Ev3 E3)
  also have "\<dots> = map ?Ue (filter ?Ke (additional_expenses u1))"
    by (rule map_expense_updates_idem)
  finally have E2: "additional_expenses d2 = additional_expenses d1"
    by (simp only: E1)
  have "bill_payments d2 = map ?Up (bill_payments v4)"
    by (simp add: d2)
  also have "\<dots> = map ?Up (map ?Up (filter ?Kp (bill_payments u1)))"
    by (simp only: Pv4 P4)
  also have "\<dots> = map ?Up (filter ?Kp (bill_payments u1))"
    by (rule map_payment_updates_idem)
  finally have P2: "bill_payments d2 = bill_payments d1"
    by (simp only: P1)
  have "save_bill_complete p_bill_data p_expenses p_payments p_user_id now2 d1 =
      Inr (\<lparr>bill_id = ?b, expense_ids = incoming_expense_ids p_expenses,
             payment_ids = incoming_payment_ids p_payments, success = True\<rparr>, d2)"
    by (simp add: save_bill_complete_def up2 Let_def pe2 pp2 ids2 ids3)
  with r1 have "save_bill_complete p_bill_data p_expenses p_payments p_user_id now2 d1 = Inr (r1, d2)"
    by simp
  with E2 P2 show ?thesis by blast
qed

subsection \<open>The reconciliation on the fixtures\<close>

lemma two_expenses_store_ok:
  "schema_constraints two_expenses_store \<and> uuid_fresh two_expenses_store"
  by (simp add: schema_constraints_def uuid_fresh_def two_expenses_store_def year_boundary_store_def)

lemma two_expenses_store_date_in: "date_in two_expenses_store = iso_date_in"
  by (simp add: two_expenses_store_def year_boundary_store_def)

lemma returned_pair: "\<not> isl s \<Longrightarrow> s = Inr (fst (projr s), snd (projr s))"
  by (cases s) simp_all

lemma set_diff_save:
  "\<not> isl (save_bill_complete (decBillData 7 2026)
       [plumbing_repair (Some 1), (plumbing_repair None)\<lparr>exp_amount := 2469 / 200\<rparr>]
       [partial_payment None] 1 5 two_expenses_store)"
  "fst (projr (save_bill_complete (decBillData 7 2026)
       [plumbing_repair (Some 1), (plumbing_repair None)\<lparr>exp_amount := 2469 / 200\<rparr>]
       [partial_payment None] 1 5 two_expenses_store)) =
     \<lparr>bill_id = 0, expense_ids = [1, 3], payment_ids = [4], success = True\<rparr>"
  by code_simp+

lemma set_diff_converted:
  "zip [1, 3] (map (cast_expense iso_date_in)
       [plumbing_repair (Some 1), (plumbing_repair None)\<lparr>exp_amount := 2469 / 200\<rparr>]) =
     [(1::nat, Inr (''Plumbing repair'', 500, ''2025-11-10'')),
      (3, Inr (''Plumbing repair'', 247 / 20, ''2025-11-10''))]"
  "zip [4] (map (cast_payment iso_date_in) [partial_payment None]) =
     [(4::nat, Inr (5000, ''2025-11-05'', online, Some ''Partial payment''))]"
  by code_simp+

theorem save_bill_complete_reconciles_witness:
  "map_sum id fst
     (save_bill_complete (decBillData 7 2026)
        [plumbing_repair (Some 1), (plumbing_repair None)\<lparr>exp_amount := 2469 / 200\<rparr>]
        [partial_payment None] 1 5 two_expenses_store) =
     Inr \<lparr>bill_id = 0, expense_ids = [1, 3], payment_ids = [4], success = True\<rparr> \<and>
   mset (map converted (expense_rows (snd (projr
     (save_bill_complete (decBillData 7 2026)
        [plumbing_repair (Some 1), (plumbing_repair None)\<lparr>exp_amount := 2469 / 200\<rparr>]
        [partial_payment None] 1 5 two_expenses_store))) 0)) =
     mset [(1, Inr (''Plumbing repair'', 500, ''2025-11-10'')),
           (3, Inr (''Plumbing repair'', 247 / 20, ''2025-11-10''))] \<and>
   2 \<notin> fst ` set (expense_rows (snd (projr
     (save_bill_complete (decBillData 7 2026)
        [plumbing_repair (Some 1), (plumbing_repair None)\<lparr>exp_amount := 2469 / 200\<rparr>]
        [partial_payment None] 1 5 two_expenses_store))) 0) \<and>
   mset (map converted (payment_rows (snd (projr
     (save_bill_complete (decBillData 7 2026)
        [plumbing_repair (Some 1), (plumbing_repair None)\<lparr>exp_amount := 2469 / 200\<rparr>]
        [partial_payment None] 1 5 two_expenses_store))) 0)) =
     mset [(4, Inr (5000, ''2025-11-05'', online, Some ''Partial payment''))]"
proof -
  let ?xs = "[plumbing_repair (Some 1), (plumbing_repair None)\<lparr>exp_amount := 2469 / 200\<rparr>]"
  let ?ps = "[partial_payment None]"
  let ?S = "save_bill_complete (decBillData 7 2026) ?xs ?ps 1 5 two_expenses_store"
  let ?R = "\<lparr>bill_id = 0, expense_ids = [1, 3], payment_ids = [4], success = True\<rparr>"
  note R = set_diff_save(2)
  have S: "?S = Inr (fst (projr ?S), snd (projr ?S))"
    using set_diff_save(1) by (rule returned_pair)
  have c1: "schema_constraints two_expenses_store" and c2: "uuid_fresh two_expenses_store"
    using two_expenses_store_ok by simp_all
  have c3: "distinct (incoming_expense_ids ?xs)" by code_simp
  have c4: "expenses_attached two_expenses_store (bill_id (fst (projr ?S))) ?xs"
    unfolding R by code_simp
  have c5: "distinct (incoming_payment_ids ?ps)" by code_simp
  have c6: "payments_attached two_expenses_store (bill_id (fst (projr ?S))) ?ps"
    unfolding R by code_simp
  note th = save_bill_complete_reconciles [OF S c1 c2 c3 c4 c5 c6]
  note e = th [THEN conjunct2, THEN conjunct1]
  note p = th [THEN conjunct2, THEN conjunct2]
  from e [THEN conjunct2, THEN conjunct2, THEN conjunct1]
  have e3: "mset (map converted (expense_rows (snd (projr ?S)) 0)) =
      mset [(1, Inr (''Plumbing repair'', 500, ''2025-11-10'')),
            (3, Inr (''Plumbing repair'', 247 / 20, ''2025-11-10''))]"
    unfolding R two_expenses_store_date_in
    using set_diff_converted(1) by simp
  have row2: "\<lparr>ae_id = 2, ae_monthly_bill_id = 0, ae_description = ''Paint'',
            ae_amount = 100, ae_date = ''2025-12-02'', ae_created_at = 0\<rparr>
        \<in> set (additional_expenses two_expenses_store)"
    by (simp add: two_expenses_store_def)
  have not2: "2 \<notin> set (incoming_expense_ids ?xs)" by code_simp
  from e [THEN conjunct2, THEN conjunct2, THEN conjunct2, THEN conjunct2, rule_format, OF row2] not2
  have e5: "2 \<notin> fst ` set (expense_rows (snd (projr ?S)) 0)"
    unfolding R by simp
  from p [THEN conjunct2, THEN conjunct2, THEN conjunct1]
  have p3: "mset (map converted (payment_rows (snd (projr ?S)) 0)) =
      mset [(4, Inr (5000, ''2025-11-05'', online, Some ''Partial payment''))]"
    unfolding R two_expenses_store_date_in
    using set_diff_converted(2) by simp
  have "?S = Inr (?R, snd (projr ?S))"
    using S unfolding R .
  then have r: "map_sum id fst ?S = Inr ?R"
    by (rule ssubst) simp
  show ?thesis
    by (rule conjI [OF r conjI [OF e3 conjI [OF e5 p3]]])
qed

text \<open>
  Claim C1 as stated fails on identities that are no longer attached and on contents that
  do not fit the columns. In the store with expense rows 1 and 2 a first client saves the
  bill with row 1 only, which deletes row 2. A second client still holds the aggregate it
  fetched before, with both rows, and saves it: the \<open>UPDATE\<close> for identity 2 matches
  nothing, the save succeeds and returns the identities 1 and 2, and the bill has the one
  row 1. And a new expense of 12.345 is stored as 12.35.
\<close>

theorem save_bill_complete_stale_identity:
  "schema_constraints (snd (projr
     (save_bill_complete (decBillData 7 2026) [plumbing_repair (Some 1)] [] 1 5
        two_expenses_store))) \<and>
   uuid_fresh (snd (projr
     (save_bill_complete (decBillData 7 2026) [plumbing_repair (Some 1)] [] 1 5
        two_expenses_store))) \<and>
   incoming_expense_ids (map expense_to_json (additional_expenses two_expenses_store)) = [1, 2] \<and>
   map_sum id fst
     (save_bill_complete (decBillData 7 2026)
        (map expense_to_json (additional_expenses two_expenses_store)) [] 1 9
        (snd (projr
          (save_bill_complete (decBillData 7 2026) [plumbing_repair (Some 1)] [] 1 5
             two_expenses_store)))) =
     Inr \<lparr>bill_id = 0, expense_ids = [1, 2], payment_ids = [], success = True\<rparr> \<and>
   expense_rows (snd (projr
     (save_bill_complete (decBillData 7 2026)
        (map expense_to_json (additional_expenses two_expenses_store)) [] 1 9
        (snd (projr
          (save_bill_complete (decBillData 7 2026) [plumbing_repair (Some 1)] [] 1 5
             two_expenses_store)))))) 0 =
     [(1, ''Repair'', 400, ''2025-12-01'')] \<and>
   map_sum id fst
     (save_bill_complete (decBillData 7 2026)
        [(plumbing_repair None)\<lparr>exp_amount := 2469 / 200\<rparr>] [] 1 5
        (year_boundary_store 7 2026)) =
     Inr \<lparr>bill_id = 0, expense_ids = [1], payment_ids = [], success = True\<rparr> \<and>
   expense_rows (snd (projr
     (save_bill_complete (decBillData 7 2026)
        [(plumbing_repair None)\<lparr>exp_amount := 2469 / 200\<rparr>] [] 1 5
        (year_boundary_store 7 2026)))) 0 =
     [(1, ''Plumbing repair'', 247 / 20, ''2025-11-10'')]"
  by code_simp

lemma idempotent_first_save:
  "\<not> isl (save_bill_complete (decBillData 7 2026) [plumbing_repair (Some 1)] [] 1 5
            two_expenses_store)"
  "fst (projr (save_bill_complete (decBillData 7 2026) [plumbing_repair (Some 1)] [] 1 5
            two_expenses_store)) =
     \<lparr>bill_id = 0, expense_ids = [1], payment_ids = [], success = True\<rparr>"
  by code_simp+

theorem save_bill_complete_idempotent_witness:
  "map_sum id fst
     (save_bill_complete (decBillData 7 2026) [plumbing_repair (Some 1)] [] 1 5 two_expenses_store) =
     Inr \<lparr>bill_id = 0, expense_ids = [1], payment_ids = [], success = True\<rparr> \<and>
   map_sum id fst
     (save_bill_complete (decBillData 7 2026) [plumbing_repair (Some 1)] [] 1 9
        (snd (projr (save_bill_complete (decBillData 7 2026) [plumbing_repair (Some 1)] [] 1 5
                       two_expenses_store)))) =
     Inr \<lparr>bill_id = 0, expense_ids = [1], payment_ids = [], success = True\<rparr> \<and>
   additional_expenses (snd (projr
     (save_bill_complete (decBillData 7 2026) [plumbing_repair (Some 1)] [] 1 9
        (snd (projr (save_bill_complete (decBillData 7 2026) [plumbing_repair (Some 1)] [] 1 5
                       two_expenses_store)))))) =
   additional_expenses (snd (projr
     (save_bill_complete (decBillData 7 2026) [plumbing_repair (Some 1)] [] 1 5 two_expenses_store))) \<and>
   bill_payments (snd (projr
     (save_bill_complete (decBillData 7 2026) [plumbing_repair (Some 1)] [] 1 9
        (snd (projr (save_bill_complete (decBillData 7 2026) [plumbing_repair (Some 1)] [] 1 5
                       two_expenses_store)))))) =
   bill_payments (snd (projr
     (save_bill_complete (decBillData 7 2026) [plumbing_repair (Some 1)] [] 1 5 two_expenses_store)))"
proof -
  let ?xs = "[plumbing_repair (Some 1)]"
  let ?ps = "[] :: BillPayment list"
  let ?S = "save_bill_complete (decBillData 7 2026) ?xs ?ps 1 5 two_expenses_store"
  let ?R = "\<lparr>bill_id = 0, expense_ids = [1], payment_ids = [], success = True\<rparr>"
  have a1: "\<forall>x \<in> set ?xs. exp_id x \<noteq> None" by (simp add: plumbing_repair_def)
  have a2: "\<forall>x \<in> set ?ps. pay_id x \<noteq> None" by simp
  have S: "?S = Inr (?R, snd (projr ?S))"
    using returned_pair [OF idempotent_first_save(1)] unfolding idempotent_first_save(2) .
  from save_bill_complete_idempotent [OF a1 a2 S, of 9]
  obtain d2 where
    second: "save_bill_complete (decBillData 7 2026) ?xs ?ps 1 9 (snd (projr ?S)) = Inr (?R, d2)"
    and e: "additional_expenses d2 = additional_expenses (snd (projr ?S))"
    and p: "bill_payments d2 = bill_payments (snd (projr ?S))"
    by auto
  have r1: "map_sum id fst ?S = Inr ?R"
    by (subst S) simp
  have r2: "map_sum id fst (save_bill_complete (decBillData 7 2026) ?xs ?ps 1 9 (snd (projr ?S))) =
      Inr ?R"
    unfolding second by simp
  have e2: "additional_expenses (snd (projr (save_bill_complete (decBillData 7 2026) ?xs ?ps 1 9
        (snd (projr ?S))))) = additional_expenses (snd (projr ?S))"
    unfolding second using e by simp
  have p2: "bill_payments (snd (projr (save_bill_complete (decBillData 7 2026) ?xs ?ps 1 9
        (snd (projr ?S))))) = bill_payments (snd (projr ?S))"
    unfolding second using p by simp
  show ?thesis
    by (rule conjI [OF r1 conjI [OF r2 conjI [OF e2 p2]]])
qed

section \<open>Properties of the timeout\<close>

lemma with_timeout_outcome:
  "with_timeout queryFn ms w =
     (case fst (queryFn w) of
        Settles t r \<Rightarrow>
          if t \<le> ms then r else Inl ''Query timeout - operation took longer than expected''
      | Pending \<Rightarrow> Inl ''Query timeout - operation took longer than expected'',
      snd (queryFn w))"
  by (cases "queryFn w")
     (simp add: with_timeout_def queryWithTimeout_cases await_def split: promise.splits)

lemma attempt_outcome_with_timeout:
  "attempt_outcome (with_timeout queryFn ms) w k =
     (case attempt_promise queryFn w k of
        Settles t r \<Rightarrow>
          if t \<le> ms then r else Inl ''Query timeout - operation took longer than expected''
      | Pending \<Rightarrow> Inl ''Query timeout - operation took longer than expected'')"
  by (induction k arbitrary: w) (simp_all add: with_timeout_outcome)

lemma late_attempt:
  "\<not> timely (attempt_promise queryFn w k) ms \<Longrightarrow>
   attempt_outcome (with_timeout queryFn ms) w k =
     Inl ''Query timeout - operation took longer than expected''"
  by (simp add: attempt_outcome_with_timeout timely_def split: promise.splits)

lemma execute_all_late:
  assumes "\<forall>j\<le>maxRetries. \<not> timely (attempt_promise queryFn w j) ms"
  shows "fst (execute (with_timeout queryFn ms) ctx w) =
           Inl (ctx @ '' failed after 2 retries: '' @
                ''Query timeout - operation took longer than expected'') \<and>
         calls (snd (execute (with_timeout queryFn ms) ctx w)) = maxRetries + 1"
proof -
  let ?q = "with_timeout queryFn ms"
  from assms have out: "\<forall>j\<le>maxRetries. attempt_outcome ?q w j =
      Inl ''Query timeout - operation took longer than expected''"
    by (simp add: late_attempt)
  then have "\<forall>j\<le>maxRetries. isl (attempt_outcome ?q w j)" by simp
  with execute_loop_exhausted [of 0 maxRetries ?q "\<lparr>world = w, calls = 0, slept = []\<rparr>" ctx None]
  have "fst (execute ?q ctx w) =
      Inl (ctx @ '' failed after 2 retries: '' @ projl (attempt_outcome ?q w maxRetries)) \<and>
      calls (snd (execute ?q ctx w)) = maxRetries + 1"
    by (simp add: execute_def)
  with out show ?thesis by simp
qed

lemma execute_late_then_timely:
  assumes "k \<le> maxRetries"
    and "\<forall>j<k. \<not> timely (attempt_promise queryFn w j) ms"
    and "attempt_promise queryFn w k = Settles t (Inr v)" and "t \<le> ms"
  shows "fst (execute (with_timeout queryFn ms) ctx w) = Inr v \<and>
         calls (snd (execute (with_timeout queryFn ms) ctx w)) = k + 1"
proof -
  let ?q = "with_timeout queryFn ms"
  from assms(2) have "\<forall>j<k. isl (attempt_outcome ?q w j)"
    by (simp add: late_attempt)
  moreover from assms(3,4) have "attempt_outcome ?q w k = Inr v"
    by (simp add: attempt_outcome_with_timeout)
  ultimately show ?thesis
    using execute_loop_success [of 0 k ?q "\<lparr>world = w, calls = 0, slept = []\<rparr>" v ctx None] assms(1)
    by (simp add: execute_def)
qed

lemma getBillWithDetails_late:
  assumes "response_ms (db sb) = None \<or> (\<exists>t. response_ms (db sb) = Some t \<and> 5000 < t)"
  shows "getBillWithDetails sb renterId month year =
     Inl ''Failed to fetch bill details: getBillWithDetails failed after 2 retries: Query timeout - operation took longer than expected''"
  using assms by (auto simp: getBillWithDetails_eq)

lemma saveBillComplete_body_frame:
  "response_ms (db (snd (saveBillComplete_body billData expenses billPayments now sb))) =
     response_ms (db sb)"
  by (auto simp: saveBillComplete_body_def save_bill_complete_frame
      split: option.splits sum.splits)

lemma saveBillComplete_query_frame:
  "response_ms (db (snd (saveBillComplete_query billData expenses billPayments now sb))) =
     response_ms (db sb)"
  using saveBillComplete_body_frame [of billData expenses billPayments now sb]
  by (cases "saveBillComplete_body billData expenses billPayments now sb")
     (auto simp: saveBillComplete_query_def split: option.splits)

lemma saveBillComplete_query_late:
  assumes "response_ms (db sb) = None \<or> (\<exists>t. response_ms (db sb) = Some t \<and> 5000 < t)"
  shows "\<not> timely (attempt_promise (saveBillComplete_query billData expenses billPayments now) sb j) 5000"
  using assms
proof (induction j arbitrary: sb)
  case 0
  then show ?case
    by (auto simp: saveBillComplete_query_def timely_def split: option.splits prod.splits)
next
  case (Suc j)
  let ?sb = "snd (saveBillComplete_query billData expenses billPayments now sb)"
  from Suc.prems have "response_ms (db ?sb) = None \<or> (\<exists>t. response_ms (db ?sb) = Some t \<and> 5000 < t)"
    by (simp only: saveBillComplete_query_frame)
  from Suc.IH [OF this] show ?case by simp
qed

lemma saveBillComplete_late:
  assumes "response_ms (db sb) = None \<or> (\<exists>t. response_ms (db sb) = Some t \<and> 5000 < t)"
  shows "fst (saveBillComplete billData expenses billPayments now sb) =
     Inl ''Failed to save bill: saveBillComplete failed after 2 retries: Query timeout - operation took longer than expected''"
proof -
  let ?q = "saveBillComplete_query billData expenses billPayments now"
  have "\<forall>j\<le>maxRetries. \<not> timely (attempt_promise ?q sb j) 5000"
    using saveBillComplete_query_late [OF assms] by simp
  from execute_all_late [OF this, of "''saveBillComplete''"]
  show ?thesis
    by (cases "execute (with_timeout ?q 5000) ''saveBillComplete'' sb")
       (simp add: saveBillComplete_def)
qed

lemma execute_first_attempt:
  "fst (queryFn w) = Inr v \<Longrightarrow>
   execute queryFn ctx w = (Inr v, \<lparr>world = snd (queryFn w), calls = 1, slept = []\<rparr>)"
  by (cases "queryFn w") (simp add: execute_def execute_loop.simps [of queryFn ctx 0])

lemma attempt_outcome_failing:
  "queryFn w = (Inl e, w) \<Longrightarrow> attempt_outcome queryFn w j = Inl e"
  by (induction j) simp_all

lemma saveBillComplete_body_failure:
  "saveBillComplete_body billData expenses billPayments now sb = (Inl e, w) \<Longrightarrow> w = sb"
  by (auto simp: saveBillComplete_body_def split: option.splits if_splits sum.splits)

text \<open>
  The client method succeeds only when the store answers in time and the RPC function
  succeeds, on the first attempt, and then the store is the one the function left: a
  failed call changes nothing, so a retry repeats the failure.
\<close>

lemma saveBillComplete_success:
  assumes "saveBillComplete billData expenses billPayments now sb = (Inr r, sb')"
  shows "\<exists>user d' t. response_ms (db sb) = Some t \<and> t \<le> 5000 \<and>
           auth_user sb = Some user \<and> rpc_available sb \<and>
           save_bill_complete (bill_columns billData) expenses billPayments user now (db sb) = Inr (r, d') \<and>
           sb' = sb\<lparr>db := d'\<rparr>"
proof -
  let ?q = "with_timeout (saveBillComplete_query billData expenses billPayments now) 5000"
  from assms have ok: "\<not> isl (fst (saveBillComplete billData expenses billPayments now sb))"
    by simp
  have "\<not> (response_ms (db sb) = None \<or> (\<exists>t. response_ms (db sb) = Some t \<and> 5000 < t))"
  proof
    assume "response_ms (db sb) = None \<or> (\<exists>t. response_ms (db sb) = Some t \<and> 5000 < t)"
    from saveBillComplete_late [OF this, of billData expenses billPayments now] ok
    show False by simp
  qed
  then obtain t where t: "response_ms (db sb) = Some t" "t \<le> 5000"
    by (cases "response_ms (db sb)") (auto simp: not_less)
  have q: "?q sb = saveBillComplete_body billData expenses billPayments now sb"
    using t by (simp add: with_timeout_outcome saveBillComplete_query_def split: prod.splits)
  obtain res w where b: "saveBillComplete_body billData expenses billPayments now sb = (res, w)"
    by (cases "saveBillComplete_body billData expenses billPayments now sb")
  show ?thesis
  proof (cases res)
    case (Inl e)
    with b have w: "w = sb" by (simp add: saveBillComplete_body_failure)
    with q b Inl have out: "\<forall>j\<le>maxRetries. isl (attempt_outcome ?q sb j)"
      by (simp add: attempt_outcome_failing)
    have "isl (fst (execute ?q ''saveBillComplete'' sb))"
      using execute_loop_exhausted [of 0 maxRetries ?q "\<lparr>world = sb, calls = 0, slept = []\<rparr>"
          "''saveBillComplete''" None] out
      by (simp add: execute_def)
    with assms show ?thesis
      by (cases "execute ?q ''saveBillComplete'' sb")
         (auto simp: saveBillComplete_def split: sum.splits)
  next
    case (Inr r0)
    with q b have "execute ?q ''saveBillComplete'' sb = (Inr r0, \<lparr>world = w, calls = 1, slept = []\<rparr>)"
      using execute_first_attempt [of ?q sb r0 "''saveBillComplete''"] by simp
    with assms have r: "r0 = r" and w: "w = sb'"
      by (simp_all add: saveBillComplete_def)
    from b Inr r w t show ?thesis
      by (auto simp: saveBillComplete_body_def split: option.splits if_splits sum.splits)
  qed
qed

text \<open>
  Claim C9. \<open>queryWithTimeout(.., 5000)\<close> always settles, after 5000 ms at the latest. A
  wrapped operation that has not settled within 5000 ms (it settles later, or never) makes
  the attempt fail with the error \<open>Query timeout - operation took longer than expected\<close>;
  one that has settled within 5000 ms passes its own outcome on. Under
  \<open>RetryableQuery.execute\<close> such a failure counts like any other: an attempt whose
  operation is late yields the timeout error; when the operations of all three attempts
  are late, \<open>execute\<close> gives up after three invocations with the timeout error as the last
  error; and when the first \<open>k\<close> are late and the next one returns a value in time, that
  value is returned after \<open>k + 1\<close> invocations. For \<open>getBillWithDetails\<close> and
  \<open>saveBillComplete\<close>, which hand their operation to \<open>queryWithTimeout\<close> with 5000 ms, a
  store that answers later than that, or never, makes the method fail with the timeout
  error after the retries.
\<close>

theorem queryWithTimeout_bounds_attempt:
  "(\<exists>t r. queryWithTimeout p 5000 = Settles t r \<and> t \<le> 5000) \<and>
   (\<not> timely p 5000 \<longrightarrow>
      queryWithTimeout p 5000 =
        Settles 5000 (Inl ''Query timeout - operation took longer than expected'')) \<and>
   (timely p 5000 \<longrightarrow> queryWithTimeout p 5000 = p) \<and>
   (\<not> timely (attempt_promise queryFn w k) 5000 \<longrightarrow>
      attempt_outcome (with_timeout queryFn 5000) w k =
        Inl ''Query timeout - operation took longer than expected'') \<and>
   ((\<forall>j\<le>maxRetries. \<not> timely (attempt_promise queryFn w j) 5000) \<longrightarrow>
      fst (execute (with_timeout queryFn 5000) ctx w) =
        Inl (ctx @ '' failed after 2 retries: '' @
             ''Query timeout - operation took longer than expected'') \<and>
      calls (snd (execute (with_timeout queryFn 5000) ctx w)) = maxRetries + 1) \<and>
   (k \<le> maxRetries \<and> (\<forall>j<k. \<not> timely (attempt_promise queryFn w j) 5000) \<and>
    attempt_promise queryFn w k = Settles t (Inr v) \<and> t \<le> 5000 \<longrightarrow>
      fst (execute (with_timeout queryFn 5000) ctx w) = Inr v \<and>
      calls (snd (execute (with_timeout queryFn 5000) ctx w)) = k + 1) \<and>
   (response_ms (db sb) = None \<or> (\<exists>t. response_ms (db sb) = Some t \<and> 5000 < t) \<longrightarrow>
      getBillWithDetails sb renterId month year =
        Inl ''Failed to fetch bill details: getBillWithDetails failed after 2 retries: Query timeout - operation took longer than expected'' \<and>
      fst (saveBillComplete billData expenses billPayments now sb) =
        Inl ''Failed to save bill: saveBillComplete failed after 2 retries: Query timeout - operation took longer than expected'')"
proof -
  have c1: "\<exists>t r. queryWithTimeout p 5000 = Settles t r \<and> t \<le> 5000"
    by (cases p) (simp_all add: queryWithTimeout_cases)
  have c2: "\<not> timely p 5000 \<longrightarrow>
      queryWithTimeout p 5000 =
        Settles 5000 (Inl ''Query timeout - operation took longer than expected'')"
    by (cases p) (simp_all add: queryWithTimeout_cases timely_def)
  have c3: "timely p 5000 \<longrightarrow> queryWithTimeout p 5000 = p"
    by (cases p) (simp_all add: queryWithTimeout_cases timely_def)
  have c4: "\<not> timely (attempt_promise queryFn w k) 5000 \<longrightarrow>
      attempt_outcome (with_timeout queryFn 5000) w k =
        Inl ''Query timeout - operation took longer than expected''"
    by (rule impI) (rule late_attempt)
  have c5: "(\<forall>j\<le>maxRetries. \<not> timely (attempt_promise queryFn w j) 5000) \<longrightarrow>
      fst (execute (with_timeout queryFn 5000) ctx w) =
        Inl (ctx @ '' failed after 2 retries: '' @
             ''Query timeout - operation took longer than expected'') \<and>
      calls (snd (execute (with_timeout queryFn 5000) ctx w)) = maxRetries + 1"
    by (rule impI) (rule execute_all_late)
  have c6: "k \<le> maxRetries \<and> (\<forall>j<k. \<not> timely (attempt_promise queryFn w j) 5000) \<and>
    attempt_promise queryFn w k = Settles t (Inr v) \<and> t \<le> 5000 \<longrightarrow>
      fst (execute (with_timeout queryFn 5000) ctx w) = Inr v \<and>
      calls (snd (execute (with_timeout queryFn 5000) ctx w)) = k + 1"
  proof
    assume "k \<le> maxRetries \<and> (\<forall>j<k. \<not> timely (attempt_promise queryFn w j) 5000) \<and>
      attempt_promise queryFn w k = Settles t (Inr v) \<and> t \<le> 5000"
    then have "k \<le> maxRetries" and "\<forall>j<k. \<not> timely (attempt_promise queryFn w j) 5000"
      and "attempt_promise queryFn w k = Settles t (Inr v)" and "t \<le> 5000"
      by simp_all
    then show "fst (execute (with_timeout queryFn 5000) ctx w) = Inr v \<and>
      calls (snd (execute (with_timeout queryFn 5000) ctx w)) = k + 1"
      by (rule execute_late_then_timely)
  qed
  have c7: "response_ms (db sb) = None \<or> (\<exists>t. response_ms (db sb) = Some t \<and> 5000 < t) \<longrightarrow>
      getBillWithDetails sb renterId month year =
        Inl ''Failed to fetch bill details: getBillWithDetails failed after 2 retries: Query timeout - operation took longer than expected'' \<and>
      fst (saveBillComplete billData expenses billPayments now sb) =
        Inl ''Failed to save bill: saveBillComplete failed after 2 retries: Query timeout - operation took longer than expected''"
  proof
    assume h: "response_ms (db sb) = None \<or> (\<exists>t. response_ms (db sb) = Some t \<and> 5000 < t)"
    from getBillWithDetails_late [OF h] saveBillComplete_late [OF h]
    show "getBillWithDetails sb renterId month year =
        Inl ''Failed to fetch bill details: getBillWithDetails failed after 2 retries: Query timeout - operation took longer than expected'' \<and>
      fst (saveBillComplete billData expenses billPayments now sb) =
        Inl ''Failed to save bill: saveBillComplete failed after 2 retries: Query timeout - operation took longer than expected''"
      by (rule conjI)
  qed
  show ?thesis
    by (rule conjI [OF c1 conjI [OF c2 conjI [OF c3 conjI [OF c4 conjI [OF c5 conjI [OF c6 c7]]]]]])
qed

theorem queryWithTimeout_bounds_attempt_witness:
  "queryWithTimeout (Pending :: int promise) 5000 =
     Settles 5000 (Inl ''Query timeout - operation took longer than expected'') \<and>
   queryWithTimeout (Settles 6200 (Inr (7::int))) 5000 =
     Settles 5000 (Inl ''Query timeout - operation took longer than expected'') \<and>
   queryWithTimeout (Settles 300 (Inr (7::int))) 5000 = Settles 300 (Inr 7) \<and>
   attempt_outcome
     (with_timeout (\<lambda>n::nat. (if n = 0 then Settles 6200 (Inr 1) else Settles 300 (Inr (7::int)), n + 1))
        5000) 0 0 =
     Inl ''Query timeout - operation took longer than expected'' \<and>
   fst (execute
     (with_timeout (\<lambda>n::nat. (if n = 0 then Settles 6200 (Inr 1) else Settles 300 (Inr (7::int)), n + 1))
        5000) ''getBillWithDetails'' 0) = Inr 7 \<and>
   calls (snd (execute
     (with_timeout (\<lambda>n::nat. (if n = 0 then Settles 6200 (Inr 1) else Settles 300 (Inr (7::int)), n + 1))
        5000) ''getBillWithDetails'' 0)) = 2 \<and>
   fst (execute (with_timeout (\<lambda>n::nat. (Pending :: int promise, n + 1)) 5000)
          ''getBillWithDetails'' 0) =
     Inl ''getBillWithDetails failed after 2 retries: Query timeout - operation took longer than expected'' \<and>
   calls (snd (execute (with_timeout (\<lambda>n::nat. (Pending :: int promise, n + 1)) 5000)
          ''getBillWithDetails'' 0)) = 3 \<and>
   getBillWithDetails
     \<lparr>auth_user = Some 1, rpc_available = True,
      db = (year_boundary_store 7 2026)\<lparr>response_ms := Some 6200\<rparr>\<rparr> 7 1 2026 =
     Inl ''Failed to fetch bill details: getBillWithDetails failed after 2 retries: Query timeout - operation took longer than expected'' \<and>
   fst (saveBillComplete
     \<lparr>bill_id_opt = None, bill_user_id = None, bill_columns = decBillData 7 2026,
      bill_created_at = None, bill_updated_at = None\<rparr> [] [] 5
     \<lparr>auth_user = Some 1, rpc_available = True,
      db = (year_boundary_store 7 2026)\<lparr>response_ms := Some 6200\<rparr>\<rparr>) =
     Inl ''Failed to save bill: saveBillComplete failed after 2 retries: Query timeout - operation took longer than expected'' \<and>
   getBillWithDetails
     \<lparr>auth_user = Some 1, rpc_available = True,
      db = (year_boundary_store 7 2026)\<lparr>response_ms := None\<rparr>\<rparr> 7 1 2026 =
     Inl ''Failed to fetch bill details: getBillWithDetails failed after 2 retries: Query timeout - operation took longer than expected''"
proof -
  let ?q = "\<lambda>n::nat. (if n = 0 then Settles 6200 (Inr 1) else Settles 300 (Inr (7::int)), n + 1)"
  let ?f = "\<lambda>n::nat. (Pending :: int promise, n + 1)"
  let ?slow = "\<lparr>auth_user = Some 1, rpc_available = True,
      db = (year_boundary_store 7 2026)\<lparr>response_ms := Some 6200\<rparr>\<rparr>"
  let ?dead = "\<lparr>auth_user = Some 1, rpc_available = True,
      db = (year_boundary_store 7 2026)\<lparr>response_ms := None\<rparr>\<rparr>"
  let ?bill = "\<lparr>bill_id_opt = None, bill_user_id = None, bill_columns = decBillData 7 2026,
      bill_created_at = None, bill_updated_at = None\<rparr>"
  have l1: "\<not> timely (Pending :: int promise) 5000"
    and l2: "\<not> timely (Settles 6200 (Inr (7::int))) 5000"
    and l3: "timely (Settles 300 (Inr (7::int))) 5000"
    by (simp_all add: timely_def)
  have q0: "\<not> timely (attempt_promise ?q 0 0) 5000"
    by (simp add: timely_def)
  have q1: "1 \<le> maxRetries \<and> (\<forall>j<1. \<not> timely (attempt_promise ?q 0 j) 5000) \<and>
      attempt_promise ?q 0 1 = Settles 300 (Inr 7) \<and> (300::nat) \<le> 5000"
    by (simp add: maxRetries_def timely_def)
  have f_all: "attempt_promise ?f w j = Pending" for w j
    by (induction j arbitrary: w) simp_all
  have f1: "\<forall>j\<le>maxRetries. \<not> timely (attempt_promise ?f 0 j) 5000"
    unfolding f_all by (simp add: timely_def)
  have s1: "response_ms (db ?slow) = None \<or> (\<exists>t. response_ms (db ?slow) = Some t \<and> 5000 < t)"
    by simp
  have s2: "response_ms (db ?dead) = None \<or> (\<exists>t. response_ms (db ?dead) = Some t \<and> 5000 < t)"
    by simp
  note a = queryWithTimeout_bounds_attempt [where p = "Pending :: int promise",
      THEN conjunct2, THEN conjunct1, rule_format, OF l1]
  note b = queryWithTimeout_bounds_attempt [where p = "Settles 6200 (Inr (7::int))",
      THEN conjunct2, THEN conjunct1, rule_format, OF l2]
  note c = queryWithTimeout_bounds_attempt [where p = "Settles 300 (Inr (7::int))",
      THEN conjunct2, THEN conjunct2, THEN conjunct1, rule_format, OF l3]
  note d = queryWithTimeout_bounds_attempt [where queryFn = ?q and w = 0 and k = 0,
      THEN conjunct2, THEN conjunct2, THEN conjunct2, THEN conjunct1, rule_format, OF q0]
  note e = queryWithTimeout_bounds_attempt [where queryFn = ?q and w = 0 and k = 1 and t = 300
        and v = 7 and ctx = "''getBillWithDetails''",
      THEN conjunct2, THEN conjunct2, THEN conjunct2, THEN conjunct2, THEN conjunct2,
      THEN conjunct1, rule_format, OF q1]
  note f = queryWithTimeout_bounds_attempt [where queryFn = ?f and w = 0
        and ctx = "''getBillWithDetails''",
      THEN conjunct2, THEN conjunct2, THEN conjunct2, THEN conjunct2, THEN conjunct1,
      THEN mp, OF f1]
  note g = queryWithTimeout_bounds_attempt [where sb = ?slow and renterId = 7 and month = 1
        and year = 2026 and billData = ?bill and expenses = "[]" and billPayments = "[]" and now = 5,
      THEN conjunct2, THEN conjunct2, THEN conjunct2, THEN conjunct2, THEN conjunct2,
      THEN conjunct2, rule_format, OF s1]
  note h = queryWithTimeout_bounds_attempt [where sb = ?dead and renterId = 7 and month = 1
        and year = 2026,
      THEN conjunct2, THEN conjunct2, THEN conjunct2, THEN conjunct2, THEN conjunct2,
      THEN conjunct2, rule_format, OF s2, THEN conjunct1]
  have e': "fst (execute (with_timeout ?q 5000) ''getBillWithDetails'' 0) = Inr 7"
    and e'': "calls (snd (execute (with_timeout ?q 5000) ''getBillWithDetails'' 0)) = 2"
    using e by simp_all
  have f': "fst (execute (with_timeout ?f 5000) ''getBillWithDetails'' 0) =
      Inl ''getBillWithDetails failed after 2 retries: Query timeout - operation took longer than expected''"
    and f'': "calls (snd (execute (with_timeout ?f 5000) ''getBillWithDetails'' 0)) = 3"
    using f by (simp_all add: maxRetries_def)
  show ?thesis
    by (intro conjI a b c d e' e'' f' f'' g [THEN conjunct1] g [THEN conjunct2] h)
qed

end
